(* ===== verification/Prelude.thy ===== *)
theory Prelude
  imports Main "HOL-Library.Word"
begin

text \<open>
  Shared ground of the development: the result type of C code that can trap, the arithmetic of
  the C types the program uses, and the generic lemmas on lists that the component proofs use.

  A C operation whose behaviour is undefined, or that traps, is a value \<open>Inl fault\<close>; a normal
  return is \<open>Inr v\<close>. \<open>Process_exit n\<close> stands for a call of \<open>exit(n)\<close>, \<open>Aborted\<close> for one of \<open>abort()\<close>.
\<close>

named_theorems res_simps \<open>evaluation of sequenced C statements\<close>
named_theorems upd_simps \<open>fields kept by the state updates of the components\<close>

section \<open>Faults and sequencing\<close>

datatype fault =
    Null_deref
  | Out_of_bounds
  | Div_by_zero
  | Float_to_int
  | Uninitialised
  | Process_exit int
  | Aborted

type_synonym 'a res = "fault + 'a"

definition res_bind :: "'a res \<Rightarrow> ('a \<Rightarrow> 'b res) \<Rightarrow> 'b res" where
  "res_bind m f = (case m of Inl e \<Rightarrow> Inl e | Inr x \<Rightarrow> f x)"

lemma res_bind_Inl [simp, res_simps]: "res_bind (Inl e) f = Inl e"
  by (simp add: res_bind_def)

lemma res_bind_Inr [simp, res_simps]: "res_bind (Inr x) f = f x"
  by (simp add: res_bind_def)

lemma res_bind_eq_Inr: "res_bind m f = Inr y \<longleftrightarrow> (\<exists>x. m = Inr x \<and> f x = Inr y)"
  by (cases m) auto

lemma res_bind_eq_Inl: "res_bind m f = Inl e \<longleftrightarrow> m = Inl e \<or> (\<exists>x. m = Inr x \<and> f x = Inl e)"
  by (cases m) auto

lemma res_bindE [elim]:
  assumes "res_bind m f = Inr y"
  obtains x where "m = Inr x" and "f x = Inr y"
  using assms by (auto simp: res_bind_eq_Inr)

text \<open>\<open>deref\<close> follows a pointer: \<open>None\<close> is the null pointer.\<close>

definition deref :: "'a option \<Rightarrow> 'a res" where
  "deref p = (case p of None \<Rightarrow> Inl Null_deref | Some x \<Rightarrow> Inr x)"

lemma deref_None [simp, res_simps]: "deref None = Inl Null_deref"
  by (simp add: deref_def)

lemma deref_Some [simp, res_simps]: "deref (Some x) = Inr x"
  by (simp add: deref_def)

lemma deref_eq_Inr [simp]: "deref p = Inr x \<longleftrightarrow> p = Some x"
  by (cases p) auto

section \<open>C integers\<close>

text \<open>
  \<open>long\<close> to \<open>int\<close> conversion keeps the low 32 bits, read as two's complement;
  \<open>/\<close> and \<open>%\<close> on \<open>int\<close> truncate towards zero.
\<close>

definition int_of_long :: "int \<Rightarrow> int" where
  "int_of_long v = signed_take_bit 31 v"

definition INT_MAX :: int where "INT_MAX = 2 ^ 31 - 1"
definition INT_MIN :: int where "INT_MIN = - (2 ^ 31)"

lemma int_of_long_id: "INT_MIN \<le> v \<Longrightarrow> v \<le> INT_MAX \<Longrightarrow> int_of_long v = v"
  by (simp add: int_of_long_def INT_MAX_def INT_MIN_def signed_take_bit_int_eq_self)

lemma int_of_long_range: "INT_MIN \<le> int_of_long v \<and> int_of_long v \<le> INT_MAX"
  using signed_take_bit_int_greater_eq_minus_exp [of 31 v] signed_take_bit_int_less_exp [of 31 v]
  by (simp add: int_of_long_def INT_MAX_def INT_MIN_def)

definition c_int :: "int \<Rightarrow> bool" where
  "c_int v \<longleftrightarrow> INT_MIN \<le> v \<and> v \<le> INT_MAX"

lemma c_int_of_long [simp]: "c_int (int_of_long v)"
  using int_of_long_range by (simp add: c_int_def)

definition c_div :: "int \<Rightarrow> int \<Rightarrow> int" where
  "c_div a b = sgn a * sgn b * (\<bar>a\<bar> div \<bar>b\<bar>)"

lemma c_div_nonneg: "0 \<le> a \<Longrightarrow> 0 < b \<Longrightarrow> c_div a b = a div b"
  by (cases "a = 0") (simp_all add: c_div_def)

section \<open>Lists\<close>

lemma count_list_update:
  assumes "i < length xs"
  shows "count_list (xs[i := v]) x + (if xs ! i = x then 1 else 0)
       = count_list xs x + (if v = x then 1 else 0)"
  using assms
proof (induction xs arbitrary: i)
  case Nil
  then show ?case by simp
next
  case (Cons y ys)
  show ?case
  proof (cases i)
    case (Suc j)
    with Cons.prems Cons.IH [of j] show ?thesis by (auto split: if_splits)
  qed simp
qed

lemma count_list_update_same [simp]: "i < length xs \<Longrightarrow> xs ! i = v \<Longrightarrow> count_list (xs[i := v]) x = count_list xs x"
  using list_update_id [of xs i] by auto

lemma count_list_replicate: "count_list (replicate n a) x = (if a = x then n else 0)"
  by (induction n) auto

lemma count_list_le_length: "count_list xs x \<le> length xs"
  by (rule count_le_length)

lemma length_filter_update:
  assumes "i < length xs"
  shows "length (filter P (xs[i := v])) + (if P (xs ! i) then 1 else 0)
       = length (filter P xs) + (if P v then 1 else 0)"
  using assms
proof (induction xs arbitrary: i)
  case Nil
  then show ?case by simp
next
  case (Cons y ys)
  then show ?case by (cases i) auto
qed

lemma nth_update_cases:
  "i < length xs \<Longrightarrow> xs[i := v] ! j = (if j = i then v else xs ! j)"
  by (cases "j = i") (simp_all add: nth_list_update)

end
