(* ===== verification/C_Float.thy ===== *)
theory C_Float
  imports Prelude Complex_Main "HOL-Library.Log_Nat"
begin

text \<open>
  The C types \<open>float\<close> and \<open>double\<close> as IEEE 754 binary32 and binary64 values with rounding to
  nearest, ties to even. A finite value is the rational it denotes, so the two zeros are one
  value (the program never divides by a value it has not tested to be positive, and compares
  zeros only). Arithmetic on \<open>float\<close> rounds each operation to binary32, as the SSE code of the
  supported Linux targets does.
\<close>

datatype c_float = Fin rat | Inf bool | NaN

section \<open>Rounding\<close>

definition ilog2 :: "rat \<Rightarrow> int" where
  "ilog2 x = (let nd = quotient_of \<bar>x\<bar>;
                  k = int (floorlog 2 (nat (fst nd))) - int (floorlog 2 (nat (snd nd)))
              in if 2 powi k \<le> \<bar>x\<bar> then k else k - 1)"

definition round_half_even :: "rat \<Rightarrow> int" where
  "round_half_even x =
     (let f = \<lfloor>x\<rfloor>; d = x - of_int f
      in if d < 1 / 2 then f else if 1 / 2 < d then f + 1 else if even f then f else f + 1)"

definition round_exp :: "int \<Rightarrow> rat \<Rightarrow> int" where
  "round_exp emin x = max (ilog2 x) emin"

definition round_val :: "int \<Rightarrow> int \<Rightarrow> rat \<Rightarrow> rat" where
  "round_val p emin x =
     (if x = 0 then 0
      else (let u = 2 powi (round_exp emin x - p + 1) in of_int (round_half_even (x / u)) * u))"

definition fround :: "int \<Rightarrow> int \<Rightarrow> int \<Rightarrow> rat \<Rightarrow> c_float" where
  "fround p emin emax x =
     (let v = round_val p emin x in if 2 powi (emax + 1) \<le> \<bar>v\<bar> then Inf (x < 0) else Fin v)"

definition to_float :: "rat \<Rightarrow> c_float" where
  "to_float = fround 24 (- 126) 127"

definition to_double :: "rat \<Rightarrow> c_float" where
  "to_double = fround 53 (- 1022) 1023"

section \<open>Operations\<close>

fun f_add :: "c_float \<Rightarrow> c_float \<Rightarrow> c_float" where
  "f_add (Fin a) (Fin b) = to_float (a + b)"
| "f_add (Inf s) (Inf t) = (if s = t then Inf s else NaN)"
| "f_add (Inf s) (Fin b) = Inf s"
| "f_add (Fin a) (Inf t) = Inf t"
| "f_add NaN y = NaN"
| "f_add x NaN = NaN"

fun f_mul :: "c_float \<Rightarrow> c_float \<Rightarrow> c_float" where
  "f_mul (Fin a) (Fin b) = to_float (a * b)"
| "f_mul (Inf s) (Inf t) = Inf (s \<noteq> t)"
| "f_mul (Inf s) (Fin b) = (if b = 0 then NaN else Inf (s \<noteq> (b < 0)))"
| "f_mul (Fin a) (Inf t) = (if a = 0 then NaN else Inf ((a < 0) \<noteq> t))"
| "f_mul NaN y = NaN"
| "f_mul x NaN = NaN"

fun f_div :: "c_float \<Rightarrow> c_float \<Rightarrow> c_float" where
  "f_div (Fin a) (Fin b) =
     (if b = 0 then (if a = 0 then NaN else Inf (a < 0)) else to_float (a / b))"
| "f_div (Inf s) (Inf t) = NaN"
| "f_div (Inf s) (Fin b) = Inf (s \<noteq> (b < 0))"
| "f_div (Fin a) (Inf t) = Fin 0"
| "f_div NaN y = NaN"
| "f_div x NaN = NaN"

fun f_lt :: "c_float \<Rightarrow> c_float \<Rightarrow> bool" where
  "f_lt (Fin a) (Fin b) = (a < b)"
| "f_lt (Fin a) (Inf t) = (\<not> t)"
| "f_lt (Inf s) (Fin b) = s"
| "f_lt (Inf s) (Inf t) = (s \<and> \<not> t)"
| "f_lt NaN y = False"
| "f_lt x NaN = False"

fun f_le :: "c_float \<Rightarrow> c_float \<Rightarrow> bool" where
  "f_le (Fin a) (Fin b) = (a \<le> b)"
| "f_le (Fin a) (Inf t) = (\<not> t)"
| "f_le (Inf s) (Fin b) = s"
| "f_le (Inf s) (Inf t) = (s \<or> \<not> t)"
| "f_le NaN y = False"
| "f_le x NaN = False"

definition f_of_int :: "int \<Rightarrow> c_float" where
  "f_of_int i = to_float (of_int i)"

text \<open>Conversion to \<open>int\<close> truncates; a value outside the range of \<open>int\<close> is undefined behaviour.\<close>

definition rat_trunc :: "rat \<Rightarrow> int" where
  "rat_trunc x = (if x < 0 then - \<lfloor>- x\<rfloor> else \<lfloor>x\<rfloor>)"

fun f_to_int :: "c_float \<Rightarrow> int res" where
  "f_to_int (Fin x) =
     (let i = rat_trunc x in if INT_MIN \<le> i \<and> i \<le> INT_MAX then Inr i else Inl Float_to_int)"
| "f_to_int (Inf s) = Inl Float_to_int"
| "f_to_int NaN = Inl Float_to_int"

text \<open>A \<open>double\<close> stored into a \<open>float\<close> is rounded a second time.\<close>

fun f_of_double :: "c_float \<Rightarrow> c_float" where
  "f_of_double (Fin x) = to_float x"
| "f_of_double (Inf s) = Inf s"
| "f_of_double NaN = NaN"

section \<open>The order of floats that are not NaN\<close>

lemma f_lt_irrefl [simp]: "\<not> f_lt x x"
  by (cases x) auto

lemma f_not_lt_trans:
  assumes "y \<noteq> NaN" and "\<not> f_lt x y" and "\<not> f_lt y z"
  shows "\<not> f_lt x z"
  using assms by (cases x; cases y; cases z) auto

lemma f_lt_asym: "f_lt x y \<Longrightarrow> \<not> f_lt y x"
  by (cases x; cases y) auto

lemma f_le_lt_iff: "x \<noteq> NaN \<Longrightarrow> y \<noteq> NaN \<Longrightarrow> f_le x y \<longleftrightarrow> \<not> f_lt y x"
  by (cases x; cases y) auto

section \<open>Rounding is monotone and exact on representable values\<close>

lemma powi_le: "a \<le> b \<Longrightarrow> (2::rat) powi a \<le> 2 powi b"
  by (rule power_int_increasing) auto

lemma floorlog_rat_bounds:
  assumes "n > 0"
  shows "(2::rat) powi (int (floorlog 2 (nat n)) - 1) \<le> of_int n"
    and "of_int n < (2::rat) powi (int (floorlog 2 (nat n)))"
proof -
  define a where "a = floorlog 2 (nat n)"
  have a0: "a > 0" using assms by (auto simp: a_def floorlog_def)
  have b: "2 ^ (a - 1) \<le> nat n" "nat n < 2 ^ a"
    unfolding a_def using assms floorlog_bounds [of "nat n" 2] by auto
  have "(2::rat) ^ (a - 1) \<le> of_nat (nat n)"
    using b(1) by (metis of_nat_le_iff of_nat_numeral of_nat_power)
  moreover have "of_nat (nat n) < (2::rat) ^ a"
    using b(2) by (metis of_nat_less_iff of_nat_numeral of_nat_power)
  ultimately show "(2::rat) powi (int (floorlog 2 (nat n)) - 1) \<le> of_int n"
    and "of_int n < (2::rat) powi (int (floorlog 2 (nat n)))"
    using assms a0 by (auto simp: power_int_def nat_diff_distrib a_def [symmetric])
qed

lemma ilog2_bounds:
  assumes "x > 0"
  shows "2 powi (ilog2 x) \<le> x \<and> x < 2 powi (ilog2 x + 1)"
proof -
  obtain n d where q: "quotient_of x = (n, d)" by fastforce
  have d: "d > 0" and x: "x = of_int n / of_int d"
    using quotient_of_denom_pos [OF q] quotient_of_div [OF q] by auto
  then have n: "n > 0" using assms by (simp add: zero_less_divide_iff)
  let ?a = "int (floorlog 2 (nat n))" and ?b = "int (floorlog 2 (nat d))"
  let ?k = "?a - ?b"
  have lower: "(2::rat) powi (?k - 1) \<le> x"
  proof -
    have "(2::rat) powi (?k - 1) * of_int d \<le> 2 powi (?k - 1) * 2 powi ?b"
      using floorlog_rat_bounds(2) [OF d] by (intro mult_left_mono) auto
    also have "\<dots> = 2 powi (?a - 1)"
      by (subst power_int_add [symmetric]) auto
    also have "\<dots> \<le> of_int n" by (rule floorlog_rat_bounds(1) [OF n])
    finally show ?thesis using d by (simp add: x pos_le_divide_eq)
  qed
  have upper: "x < (2::rat) powi (?k + 1)"
  proof -
    have "of_int n < (2::rat) powi ?a" by (rule floorlog_rat_bounds(2) [OF n])
    also have "\<dots> = 2 powi (?k + 1) * 2 powi (?b - 1)"
      by (subst power_int_add [symmetric]) auto
    also have "\<dots> \<le> 2 powi (?k + 1) * of_int d"
      using floorlog_rat_bounds(1) [OF d] by (intro mult_left_mono) auto
    finally show ?thesis using d by (simp add: x pos_divide_less_eq)
  qed
  have "ilog2 x = (if 2 powi ?k \<le> x then ?k else ?k - 1)"
    using assms q by (simp add: ilog2_def Let_def)
  then show ?thesis using lower upper by auto
qed

lemma ilog2_mono:
  assumes "0 < x" and "x \<le> y"
  shows "ilog2 x \<le> ilog2 y"
proof -
  have "(2::rat) powi (ilog2 x) < 2 powi (ilog2 y + 1)"
    using ilog2_bounds [of x] ilog2_bounds [of y] assms by linarith
  then have "\<not> ilog2 y + 1 \<le> ilog2 x" using powi_le by (metis not_le)
  then show ?thesis by simp
qed

lemma ilog2_minus [simp]: "ilog2 (- x) = ilog2 x"
  by (simp add: ilog2_def)

lemma round_half_even_of_int [simp]: "round_half_even (of_int k) = k"
  by (simp add: round_half_even_def)

lemma round_half_even_bounds:
  "\<lfloor>x\<rfloor> \<le> round_half_even x \<and> round_half_even x \<le> \<lfloor>x\<rfloor> + 1"
  by (simp add: round_half_even_def Let_def)

lemma round_half_even_mono:
  assumes "x \<le> y"
  shows "round_half_even x \<le> round_half_even y"
proof (cases "\<lfloor>x\<rfloor> = \<lfloor>y\<rfloor>")
  case True
  with assms show ?thesis by (auto simp: round_half_even_def Let_def)
next
  case False
  with assms have "\<lfloor>x\<rfloor> + 1 \<le> \<lfloor>y\<rfloor>" by (metis floor_mono less_le zless_imp_add1_zle)
  then show ?thesis using round_half_even_bounds [of x] round_half_even_bounds [of y] by linarith
qed

lemma round_half_even_minus: "round_half_even (- x) = - round_half_even x"
proof (cases "x = of_int \<lfloor>x\<rfloor>")
  case True
  then show ?thesis by (metis of_int_minus round_half_even_of_int)
next
  case False
  then have "\<lfloor>- x\<rfloor> = - \<lfloor>x\<rfloor> - 1"
    by (simp add: floor_eq_iff) linarith
  then show ?thesis by (auto simp: round_half_even_def Let_def)
qed

lemma round_val_minus [simp]: "round_val p emin (- x) = - round_val p emin x"
  by (simp add: round_val_def round_exp_def round_half_even_minus Let_def)

lemma round_val_zero [simp]: "round_val p emin 0 = 0"
  by (simp add: round_val_def)

lemma round_val_nonneg:
  assumes "0 \<le> x"
  shows "0 \<le> round_val p emin x"
proof -
  have "round_half_even 0 \<le> round_half_even (x / 2 powi (round_exp emin x - p + 1))"
    by (rule round_half_even_mono) (use assms in simp)
  moreover have "round_half_even 0 = 0" using round_half_even_of_int [of 0] by simp
  ultimately show ?thesis by (simp add: round_val_def Let_def)
qed

text \<open>
  A value of the binade of exponent \<open>e\<close> rounds into the closed interval between the powers of two
  around it, because both ends are multiples of the unit in the last place.
\<close>

lemma powi_split:
  assumes "0 \<le> k"
  shows "(2::rat) powi (k + m) = of_int (2 ^ nat k) * 2 powi m"
proof -
  have "(2::rat) powi k = of_int (2 ^ nat k)" using assms by (simp add: power_int_def)
  then show ?thesis by (subst power_int_add) simp_all
qed

lemma round_half_even_powi_le:
  assumes "x \<le> 2 powi (k + m)" and "0 \<le> k"
  shows "of_int (round_half_even (x / 2 powi m)) * (2::rat) powi m \<le> 2 powi (k + m)"
proof -
  have p: "(2::rat) powi (k + m) = of_int (2 ^ nat k) * 2 powi m"
    by (rule powi_split [OF assms(2)])
  have "x / 2 powi m \<le> of_int (2 ^ nat k)"
    using assms(1) by (simp add: p divide_le_eq)
  then have "round_half_even (x / 2 powi m) \<le> 2 ^ nat k"
    by (metis round_half_even_mono round_half_even_of_int)
  then have "(of_int (round_half_even (x / 2 powi m)) :: rat) \<le> of_int (2 ^ nat k)"
    by (rule of_int_le_iff [THEN iffD2])
  then show ?thesis by (simp add: p del: of_int_power)
qed

lemma round_half_even_powi_ge:
  assumes "2 powi (k + m) \<le> x" and "0 \<le> k"
  shows "(2::rat) powi (k + m) \<le> of_int (round_half_even (x / 2 powi m)) * 2 powi m"
proof -
  have p: "(2::rat) powi (k + m) = of_int (2 ^ nat k) * 2 powi m"
    by (rule powi_split [OF assms(2)])
  have "of_int (2 ^ nat k) \<le> x / 2 powi m"
    using assms(1) by (simp add: p le_divide_eq)
  then have "2 ^ nat k \<le> round_half_even (x / 2 powi m)"
    by (metis round_half_even_mono round_half_even_of_int)
  then have "(of_int (2 ^ nat k) :: rat) \<le> of_int (round_half_even (x / 2 powi m))"
    by (rule of_int_le_iff [THEN iffD2])
  then show ?thesis by (simp add: p del: of_int_power)
qed

lemma round_val_mono_pos:
  assumes xy: "0 < x" "x \<le> y" and p: "1 \<le> p"
  shows "round_val p emin x \<le> round_val p emin y"
proof -
  let ?e = "round_exp emin x" and ?f = "round_exp emin y"
  have vx: "round_val p emin x = of_int (round_half_even (x / 2 powi (?e - p + 1))) * 2 powi (?e - p + 1)"
    and vy: "round_val p emin y = of_int (round_half_even (y / 2 powi (?f - p + 1))) * 2 powi (?f - p + 1)"
    using xy by (auto simp: round_val_def Let_def)
  have ef: "?e \<le> ?f" using ilog2_mono [OF xy] by (auto simp: round_exp_def)
  show ?thesis
  proof (cases "?e = ?f")
    case True
    have "round_half_even (x / 2 powi (?f - p + 1)) \<le> round_half_even (y / 2 powi (?f - p + 1))"
      using xy by (intro round_half_even_mono divide_right_mono) auto
    then show ?thesis by (simp add: vx vy True)
  next
    case False
    have "x \<le> 2 powi (?e + 1)"
      using ilog2_bounds [OF xy(1)] powi_le [of "ilog2 x + 1" "?e + 1"] by (simp add: round_exp_def)
    then have "round_val p emin x \<le> 2 powi (?e + 1)"
      using round_half_even_powi_le [of x p "?e - p + 1"] p by (simp add: vx)
    also have "\<dots> \<le> 2 powi ?f" using ef False by (intro powi_le) simp
    also have "\<dots> \<le> round_val p emin y"
    proof -
      have "?f = ilog2 y" using ef False by (simp add: round_exp_def max_def split: if_splits)
      then have "2 powi ?f \<le> y" using ilog2_bounds [of y] xy by simp
      then show ?thesis using round_half_even_powi_ge [of "p - 1" "?f - p + 1" y] p by (simp add: vy)
    qed
    finally show ?thesis .
  qed
qed

lemma round_val_mono:
  assumes "x \<le> y" and "1 \<le> p"
  shows "round_val p emin x \<le> round_val p emin y"
proof -
  consider "0 < x" | "x \<le> 0" "0 \<le> y" | "y < 0" by linarith
  then show ?thesis
  proof cases
    case 1
    then show ?thesis using assms by (rule round_val_mono_pos)
  next
    case 2
    then have "0 \<le> round_val p emin (- x)" and "0 \<le> round_val p emin y"
      by (auto intro: round_val_nonneg simp del: round_val_minus)
    then show ?thesis by simp
  next
    case 3
    then have "round_val p emin (- y) \<le> round_val p emin (- x)"
      using assms by (intro round_val_mono_pos) auto
    then show ?thesis by simp
  qed
qed

text \<open>Below a bound whose rounding does not overflow, rounding to \<open>float\<close> is finite and ordered.\<close>

lemma to_float_bounded:
  assumes "0 \<le> x" and "x \<le> y" and "round_val 24 (- 126) y < 2 powi 128"
  obtains v where "to_float x = Fin v" and "0 \<le> v" and "v \<le> round_val 24 (- 126) y"
proof
  have le: "round_val 24 (- 126) x \<le> round_val 24 (- 126) y"
    by (rule round_val_mono) (use assms in auto)
  show nn: "0 \<le> round_val 24 (- 126) x"
    by (rule round_val_nonneg) (rule assms(1))
  show "to_float x = Fin (round_val 24 (- 126) x)"
    using nn le assms(3) by (simp add: to_float_def fround_def Let_def)
  show "round_val 24 (- 126) x \<le> round_val 24 (- 126) y" by (rule le)
qed

lemma to_float_not_NaN [simp]: "to_float x \<noteq> NaN"
  by (simp add: to_float_def fround_def Let_def)

lemma round_val_1: "round_val 24 (- 126) 1 = 1"
  by code_simp

lemma round_val_100: "round_val 24 (- 126) 100 = 100"
  by code_simp

text \<open>Multiples of a power of two with a 24-bit factor are floats.\<close>

lemma round_val_24_bits:
  assumes k: "0 < k" "k < 2 ^ 24"
  shows "round_val 24 (- 126) (of_nat k * 2 ^ s) = of_nat k * 2 ^ s"
proof -
  define x :: rat where "x = of_nat k * 2 ^ s"
  have x: "0 < x" using k by (simp add: x_def)
  have up: "x < 2 powi (int s + 24)"
  proof -
    have "(of_nat k :: rat) < 2 ^ 24" using k(2) by (metis of_nat_less_iff of_nat_numeral of_nat_power)
    then have "x < 2 ^ 24 * 2 ^ s" by (simp add: x_def)
    also have "\<dots> = 2 powi (int s + 24)" by (simp add: power_int_def nat_add_distrib power_add)
    finally show ?thesis .
  qed
  define m where "m = round_exp (- 126) x - 24 + 1"
  have "(2::rat) powi ilog2 x < 2 powi (int s + 24)" using ilog2_bounds [OF x] up by linarith
  then have "ilog2 x < int s + 24" using powi_le by (metis not_le)
  then have m: "0 \<le> int s - m" by (simp add: m_def round_exp_def)
  have "(2::rat) ^ s = 2 powi ((int s - m) + m)" by (simp add: power_int_def)
  also have "\<dots> = of_int (2 ^ nat (int s - m)) * 2 powi m" by (rule powi_split [OF m])
  finally have "x / 2 powi m = of_int (int k * 2 ^ nat (int s - m))" by (simp add: x_def)
  then have "round_half_even (x / 2 powi m) = int k * 2 ^ nat (int s - m)" by (simp only: round_half_even_of_int)
  then have "of_int (round_half_even (x / 2 powi m)) * 2 powi m = x"
    using \<open>x / 2 powi m = _\<close> by (metis nonzero_divide_eq_eq power_int_not_zero zero_neq_numeral)
  then show ?thesis using x by (simp add: round_val_def Let_def m_def x_def)
qed

lemma to_float_multiple:
  assumes "0 \<le> x" and "x \<le> of_nat k * 2 ^ 100" and "k < 2 ^ 24"
  obtains v where "to_float x = Fin v" and "0 \<le> v" and "v \<le> of_nat k * 2 ^ 100"
    and "v = round_val 24 (- 126) x"
proof -
  have r: "round_val 24 (- 126) (of_nat k * 2 ^ 100) = of_nat k * 2 ^ 100"
    using round_val_24_bits [of k 100] assms(3) by (cases "k = 0") simp_all
  have "(of_nat k :: rat) < 2 ^ 24" using assms(3) by (metis of_nat_less_iff of_nat_numeral of_nat_power)
  then have "of_nat k * 2 ^ 100 < (2::rat) ^ 24 * 2 ^ 100" by (intro mult_strict_right_mono) simp_all
  also have "\<dots> \<le> 2 powi 128" by (simp add: power_int_def)
  finally have big: "of_nat k * 2 ^ 100 < (2::rat) powi 128" .
  obtain v where v: "to_float x = Fin v" "0 \<le> v" "v \<le> of_nat k * 2 ^ 100"
    by (rule to_float_bounded [OF assms(1,2)]) (use r big in simp_all)
  moreover have "v = round_val 24 (- 126) x"
    using v(1) by (simp add: to_float_def fround_def Let_def split: if_splits)
  ultimately show thesis using that by blast
qed

end
