(* ===== verification/Balancer.thy ===== *)
theory Balancer
  imports C_Float
begin

text \<open>
  The shared-memory data of octopus.h: the constants, the \<open>SERVER\<close> and \<open>BALANCER\<close> structs and the
  two functions the header defines, \<open>set_cloned_state\<close> and \<open>create_balancer_server\<close>, with the
  well-formedness invariant of a server table.

  Conventions. A \<open>#define\<close>d enumeration is a datatype with the macro names as constructors; the
  value that \<open>memset(.., 0, ..)\<close> produces is the constructor of value 0. Array positions and counts
  (\<open>id\<close>, \<open>nmembers\<close>, \<open>next_member\<close>) are \<open>nat\<close>: the arrays have 512 slots, so their 16-bit width is
  never reached before an out-of-bounds write, which is a fault of the model. \<open>hash_table_usage\<close> and
  the 64-bit counters are words and wrap. A \<open>char[16]\<close> name is the list of its characters before the
  first NUL, at most 16 of them.
\<close>

section \<open>Constants\<close>

abbreviation MAXSERVERS :: nat where "MAXSERVERS \<equiv> 512"
abbreviation HASHTABLESIZE :: nat where "HASHTABLESIZE \<equiv> 65535"
abbreviation HASH_VAL_FREE :: int where "HASH_VAL_FREE \<equiv> - 1"
abbreviation SERVERNAME_MAX_LENGTH :: nat where "SERVERNAME_MAX_LENGTH \<equiv> 16"

datatype server_state =
    SERVER_STATE_FREE
  | SERVER_STATE_DELETED
  | SERVER_STATE_FAILED
  | SERVER_STATE_DISABLED
  | SERVER_STATE_ENABLED

datatype standby_flag = STANDBY_STATE_TRUE | STANDBY_STATE_FALSE

datatype clone_flag = SERVER_CLONE_TRUE | SERVER_CLONE_FALSE

datatype clone_mode_t = CLONE_MODE_OFF | CLONE_MODE_ON | CLONE_MODE_FAILED

datatype overload_mode_t = OVERLOAD_MODE_RELAXED | OVERLOAD_MODE_STRICT

datatype algorithm_t = ALGORITHM_RR | ALGORITHM_LC | ALGORITHM_LL | ALGORITHM_HASH | ALGORITHM_STATIC

datatype snmp_status_t = SNMP_NOT_INCLUDED | SNMP_DISABLED | SNMP_ENABLED

datatype foreground_t = FOREGROUND_OFF | FOREGROUND_ON | FOREGROUND_INIT

definition SNMP_LOAD_NOT_INIT :: c_float where "SNMP_LOAD_NOT_INIT = Fin (- 1)"
definition SNMP_LOAD_FAILED :: c_float where "SNMP_LOAD_FAILED = Fin (- 2)"

section \<open>Structs\<close>

record SERVER =
  srv_id :: nat
  srv_name :: string
  srv_status :: server_state
  srv_standby_state :: standby_flag
  srv_port :: int
  srv_sin_port :: "16 word"
  srv_sin_addr :: "32 word"
  srv_c :: int
  srv_maxc :: int
  srv_completed_c :: "64 word"
  srv_bsent :: "64 word"
  srv_brecv :: "64 word"
  srv_load :: c_float
  srv_maxl :: c_float
  srv_e_load :: int
  srv_hash_table_usage :: "16 word"

text \<open>A slot after \<open>memset(&server, 0, sizeof(SERVER))\<close>.\<close>

definition zero_server :: SERVER where
  "zero_server = \<lparr>srv_id = 0, srv_name = [], srv_status = SERVER_STATE_FREE,
     srv_standby_state = STANDBY_STATE_TRUE, srv_port = 0, srv_sin_port = 0, srv_sin_addr = 0,
     srv_c = 0, srv_maxc = 0, srv_completed_c = 0, srv_bsent = 0, srv_brecv = 0,
     srv_load = Fin 0, srv_maxl = Fin 0, srv_e_load = 0, srv_hash_table_usage = 0\<rparr>"

record BALANCER =
  hash_table :: "int list"
  nmembers :: nat
  nclones :: nat
  monitor_interval :: "16 word"
  alive :: int
  algorithm :: algorithm_t
  clone_mode :: clone_mode_t
  overload_mode :: overload_mode_t
  members :: "SERVER list"
  clones :: "SERVER list"
  snmp_community_pw :: "string option"
  snmp_status :: snmp_status_t
  binding_port :: int
  binding_ip :: "32 word"
  member_outbound_ip :: "32 word"
  clone_outbound_ip :: "32 word"
  connect_timeout :: int
  monitor_pid :: int
  master_pid :: int
  shmid :: int
  foreground :: foreground_t
  log_file_open :: bool
  log_file_path :: "string option"
  session_weight :: c_float
  hash_rebalance_threshold :: int
  hash_rebalance_size :: int
  hash_rebalance_interval :: int
  use_member_outbound_ip :: int
  use_clone_outbound_ip :: int
  shm_run_dir :: "string option"
  shm_run_file :: "string option"
  shm_run_file_fullname :: string
  default_maxc :: int
  default_maxl :: c_float
  version :: string
  fd_limit :: int
  session_limit :: int
  use_syslog :: int
  shm_perms :: int
  overall_load :: int
  connection_rejected_log_suppress :: bool
  debug_level :: int

text \<open>Read-modify-write of one slot of a server array.\<close>

definition upd_server :: "nat \<Rightarrow> (SERVER \<Rightarrow> SERVER) \<Rightarrow> SERVER list \<Rightarrow> SERVER list" where
  "upd_server i f srvs = srvs[i := f (srvs ! i)]"

definition upd_member :: "nat \<Rightarrow> (SERVER \<Rightarrow> SERVER) \<Rightarrow> BALANCER \<Rightarrow> BALANCER" where
  "upd_member i f b = b\<lparr>members := upd_server i f (members b)\<rparr>"

definition upd_clone :: "nat \<Rightarrow> (SERVER \<Rightarrow> SERVER) \<Rightarrow> BALANCER \<Rightarrow> BALANCER" where
  "upd_clone i f b = b\<lparr>clones := upd_server i f (clones b)\<rparr>"

section \<open>Operations of the header\<close>

text \<open>
  \<open>set_cloned_state\<close>: with cloning on, count the clones that are not enabled and fail the mode when
  that is all of them; with cloning failed, the first enabled clone switches it on again.
\<close>

definition set_cloned_state :: "BALANCER \<Rightarrow> BALANCER" where
  "set_cloned_state b =
     (if clone_mode b = CLONE_MODE_ON then
        (let temp = length (filter (\<lambda>i. srv_status (clones b ! i) \<noteq> SERVER_STATE_ENABLED) [0..<nclones b])
         in if temp = nclones b then b\<lparr>clone_mode := CLONE_MODE_FAILED\<rparr> else b)
      else if clone_mode b = CLONE_MODE_FAILED then
        (case find (\<lambda>i. srv_status (clones b ! i) = SERVER_STATE_ENABLED) [0..<nclones b] of
           Some i \<Rightarrow> b\<lparr>clone_mode := CLONE_MODE_ON\<rparr>
         | None \<Rightarrow> b)
      else b)"

text \<open>
  The tail of \<open>create_balancer_server\<close>, the same code for members and for clones: reuse the first
  free slot, otherwise append at \<open>n\<close>; the code does not test that slot \<open>n\<close> is inside the array.
\<close>

definition place_server :: "SERVER \<Rightarrow> SERVER list \<Rightarrow> nat \<Rightarrow> (SERVER list \<times> nat) res" where
  "place_server s srvs n =
     (case find (\<lambda>i. srv_status (srvs ! i) = SERVER_STATE_FREE) [0..<n] of
        Some i \<Rightarrow> Inr (srvs[i := s\<lparr>srv_id := i\<rparr>], n)
      | None \<Rightarrow>
          if n < length srvs then Inr (srvs[n := s\<lparr>srv_id := n\<rparr>], n + 1) else Inl Out_of_bounds)"

definition new_server ::
  "string \<Rightarrow> server_state \<Rightarrow> standby_flag \<Rightarrow> int \<Rightarrow> 32 word \<Rightarrow> int \<Rightarrow> c_float \<Rightarrow> SERVER" where
  "new_server name st sb port ip maxc maxl =
     zero_server\<lparr>srv_name := take SERVERNAME_MAX_LENGTH name, srv_status := st,
       srv_standby_state := sb, srv_port := port, srv_maxc := maxc, srv_load := SNMP_LOAD_NOT_INIT,
       srv_maxl := maxl, srv_bsent := 0, srv_brecv := 0, srv_e_load := 0,
       srv_hash_table_usage := 0, srv_sin_port := word_of_int port, srv_sin_addr := ip\<rparr>"

definition create_balancer_server ::
  "bool \<Rightarrow> BALANCER \<Rightarrow> clone_flag \<Rightarrow> string \<Rightarrow> server_state \<Rightarrow> standby_flag \<Rightarrow> int \<Rightarrow> 32 word \<Rightarrow>
   int \<Rightarrow> c_float \<Rightarrow> (int \<times> BALANCER) res" where
  "create_balancer_server malloc_ok b clone_server name st sb port ip maxc maxl =
     (if \<not> malloc_ok then Inr (- 1, b)
      else if (word_of_int port :: 16 word) = 0 then Inr (- 2, b)
      else
        (let s = new_server name st sb port ip maxc maxl in
         if clone_server = SERVER_CLONE_FALSE then
           res_bind (place_server s (members b) (nmembers b))
             (\<lambda>(ms, n). Inr (0, b\<lparr>members := ms, nmembers := n\<rparr>))
         else
           res_bind (place_server s (clones b) (nclones b))
             (\<lambda>(cs, n). Inr (0, b\<lparr>clones := cs, nclones := n\<rparr>))))"

section \<open>Well-formed server tables\<close>

text \<open>
  A table of \<open>n\<close> servers: the array has its declared size, every slot in use carries its own position
  as \<open>id\<close>, a free slot is zeroed, and the slots from \<open>n\<close> on are free.
\<close>

definition table_ok :: "SERVER list \<Rightarrow> nat \<Rightarrow> bool" where
  "table_ok srvs n \<longleftrightarrow>
     length srvs = MAXSERVERS \<and> n \<le> MAXSERVERS \<and>
     (\<forall>i<n. srv_status (srvs ! i) \<noteq> SERVER_STATE_FREE \<longrightarrow> srv_id (srvs ! i) = i) \<and>
     (\<forall>i<MAXSERVERS. srv_status (srvs ! i) = SERVER_STATE_FREE \<longrightarrow> srvs ! i = zero_server) \<and>
     (\<forall>i<MAXSERVERS. n \<le> i \<longrightarrow> srv_status (srvs ! i) = SERVER_STATE_FREE)"

text \<open>
  The hash table: every entry is free or names a member slot in use, and \<open>hash_table_usage\<close> of each
  member slot is the number of entries that name it.
\<close>

definition hash_ok :: "BALANCER \<Rightarrow> bool" where
  "hash_ok b \<longleftrightarrow>
     length (hash_table b) = HASHTABLESIZE \<and>
     (\<forall>v \<in> set (hash_table b). v = HASH_VAL_FREE \<or> (0 \<le> v \<and> v < int (nmembers b))) \<and>
     (\<forall>i<MAXSERVERS. unat (srv_hash_table_usage (members b ! i)) = count_list (hash_table b) (int i))"

definition balancer_ok :: "BALANCER \<Rightarrow> bool" where
  "balancer_ok b \<longleftrightarrow>
     table_ok (members b) (nmembers b) \<and> table_ok (clones b) (nclones b) \<and> hash_ok b"

lemma upd_server_simps [simp, upd_simps]:
  "length (upd_server i f srvs) = length srvs"
  "i < length srvs \<Longrightarrow> upd_server i f srvs ! j = (if j = i then f (srvs ! i) else srvs ! j)"
  by (auto simp: upd_server_def nth_list_update)

lemma zero_server_simps [simp]:
  "srv_status zero_server = SERVER_STATE_FREE" "srv_hash_table_usage zero_server = 0"
  "srv_c zero_server = 0" "srv_id zero_server = 0" "srv_e_load zero_server = 0"
  "srv_load zero_server = Fin 0" "srv_maxl zero_server = Fin 0"
  by (simp_all add: zero_server_def)

lemma table_okD:
  assumes "table_ok srvs n"
  shows "length srvs = MAXSERVERS" "n \<le> MAXSERVERS"
    "\<And>i. i < n \<Longrightarrow> srv_status (srvs ! i) \<noteq> SERVER_STATE_FREE \<Longrightarrow> srv_id (srvs ! i) = i"
    "\<And>i. i < MAXSERVERS \<Longrightarrow> srv_status (srvs ! i) = SERVER_STATE_FREE \<Longrightarrow> srvs ! i = zero_server"
    "\<And>i. i < MAXSERVERS \<Longrightarrow> n \<le> i \<Longrightarrow> srv_status (srvs ! i) = SERVER_STATE_FREE"
  using assms unfolding table_ok_def by auto

text \<open>A slot in use lies below the count and carries its position.\<close>

lemma table_ok_used:
  assumes "table_ok srvs n" and "i < MAXSERVERS" and "srv_status (srvs ! i) \<noteq> SERVER_STATE_FREE"
  shows "i < n" and "srv_id (srvs ! i) = i"
  using table_okD [OF assms(1)] assms(2,3) by (meson not_le, meson not_le)

text \<open>Changing the other fields of a slot in use keeps the table well formed.\<close>

lemma table_ok_upd_server:
  assumes "table_ok srvs n" and "i < MAXSERVERS" and "srv_status (srvs ! i) \<noteq> SERVER_STATE_FREE"
    and "srv_status (f (srvs ! i)) \<noteq> SERVER_STATE_FREE" and "srv_id (f (srvs ! i)) = srv_id (srvs ! i)"
  shows "table_ok (upd_server i f srvs) n"
  using assms table_ok_used [OF assms(1-3)] unfolding table_ok_def
  by (auto simp: upd_server_simps split: if_splits)

lemma find_upt_Some:
  "find P [0..<n] = Some i \<Longrightarrow> i < n \<and> P i"
  by (auto simp: find_Some_iff)

lemma place_server_ok:
  assumes ok: "table_ok srvs n" and s: "srv_status s \<noteq> SERVER_STATE_FREE"
    and res: "place_server s srvs n = Inr (srvs', n')"
  shows "table_ok srvs' n'"
proof (cases "find (\<lambda>i. srv_status (srvs ! i) = SERVER_STATE_FREE) [0..<n]")
  case (Some i)
  then have i: "i < n" using find_upt_Some by blast
  have "srvs' = srvs[i := s\<lparr>srv_id := i\<rparr>]" "n' = n" using res Some by (auto simp: place_server_def)
  then show ?thesis using i s table_okD [OF ok] unfolding table_ok_def
    by (auto simp: nth_list_update)
next
  case None
  then have "n < MAXSERVERS" "srvs' = srvs[n := s\<lparr>srv_id := n\<rparr>]" "n' = n + 1"
    using res table_okD [OF ok] by (auto simp: place_server_def split: if_splits)
  then show ?thesis using s table_okD [OF ok] unfolding table_ok_def
    by (auto simp: nth_list_update less_Suc_eq)
qed

text \<open>Where \<open>place_server\<close> puts the new server: a slot that was free, hence zeroed.\<close>

lemma place_server_slot:
  assumes ok: "table_ok srvs n" and res: "place_server s srvs n = Inr (srvs', n')"
  obtains i where "i < n'" and "i < MAXSERVERS" and "n \<le> n'" and "srvs ! i = zero_server"
    and "srvs' = srvs[i := s\<lparr>srv_id := i\<rparr>]"
proof (cases "find (\<lambda>i. srv_status (srvs ! i) = SERVER_STATE_FREE) [0..<n]")
  case (Some i)
  then have i: "i < n" "srv_status (srvs ! i) = SERVER_STATE_FREE" using find_upt_Some by blast+
  then have "i < MAXSERVERS" "srvs ! i = zero_server" using table_okD [OF ok] by auto
  then show ?thesis using that [of i] i res Some by (auto simp: place_server_def)
next
  case None
  then have n: "n < MAXSERVERS" "srvs' = srvs[n := s\<lparr>srv_id := n\<rparr>]" "n' = n + 1"
    using res table_okD [OF ok] by (auto simp: place_server_def split: if_splits)
  then have "srvs ! n = zero_server" using table_okD [OF ok] by auto
  then show ?thesis using that [of n] n by auto
qed

lemma new_server_simps [simp]:
  "srv_status (new_server nm st sb port ip maxc maxl) = st"
  "srv_hash_table_usage (new_server nm st sb port ip maxc maxl) = 0"
  "srv_c (new_server nm st sb port ip maxc maxl) = 0"
  by (simp_all add: new_server_def)

lemma hash_ok_members_cong:
  assumes "hash_ok b" and "nmembers b \<le> nmembers b'" and "hash_table b' = hash_table b"
    and "\<And>i. i < MAXSERVERS \<Longrightarrow>
      srv_hash_table_usage (members b' ! i) = srv_hash_table_usage (members b ! i)"
  shows "hash_ok b'"
  using assms unfolding hash_ok_def by fastforce

lemma create_balancer_server_ok:
  assumes ok: "balancer_ok b" and st: "st \<noteq> SERVER_STATE_FREE"
    and res: "create_balancer_server m b cl nm st sb port ip maxc maxl = Inr (r, b')"
  shows "balancer_ok b'"
proof (cases "m \<and> (word_of_int port :: 16 word) \<noteq> 0")
  case False
  then show ?thesis using assms by (auto simp: create_balancer_server_def split: if_splits)
next
  case placed: True
  let ?s = "new_server nm st sb port ip maxc maxl"
  have tm: "table_ok (members b) (nmembers b)" and tc: "table_ok (clones b) (nclones b)"
    and h: "hash_ok b" using ok by (auto simp: balancer_ok_def)
  show ?thesis
  proof (cases cl)
    case SERVER_CLONE_FALSE
    then obtain ms n where p: "place_server ?s (members b) (nmembers b) = Inr (ms, n)"
      and b': "b' = b\<lparr>members := ms, nmembers := n\<rparr>"
      using res placed by (auto simp: create_balancer_server_def Let_def res_bind_eq_Inr)
    obtain i where i: "i < MAXSERVERS" "nmembers b \<le> n" "members b ! i = zero_server"
      "ms = (members b)[i := ?s\<lparr>srv_id := i\<rparr>]"
      using place_server_slot [OF tm p] by metis
    have "hash_ok b'"
      by (rule hash_ok_members_cong [OF h]) (use i b' table_okD(1) [OF tm] in \<open>auto simp: nth_list_update\<close>)
    then show ?thesis using place_server_ok [OF tm _ p] st tc b' by (simp add: balancer_ok_def)
  next
    case SERVER_CLONE_TRUE
    then obtain cs n where p: "place_server ?s (clones b) (nclones b) = Inr (cs, n)"
      and b': "b' = b\<lparr>clones := cs, nclones := n\<rparr>"
      using res placed by (auto simp: create_balancer_server_def Let_def res_bind_eq_Inr)
    have "hash_ok b'" by (rule hash_ok_members_cong [OF h]) (simp_all add: b')
    then show ?thesis using place_server_ok [OF tc _ p] st tm b' by (simp add: balancer_ok_def)
  qed
qed

section \<open>Properties\<close>

lemma length_filter_all: "length (filter P xs) = length xs \<longleftrightarrow> (\<forall>x\<in>set xs. P x)"
  by (metis filter_True length_filter_less less_irrefl)


lemma set_cloned_state_frame [simp, upd_simps]:
  "members (set_cloned_state b) = members b" "nmembers (set_cloned_state b) = nmembers b"
  "clones (set_cloned_state b) = clones b" "nclones (set_cloned_state b) = nclones b"
  "hash_table (set_cloned_state b) = hash_table b"
  "algorithm (set_cloned_state b) = algorithm b" "overload_mode (set_cloned_state b) = overload_mode b"
  by (simp_all add: set_cloned_state_def Let_def split: option.splits)

lemma balancer_ok_cong:
  assumes "balancer_ok b" and "members b' = members b" and "nmembers b' = nmembers b"
    and "clones b' = clones b" and "nclones b' = nclones b" and "hash_table b' = hash_table b"
  shows "balancer_ok b'"
  using assms by (simp add: balancer_ok_def hash_ok_def)

text \<open>
  Creating a member (admin \<open>create\<close> command, configuration file): when the port is usable and the
  table has room, the server goes into a slot that held no server, with its position as id, the
  given attributes and zeroed counters; every other slot keeps its contents.
\<close>

theorem create_member_success:
  assumes ok: "balancer_ok b" and port: "(word_of_int port :: 16 word) \<noteq> 0"
    and room: "\<exists>i<MAXSERVERS. srv_status (members b ! i) = SERVER_STATE_FREE"
  shows "\<exists>i b'. create_balancer_server True b SERVER_CLONE_FALSE nm st sb port ip maxc maxl = Inr (0, b')
       \<and> i < nmembers b' \<and> members b ! i = zero_server
       \<and> members b' = (members b)[i := (new_server nm st sb port ip maxc maxl)\<lparr>srv_id := i\<rparr>]
       \<and> clones b' = clones b \<and> nclones b' = nclones b \<and> hash_table b' = hash_table b"
proof -
  let ?s = "new_server nm st sb port ip maxc maxl"
  have tm: "table_ok (members b) (nmembers b)" using ok by (simp add: balancer_ok_def)
  have "\<exists>ms n. place_server ?s (members b) (nmembers b) = Inr (ms, n)"
  proof (cases "find (\<lambda>i. srv_status (members b ! i) = SERVER_STATE_FREE) [0..<nmembers b]")
    case None
    obtain i where i: "i < MAXSERVERS" "srv_status (members b ! i) = SERVER_STATE_FREE"
      using room by blast
    with None have "\<not> i < nmembers b" by (auto simp: find_None_iff)
    with i have "nmembers b < MAXSERVERS" by simp
    then show ?thesis using None table_okD(1) [OF tm] by (simp add: place_server_def)
  qed (simp add: place_server_def)
  then obtain ms n where p: "place_server ?s (members b) (nmembers b) = Inr (ms, n)" by blast
  obtain i where i: "i < n" "members b ! i = zero_server" "ms = (members b)[i := ?s\<lparr>srv_id := i\<rparr>]"
    using place_server_slot [OF tm p] by metis
  have "create_balancer_server True b SERVER_CLONE_FALSE nm st sb port ip maxc maxl
      = Inr (0, b\<lparr>members := ms, nmembers := n\<rparr>)"
    using port p by (simp add: create_balancer_server_def Let_def)
  then show ?thesis using i by auto
qed

text \<open>
  C37. Creating a server does not check for a full table: with all 512 member slots in use the code
  writes one \<open>SERVER\<close> past the end of \<open>members\<close>.
\<close>

theorem create_member_table_full:
  assumes ok: "balancer_ok b" and port: "(word_of_int port :: 16 word) \<noteq> 0"
    and full: "\<forall>i<MAXSERVERS. srv_status (members b ! i) \<noteq> SERVER_STATE_FREE"
  shows "create_balancer_server True b SERVER_CLONE_FALSE nm st sb port ip maxc maxl = Inl Out_of_bounds"
proof -
  have tm: "table_ok (members b) (nmembers b)" using ok by (simp add: balancer_ok_def)
  have n: "nmembers b = MAXSERVERS" using table_okD(2,5) [OF tm] full by (metis le_neq_implies_less le_refl)
  have "find (\<lambda>i. srv_status (members b ! i) = SERVER_STATE_FREE) [0..<nmembers b] = None"
    using full n by (auto simp: find_None_iff)
  then show ?thesis
    using port n table_okD(1) [OF tm] by (simp add: create_balancer_server_def place_server_def Let_def)
qed

section \<open>Example states for the witnesses\<close>

text \<open>An empty balancer as \<open>initialize_balancer\<close> leaves it, and a server in the given state.\<close>

definition empty_table :: "SERVER list" where
  "empty_table = replicate MAXSERVERS zero_server"

lemma empty_table_simps [simp]:
  "length empty_table = MAXSERVERS" "i < MAXSERVERS \<Longrightarrow> empty_table ! i = zero_server"
  by (simp_all add: empty_table_def)

lemma table_ok_empty [simp]: "table_ok empty_table 0"
  by (simp add: table_ok_def)

definition sample_balancer :: BALANCER where
  "sample_balancer = \<lparr>hash_table = replicate HASHTABLESIZE HASH_VAL_FREE, nmembers = 0, nclones = 0,
     monitor_interval = 5, alive = 1, algorithm = ALGORITHM_LC, clone_mode = CLONE_MODE_OFF,
     overload_mode = OVERLOAD_MODE_RELAXED, members = empty_table, clones = empty_table,
     snmp_community_pw = None, snmp_status = SNMP_DISABLED, binding_port = 1080, binding_ip = 0,
     member_outbound_ip = 0, clone_outbound_ip = 0, connect_timeout = 5, monitor_pid = 0,
     master_pid = 0, shmid = - 1, foreground = FOREGROUND_OFF, log_file_open = False,
     log_file_path = None, session_weight = Fin (1 / 10), hash_rebalance_threshold = 30,
     hash_rebalance_size = 5, hash_rebalance_interval = 30, use_member_outbound_ip = 0,
     use_clone_outbound_ip = 0, shm_run_dir = None, shm_run_file = None, shm_run_file_fullname = [],
     default_maxc = 500,
     default_maxl = Fin 4, version = ''1.14'', fd_limit = 0, session_limit = 0, use_syslog = 0,
     shm_perms = 420, overall_load = - 1, connection_rejected_log_suppress = False, debug_level = 0\<rparr>"

lemma sample_balancer_ok: "balancer_ok sample_balancer"
proof -
  have "hash_ok sample_balancer"
    by (simp add: sample_balancer_def hash_ok_def count_list_replicate)
  then show ?thesis by (simp add: balancer_ok_def sample_balancer_def)
qed

theorem create_member_success_witness:
  "\<exists>i b'. create_balancer_server True sample_balancer SERVER_CLONE_FALSE ''web'' SERVER_STATE_ENABLED
       STANDBY_STATE_FALSE 80 0 500 (Fin 4) = Inr (0, b') \<and> i < nmembers b'
     \<and> members sample_balancer ! i = zero_server
     \<and> members b' = (members sample_balancer)[i := (new_server ''web'' SERVER_STATE_ENABLED
         STANDBY_STATE_FALSE 80 0 500 (Fin 4))\<lparr>srv_id := i\<rparr>]
     \<and> clones b' = clones sample_balancer \<and> nclones b' = nclones sample_balancer
     \<and> hash_table b' = hash_table sample_balancer"
proof (rule create_member_success [OF sample_balancer_ok])
  show "(word_of_int 80 :: 16 word) \<noteq> 0" by simp
  show "\<exists>i<MAXSERVERS. srv_status (members sample_balancer ! i) = SERVER_STATE_FREE"
    by (rule exI [of _ 0]) (simp add: sample_balancer_def)
qed

text \<open>A balancer whose 512 member slots are all in use.\<close>

definition full_balancer :: BALANCER where
  "full_balancer = sample_balancer\<lparr>nmembers := MAXSERVERS, members :=
     map (\<lambda>i. zero_server\<lparr>srv_id := i, srv_status := SERVER_STATE_ENABLED\<rparr>) [0..<MAXSERVERS]\<rparr>"

lemma full_balancer_nth:
  "i < MAXSERVERS \<Longrightarrow>
     members full_balancer ! i = zero_server\<lparr>srv_id := i, srv_status := SERVER_STATE_ENABLED\<rparr>"
  by (simp add: full_balancer_def del: upt_conv_Cons)

lemma full_balancer_ok: "balancer_ok full_balancer"
proof -
  have n: "nmembers full_balancer = MAXSERVERS" and l: "length (members full_balancer) = MAXSERVERS"
    and h: "hash_table full_balancer = replicate HASHTABLESIZE HASH_VAL_FREE"
    and c: "clones full_balancer = empty_table" "nclones full_balancer = 0"
    by (simp_all add: full_balancer_def sample_balancer_def)
  show ?thesis
    by (simp add: balancer_ok_def table_ok_def hash_ok_def full_balancer_nth n l h c count_list_replicate)
qed

theorem create_member_table_full_witness:
  "create_balancer_server True full_balancer SERVER_CLONE_FALSE ''web'' SERVER_STATE_ENABLED
     STANDBY_STATE_FALSE 80 0 500 (Fin 4) = Inl Out_of_bounds"
  by (rule create_member_table_full [OF full_balancer_ok]) (simp_all add: full_balancer_nth)

end
