(* ===== verification/Algorithms.thy ===== *)
theory Algorithms
  imports Balancer "HOL-Library.Multiset"
begin

text \<open>
  Server selection, algorithms.c: which members and clones are available, and the five balancing
  algorithms (round robin, least connections, least load, URI hash, static URI hash) that set
  \<open>next_member\<close> and \<open>next_clone\<close>. The globals of octopus.h that these functions share are the record
  \<open>SEL\<close>; the arrays \<open>available_members\<close> / \<open>available_clones\<close> with their counters are lists.
\<close>

type_synonym byte = "8 word"

record SEL =
  balancer :: BALANCER
  next_member :: nat
  next_clone :: nat
  available_members :: "nat list"
  available_clones :: "nat list"
  use_clone :: bool
  using_member_standby :: bool
  using_clone_standby :: bool

section \<open>Available servers\<close>

text \<open>
  One pass of the scan loop of \<open>get_available_servers\<close> over the positions \<open>is\<close>; \<open>relaxed\<close> is the second
  pass, which accepts standby servers too.
\<close>

fun scan_available :: "overload_mode_t \<Rightarrow> bool \<Rightarrow> SERVER list \<Rightarrow> nat list \<Rightarrow> nat list" where
  "scan_available ov relaxed srvs [] = []"
| "scan_available ov relaxed srvs (i # is) =
     (let s = srvs ! i in
      if srv_c s \<ge> srv_maxc s \<or> srv_status s \<noteq> SERVER_STATE_ENABLED
         \<or> (\<not> relaxed \<and> srv_standby_state s = STANDBY_STATE_TRUE)
      then scan_available ov relaxed srvs is
      else if ov = OVERLOAD_MODE_STRICT \<and> srv_e_load s > 100
      then scan_available ov relaxed srvs is
      else i # scan_available ov relaxed srvs is)"

text \<open>Both passes: standby servers are considered only when the first pass found nothing.\<close>

definition scan_twice :: "overload_mode_t \<Rightarrow> SERVER list \<Rightarrow> nat \<Rightarrow> nat list" where
  "scan_twice ov srvs n =
     (let first = scan_available ov False srvs [0..<n]
      in if first = [] then scan_available ov True srvs [0..<n] else first)"

definition verify_server :: "overload_mode_t \<Rightarrow> SERVER \<Rightarrow> int" where
  "verify_server ov s =
     (if ov = OVERLOAD_MODE_STRICT \<and>
         (srv_status s \<noteq> SERVER_STATE_ENABLED \<or> srv_e_load s > 100 \<or> srv_c s \<ge> srv_maxc s) then - 1
      else if srv_status s \<noteq> SERVER_STATE_ENABLED \<or> srv_c s \<ge> srv_maxc s then - 1
      else if srv_standby_state s = STANDBY_STATE_TRUE then 1
      else 0)"

text \<open>
  The clone half of \<open>get_available_servers\<close>. When the current clone is a standby and members are not,
  the code assigns \<open>next_member\<close>, not \<open>next_clone\<close>, and it tests the member flag.
\<close>

definition get_available_clones :: "'a SEL_scheme \<Rightarrow> 'a SEL_scheme" where
  "get_available_clones g =
     (let b = balancer g; ov = overload_mode b;
          ac1 = scan_available ov False (clones b) [0..<nclones b];
          ac = scan_twice ov (clones b) (nclones b);
          g = g\<lparr>available_clones := ac, using_clone_standby := (ac1 = [] \<and> ac \<noteq> [])\<rparr>
      in if ac \<noteq> [] then
           (let g = g\<lparr>use_clone := True\<rparr>;
                status = verify_server ov (clones b ! next_clone g);
                g = (if status = - 1 then g\<lparr>next_clone := ac ! 0\<rparr> else g)
            in if status = 1 \<and> \<not> using_member_standby g
               then g\<lparr>next_member := available_members g ! 0\<rparr> else g)
         else g)"

definition get_available_servers :: "'a SEL_scheme \<Rightarrow> int \<times> 'a SEL_scheme" where
  "get_available_servers g =
     (let b = balancer g; ov = overload_mode b;
          g = g\<lparr>using_member_standby := False, using_clone_standby := False,
                available_members := [], available_clones := [], use_clone := False\<rparr>;
          am1 = scan_available ov False (members b) [0..<nmembers b];
          am = scan_twice ov (members b) (nmembers b)
      in if am = [] then (- 1, g)
         else
           (let g = g\<lparr>available_members := am, using_member_standby := (am1 = [])\<rparr>;
                status = verify_server ov (members b ! next_member g);
                g = (if status = - 1 then g\<lparr>next_member := am ! 0\<rparr> else g);
                g = (if status = 1 \<and> \<not> using_member_standby g then g\<lparr>next_member := am ! 0\<rparr> else g)
            in (0, if clone_mode b = CLONE_MODE_ON then get_available_clones g else g)))"

section \<open>Round robin, least connections, least load\<close>

text \<open>The search loop of \<open>set_rr_server\<close>: \<open>i\<close> counts up while the remaining list shrinks.\<close>

fun rr_loop :: "SERVER list \<Rightarrow> nat list \<Rightarrow> nat \<Rightarrow> nat \<Rightarrow> nat list \<Rightarrow> nat" where
  "rr_loop srvs avail nxt i [] = nxt"
| "rr_loop srvs avail nxt i (a # rest) =
     (if a = nxt then srv_id (srvs ! (avail ! ((i + 1) mod length avail)))
      else rr_loop srvs avail nxt (i + 1) rest)"

definition set_rr_server :: "'a SEL_scheme \<Rightarrow> 'a SEL_scheme" where
  "set_rr_server g =
     (let b = balancer g;
          g = g\<lparr>next_member := rr_loop (members b) (available_members g) (next_member g) 0 (available_members g)\<rparr>
      in if use_clone g
         then g\<lparr>next_clone := rr_loop (clones b) (available_clones g) (next_clone g) 0 (available_clones g)\<rparr>
         else g)"

text \<open>The comparison loop shared by \<open>set_lc_server\<close> and \<open>set_ll_server\<close>.\<close>

fun scan_min :: "(SERVER \<Rightarrow> SERVER \<Rightarrow> bool) \<Rightarrow> SERVER list \<Rightarrow> nat \<Rightarrow> nat list \<Rightarrow> nat" where
  "scan_min lt srvs nxt [] = nxt"
| "scan_min lt srvs nxt (a # rest) =
     scan_min lt srvs (if lt (srvs ! a) (srvs ! nxt) then srv_id (srvs ! a) else nxt) rest"

definition lc_less :: "SERVER \<Rightarrow> SERVER \<Rightarrow> bool" where
  "lc_less s t \<longleftrightarrow> srv_c s < srv_c t"

definition ll_weight :: "c_float \<Rightarrow> SERVER \<Rightarrow> c_float" where
  "ll_weight w s = f_add (srv_load s) (f_mul (f_of_int (srv_c s)) w)"

definition ll_less :: "c_float \<Rightarrow> SERVER \<Rightarrow> SERVER \<Rightarrow> bool" where
  "ll_less w s t \<longleftrightarrow> f_lt (ll_weight w s) (ll_weight w t)"

definition set_lc_server :: "'a SEL_scheme \<Rightarrow> 'a SEL_scheme" where
  "set_lc_server g =
     (let g = set_rr_server g; b = balancer g;
          g = g\<lparr>next_member := scan_min lc_less (members b) (next_member g) (available_members g)\<rparr>
      in if use_clone g
         then g\<lparr>next_clone := scan_min lc_less (clones b) (next_clone g) (available_clones g)\<rparr>
         else g)"

definition set_ll_server :: "'a SEL_scheme \<Rightarrow> 'a SEL_scheme" where
  "set_ll_server g =
     (let b = balancer g; w = session_weight b;
          g = g\<lparr>next_member := scan_min (ll_less w) (members b) (next_member g) (available_members g)\<rparr>
      in if use_clone g
         then g\<lparr>next_clone := scan_min (ll_less w) (clones b) (next_clone g) (available_clones g)\<rparr>
         else g)"

section \<open>The request URI and its hash\<close>

text \<open>
  \<open>request_line\<close> after \<open>memset\<close> and \<open>memccpy(.., '\n', URI_LINE_LEN)\<close>: the client buffer up to and
  including the first newline, zero padded to 200 bytes, or its first 200 bytes. In the second
  case there may be no terminating NUL, and a scan that runs off the array is a fault.
\<close>

abbreviation URI_LINE_LEN :: nat where "URI_LINE_LEN \<equiv> 200"

definition request_line :: "byte list \<Rightarrow> byte list" where
  "request_line buf =
     (let p = takeWhile (\<lambda>b. b \<noteq> 10) (take URI_LINE_LEN buf)
      in if length p < URI_LINE_LEN then p @ [10] @ replicate (URI_LINE_LEN - 1 - length p) 0 else p)"

text \<open>\<open>strchr\<close> on the array: the string from the first \<open>ch\<close> on, or NULL.\<close>

definition strchr_buf :: "byte \<Rightarrow> byte list \<Rightarrow> byte list option res" where
  "strchr_buf ch line =
     (let s = takeWhile (\<lambda>b. b \<noteq> 0) line
      in if ch \<in> set s then Inr (Some (dropWhile (\<lambda>b. b \<noteq> ch) s))
         else if 0 \<in> set line then Inr None
         else Inl Out_of_bounds)"

text \<open>
  The first \<open>strtok\<close> token of a string with one delimiter; \<open>nul\<close> says that the string ends with a
  NUL inside its array.
\<close>

definition strtok_buf :: "bool \<Rightarrow> byte \<Rightarrow> byte list \<Rightarrow> byte list option res" where
  "strtok_buf nul d s =
     (let t = dropWhile (\<lambda>b. b = d) s; u = takeWhile (\<lambda>b. b \<noteq> d) t
      in if t = [] then (if nul then Inr None else Inl Out_of_bounds)
         else if length u < length t \<or> nul then Inr (Some u)
         else Inl Out_of_bounds)"

definition request_uri :: "byte list \<Rightarrow> byte list option res" where
  "request_uri buf =
     (let line = request_line buf in
      res_bind (strchr_buf 32 line)
        (\<lambda>uri_start. case uri_start of None \<Rightarrow> Inr None
                     | Some us \<Rightarrow> strtok_buf (0 \<in> set line) 32 us))"

text \<open>The URI without its query string; \<open>strlen\<close> of a NULL token is a fault.\<close>

definition uri_key :: "byte list \<Rightarrow> byte list res" where
  "uri_key uri =
     (if 63 \<in> set uri then res_bind (strtok_buf True 63 uri) deref else Inr uri)"

fun djb_loop :: "32 word \<Rightarrow> byte list \<Rightarrow> 32 word" where
  "djb_loop hash [] = hash"
| "djb_loop hash (ch # str) = djb_loop ((push_bit 5 hash + hash) + scast ch) str"

definition DJBHash :: "byte list \<Rightarrow> 16 word" where
  "DJBHash str = ucast (djb_loop 5381 str)"

definition uri_hash :: "byte list \<Rightarrow> nat" where
  "uri_hash key = unat (DJBHash key) mod (HASHTABLESIZE - 1)"

section \<open>URI algorithms\<close>

definition pick_clone_by_hash :: "nat \<Rightarrow> 'a SEL_scheme \<Rightarrow> 'a SEL_scheme res" where
  "pick_clone_by_hash hash g =
     (if use_clone g then
        (if available_clones g = [] then Inl Div_by_zero
         else Inr (g\<lparr>next_clone := available_clones g ! (hash mod length (available_clones g))\<rparr>))
      else Inr g)"

definition set_static_server :: "byte list \<Rightarrow> 'a SEL_scheme \<Rightarrow> 'a SEL_scheme res" where
  "set_static_server client_read_buffer g =
     res_bind (request_uri client_read_buffer) (\<lambda>u.
       case u of None \<Rightarrow> Inr (set_lc_server g)
       | Some uri \<Rightarrow>
           res_bind (uri_key uri) (\<lambda>key.
             let hash = uri_hash key in
             if available_members g = [] then Inl Div_by_zero
             else pick_clone_by_hash hash
               (g\<lparr>next_member := available_members g ! (hash mod length (available_members g))\<rparr>)))"

text \<open>The two accounting updates around a (re)assignment of a hash value.\<close>

definition usage_inc :: "SERVER \<Rightarrow> SERVER" where
  "usage_inc s = s\<lparr>srv_hash_table_usage := srv_hash_table_usage s + 1\<rparr>"

definition usage_dec :: "SERVER \<Rightarrow> SERVER" where
  "usage_dec s = s\<lparr>srv_hash_table_usage := srv_hash_table_usage s - 1\<rparr>"

definition set_table :: "nat \<Rightarrow> nat \<Rightarrow> BALANCER \<Rightarrow> BALANCER" where
  "set_table hash m b = b\<lparr>hash_table := (hash_table b)[hash := int m]\<rparr>"

definition set_hash_server :: "byte list \<Rightarrow> 'a SEL_scheme \<Rightarrow> 'a SEL_scheme res" where
  "set_hash_server client_read_buffer g =
     res_bind (request_uri client_read_buffer) (\<lambda>u.
       case u of None \<Rightarrow> Inr (set_lc_server g)
       | Some uri \<Rightarrow>
           res_bind (uri_key uri) (\<lambda>key.
             let hash = uri_hash key; b = balancer g; v = hash_table b ! hash in
             if v \<noteq> HASH_VAL_FREE then
               (let candidate = nat v;
                    status = verify_server (overload_mode b) (members b ! candidate) in
                if status = 0 \<or> (status = 1 \<and> using_member_standby g) then
                  pick_clone_by_hash hash (g\<lparr>next_member := srv_id (members b ! candidate)\<rparr>)
                else
                  (let g = set_lc_server g;
                       b = upd_member candidate usage_dec (balancer g);
                       b = upd_member (next_member g) usage_inc b
                   in Inr (g\<lparr>balancer := set_table hash (next_member g) b\<rparr>)))
             else
               (let g = set_lc_server g;
                    b = upd_member (next_member g) usage_inc (balancer g)
                in Inr (g\<lparr>balancer := set_table hash (next_member g) b\<rparr>))))"

text \<open>The dispatch of \<open>choose_server\<close> on the configured algorithm.\<close>

definition run_algorithm :: "byte list \<Rightarrow> 'a SEL_scheme \<Rightarrow> 'a SEL_scheme res" where
  "run_algorithm client_read_buffer g =
     (case algorithm (balancer g) of
        ALGORITHM_RR \<Rightarrow> Inr (set_rr_server g)
      | ALGORITHM_LL \<Rightarrow> Inr (set_ll_server g)
      | ALGORITHM_LC \<Rightarrow> Inr (set_lc_server g)
      | ALGORITHM_HASH \<Rightarrow> set_hash_server client_read_buffer g
      | ALGORITHM_STATIC \<Rightarrow> set_static_server client_read_buffer g)"

section \<open>What an available server is\<close>

text \<open>
  The abstract rule the scans implement: a server can take a connection when it is enabled, below its
  connection limit and, in strict overload mode, not above 100 per cent; standby servers are
  eligible only when no other server can take one.
\<close>

definition servable :: "overload_mode_t \<Rightarrow> SERVER \<Rightarrow> bool" where
  "servable ov s \<longleftrightarrow> srv_status s = SERVER_STATE_ENABLED \<and> srv_c s < srv_maxc s
     \<and> (ov = OVERLOAD_MODE_STRICT \<longrightarrow> srv_e_load s \<le> 100)"

definition eligible :: "overload_mode_t \<Rightarrow> SERVER list \<Rightarrow> nat \<Rightarrow> nat set" where
  "eligible ov srvs n =
     (let normal = {i. i < n \<and> servable ov (srvs ! i) \<and> srv_standby_state (srvs ! i) \<noteq> STANDBY_STATE_TRUE}
      in if normal \<noteq> {} then normal else {i. i < n \<and> servable ov (srvs ! i)})"

text \<open>The state after a successful scan, on which the algorithms start.\<close>

definition sel_ready :: "'a SEL_scheme \<Rightarrow> bool" where
  "sel_ready g \<longleftrightarrow>
     table_ok (members (balancer g)) (nmembers (balancer g)) \<and>
     table_ok (clones (balancer g)) (nclones (balancer g)) \<and>
     distinct (available_members g) \<and>
     set (available_members g)
       = eligible (overload_mode (balancer g)) (members (balancer g)) (nmembers (balancer g)) \<and>
     next_member g \<in> set (available_members g) \<and>
     (using_member_standby g \<longleftrightarrow>
        (\<forall>i<nmembers (balancer g). servable (overload_mode (balancer g)) (members (balancer g) ! i)
           \<longrightarrow> srv_standby_state (members (balancer g) ! i) = STANDBY_STATE_TRUE)) \<and>
     (use_clone g \<longrightarrow>
        distinct (available_clones g) \<and>
        set (available_clones g)
          = eligible (overload_mode (balancer g)) (clones (balancer g)) (nclones (balancer g)) \<and>
        next_clone g < nclones (balancer g) \<and>
        servable (overload_mode (balancer g)) (clones (balancer g) ! next_clone g))"

lemma scan_available_filter:
  "scan_available ov relaxed srvs is =
     filter (\<lambda>i. servable ov (srvs ! i) \<and> (relaxed \<or> srv_standby_state (srvs ! i) \<noteq> STANDBY_STATE_TRUE)) is"
  by (induction "is") (auto simp: servable_def Let_def)

lemma verify_server_iff:
  "verify_server ov s = - 1 \<longleftrightarrow> \<not> servable ov s"
  "verify_server ov s = 1 \<longleftrightarrow> servable ov s \<and> srv_standby_state s = STANDBY_STATE_TRUE"
  "verify_server ov s = 0 \<longleftrightarrow> servable ov s \<and> srv_standby_state s \<noteq> STANDBY_STATE_TRUE"
  by (auto simp: verify_server_def servable_def)

lemma servable_used: "servable ov s \<Longrightarrow> srv_status s \<noteq> SERVER_STATE_FREE"
  by (simp add: servable_def)

lemma eligibleD: "i \<in> eligible ov srvs n \<Longrightarrow> i < n \<and> servable ov (srvs ! i)"
  by (auto simp: eligible_def Let_def split: if_splits)

lemma scan_twice_eligible: "set (scan_twice ov srvs n) = eligible ov srvs n"
  by (auto simp: scan_twice_def scan_available_filter eligible_def Let_def filter_empty_conv)

lemma scan_twice_distinct: "distinct (scan_twice ov srvs n)"
  by (simp add: scan_twice_def scan_available_filter Let_def)

lemma scan_twice_hd:
  "scan_twice ov srvs n \<noteq> [] \<Longrightarrow> scan_twice ov srvs n ! 0 \<in> eligible ov srvs n"
  by (metis length_greater_0_conv nth_mem scan_twice_eligible)

lemma scan_first_empty:
  "scan_available ov False srvs [0..<n] = [] \<longleftrightarrow>
     (\<forall>i<n. servable ov (srvs ! i) \<longrightarrow> srv_standby_state (srvs ! i) = STANDBY_STATE_TRUE)"
  by (auto simp: scan_available_filter filter_empty_conv)

lemma eligible_id:
  assumes "table_ok srvs n" and "i \<in> eligible ov srvs n"
  shows "srv_id (srvs ! i) = i" and "i < n" and "i < MAXSERVERS"
proof -
  have e: "i < n" "servable ov (srvs ! i)" using eligibleD [OF assms(2)] by auto
  show "srv_id (srvs ! i) = i" using table_okD(3) [OF assms(1) e(1) servable_used [OF e(2)]] .
  show "i < n" "i < MAXSERVERS" using e table_okD(2) [OF assms(1)] by auto
qed

text \<open>
  The current server is kept only when the scan found it too: it is servable, and not a standby while
  others are available. A position outside the table is a free slot, which is not servable.
\<close>

lemma current_eligible:
  assumes ok: "table_ok srvs n" and i: "i < MAXSERVERS" and v: "servable ov (srvs ! i)"
    and sb: "srv_standby_state (srvs ! i) = STANDBY_STATE_TRUE \<Longrightarrow> scan_available ov False srvs [0..<n] = []"
  shows "i \<in> eligible ov srvs n"
proof -
  have n: "i < n" using table_ok_used(1) [OF ok i servable_used [OF v]] .
  show ?thesis
  proof (cases "srv_standby_state (srvs ! i) = STANDBY_STATE_TRUE")
    case True
    then have "scan_available ov False srvs [0..<n] = []" by (rule sb)
    then show ?thesis using n v by (auto simp: eligible_def scan_available_filter filter_empty_conv)
  next
    case False
    then show ?thesis using n v by (auto simp: eligible_def Let_def)
  qed
qed

text \<open>The member half of \<open>get_available_servers\<close>, before the clones are looked at.\<close>

lemma get_available_clones_frame [simp]:
  "balancer (get_available_clones g) = balancer g"
  "available_members (get_available_clones g) = available_members g"
  "using_member_standby (get_available_clones g) = using_member_standby g"
  "next_member (get_available_clones g) = next_member g
     \<or> next_member (get_available_clones g) = available_members g ! 0"
  by (simp_all add: get_available_clones_def Let_def)

lemma get_available_clones_ready:
  assumes ok: "table_ok (clones (balancer g)) (nclones (balancer g))"
    and nc: "next_clone g < MAXSERVERS" and off: "\<not> use_clone g"
    and use: "use_clone (get_available_clones g)"
  shows "distinct (available_clones (get_available_clones g))"
    and "set (available_clones (get_available_clones g))
       = eligible (overload_mode (balancer g)) (clones (balancer g)) (nclones (balancer g))"
    and "next_clone (get_available_clones g) < nclones (balancer g)"
    and "servable (overload_mode (balancer g)) (clones (balancer g) ! next_clone (get_available_clones g))"
proof -
  let ?b = "balancer g" and ?h = "get_available_clones g"
  let ?ov = "overload_mode ?b" and ?srvs = "clones ?b" and ?n = "nclones ?b"
  have av: "available_clones ?h = scan_twice ?ov ?srvs ?n"
    by (simp add: get_available_clones_def Let_def)
  have ne: "scan_twice ?ov ?srvs ?n \<noteq> []"
    using use off by (auto simp: get_available_clones_def Let_def split: if_splits)
  have nx: "next_clone ?h
      = (if servable ?ov (?srvs ! next_clone g) then next_clone g else scan_twice ?ov ?srvs ?n ! 0)"
    using ne by (simp add: get_available_clones_def Let_def verify_server_iff)
  show "distinct (available_clones ?h)" "set (available_clones ?h) = eligible ?ov ?srvs ?n"
    unfolding av by (rule scan_twice_distinct, rule scan_twice_eligible)
  show "next_clone ?h < ?n" "servable ?ov (?srvs ! next_clone ?h)"
    using eligibleD [OF scan_twice_hd [OF ne]] table_ok_used(1) [OF ok nc] servable_used
    unfolding nx by auto
qed

text \<open>The outcome of the scan, against the abstract rule.\<close>

lemma get_available_servers_outcome:
  assumes m: "table_ok (members (balancer g)) (nmembers (balancer g))"
    and c: "table_ok (clones (balancer g)) (nclones (balancer g))"
    and nm: "next_member g < MAXSERVERS" and nc: "next_clone g < MAXSERVERS"
  shows "fst (get_available_servers g) = - 1 \<longleftrightarrow>
           eligible (overload_mode (balancer g)) (members (balancer g)) (nmembers (balancer g)) = {}"
    and "fst (get_available_servers g) = 0 \<Longrightarrow> sel_ready (snd (get_available_servers g))"
proof -
  let ?b = "balancer g"
  let ?ov = "overload_mode ?b" and ?srvs = "members ?b" and ?n = "nmembers ?b"
  let ?am = "scan_twice ?ov ?srvs ?n" and ?sb = "scan_available ?ov False ?srvs [0..<?n] = []"
  have am: "set ?am = eligible ?ov ?srvs ?n" by (rule scan_twice_eligible)
  show "fst (get_available_servers g) = - 1 \<longleftrightarrow> eligible ?ov ?srvs ?n = {}"
    unfolding am [symmetric] by (simp add: get_available_servers_def Let_def)
  assume "fst (get_available_servers g) = 0"
  then have ne: "?am \<noteq> []" by (auto simp: get_available_servers_def Let_def)
  define nx where "nx = (if servable ?ov (?srvs ! next_member g)
       \<and> (srv_standby_state (?srvs ! next_member g) = STANDBY_STATE_TRUE \<longrightarrow> ?sb)
     then next_member g else ?am ! 0)"
  define h where "h = g\<lparr>using_clone_standby := False, available_clones := [], use_clone := False,
     available_members := ?am, using_member_standby := ?sb, next_member := nx\<rparr>"
  have eq: "snd (get_available_servers g) = (if clone_mode ?b = CLONE_MODE_ON then get_available_clones h else h)"
    using ne by (simp add: get_available_servers_def h_def nx_def Let_def verify_server_iff)
  have nxt: "nx \<in> eligible ?ov ?srvs ?n"
    using scan_twice_hd [OF ne] current_eligible [OF m nm] by (simp add: nx_def)
  have h: "balancer h = ?b" "available_members h = ?am" "\<not> use_clone h"
    "next_clone h = next_clone g" "next_member h = nx" "using_member_standby h = ?sb"
    by (simp_all add: h_def)
  have "next_member (get_available_clones h) \<in> eligible ?ov ?srvs ?n"
    using get_available_clones_frame(4) [of h] nxt scan_twice_hd [OF ne] h by auto
  then show "sel_ready (snd (get_available_servers g))"
    unfolding sel_ready_def eq
    using m c nxt am h get_available_clones_ready [of h] nc scan_twice_distinct [of ?ov ?srvs ?n]
      scan_first_empty [of ?ov ?srvs ?n]
    by simp
qed

section \<open>The comparison loop\<close>

text \<open>
  What the loop of least connections and least load needs of its comparison: it is a strict weak
  order on the servers it is applied to.
\<close>

locale pick_order =
  fixes lt :: "SERVER \<Rightarrow> SERVER \<Rightarrow> bool"
    and carrier :: "SERVER \<Rightarrow> bool"
  assumes lt_irrefl: "\<not> lt s s"
    and lt_asym: "lt s t \<Longrightarrow> \<not> lt t s"
    and not_lt_trans: "carrier t \<Longrightarrow> \<not> lt s t \<Longrightarrow> \<not> lt t u \<Longrightarrow> \<not> lt s u"
begin

lemma scan_min_member:
  assumes "\<And>a. a \<in> set as \<Longrightarrow> srv_id (srvs ! a) = a"
  shows "scan_min lt srvs nxt as \<in> insert nxt (set as)"
  using assms
proof (induction as arbitrary: nxt)
  case (Cons a as)
  then show ?case using Cons.IH [of nxt] Cons.IH [of a] by auto
qed simp

lemma scan_min_in:
  assumes "\<And>a. a \<in> set as \<Longrightarrow> srv_id (srvs ! a) = a" and "nxt \<in> set as"
  shows "scan_min lt srvs nxt as \<in> set as"
  using scan_min_member [OF assms(1), of as nxt] assms(2) by auto

lemma scan_min_least:
  assumes "\<And>a. a \<in> set as \<Longrightarrow> srv_id (srvs ! a) = a"
    and "\<And>a. a \<in> insert nxt (set as) \<Longrightarrow> carrier (srvs ! a)"
    and "a \<in> insert nxt (set as)"
  shows "\<not> lt (srvs ! a) (srvs ! scan_min lt srvs nxt as)"
  using assms
proof (induction as arbitrary: nxt a)
  case Nil
  then show ?case by (simp add: lt_irrefl)
next
  case (Cons x xs)
  let ?m = "if lt (srvs ! x) (srvs ! nxt) then x else nxt"
  let ?r = "scan_min lt srvs ?m xs"
  have step: "scan_min lt srvs nxt (x # xs) = ?r" using Cons.prems(1) [of x] by simp
  have IH: "\<not> lt (srvs ! b) (srvs ! ?r)" if "b \<in> insert ?m (set xs)" for b
    by (rule Cons.IH) (use Cons.prems that in \<open>auto split: if_splits\<close>)
  have m: "carrier (srvs ! ?m)" using Cons.prems(2) by auto
  have "\<not> lt (srvs ! x) (srvs ! ?m)" and "\<not> lt (srvs ! nxt) (srvs ! ?m)"
    by (simp_all add: lt_irrefl lt_asym)
  then have "\<not> lt (srvs ! x) (srvs ! ?r)" and "\<not> lt (srvs ! nxt) (srvs ! ?r)"
    using not_lt_trans [OF m _ IH [of ?m]] by auto
  then show ?case using Cons.prems(3) IH step by auto
qed

end

interpretation lc: pick_order lc_less "\<lambda>_. True"
  by unfold_locales (auto simp: lc_less_def)

interpretation ll: pick_order "ll_less w" "\<lambda>s. ll_weight w s \<noteq> NaN"
  by unfold_locales (auto simp: ll_less_def dest: f_lt_asym f_not_lt_trans)

section \<open>Selectors\<close>

text \<open>
  The contract of a balancing algorithm: started after a successful scan, it leaves the balancer and
  the scan results alone and moves \<open>next_member\<close> to an available member and \<open>next_clone\<close> to one that
  can take a connection.
\<close>

locale selector =
  fixes select :: "'a SEL_scheme \<Rightarrow> 'a SEL_scheme"
  assumes frame: "balancer (select g) = balancer g" "available_members (select g) = available_members g"
      "available_clones (select g) = available_clones g" "use_clone (select g) = use_clone g"
      "using_member_standby (select g) = using_member_standby g"
    and picks_member: "sel_ready g \<Longrightarrow> next_member (select g) \<in> set (available_members g)"
    and picks_clone: "sel_ready g \<Longrightarrow> use_clone g \<Longrightarrow>
      next_clone (select g) \<in> insert (next_clone g) (set (available_clones g))"
begin

lemma keeps_ready:
  assumes "sel_ready g"
  shows "sel_ready (select g)"
proof -
  have "next_clone (select g) < nclones (balancer g)
      \<and> servable (overload_mode (balancer g)) (clones (balancer g) ! next_clone (select g))"
    if "use_clone g"
    using picks_clone [OF assms that] assms that eligibleD by (fastforce simp: sel_ready_def)
  then show ?thesis
    using assms picks_member [OF assms] by (auto simp: sel_ready_def frame)
qed

lemma chosen_servable:
  assumes "sel_ready g"
  shows "next_member (select g) < nmembers (balancer g)"
    and "servable (overload_mode (balancer g)) (members (balancer g) ! next_member (select g))"
  using picks_member [OF assms] assms eligibleD by (auto simp: sel_ready_def)

end

lemma sel_readyD:
  assumes "sel_ready g"
  shows "table_ok (members (balancer g)) (nmembers (balancer g))"
    and "table_ok (clones (balancer g)) (nclones (balancer g))"
    and "distinct (available_members g)" and "next_member g \<in> set (available_members g)"
    and "use_clone g \<Longrightarrow> distinct (available_clones g)"
    and "set (available_members g)
       = eligible (overload_mode (balancer g)) (members (balancer g)) (nmembers (balancer g))"
    and "use_clone g \<Longrightarrow> set (available_clones g)
       = eligible (overload_mode (balancer g)) (clones (balancer g)) (nclones (balancer g))"
    and "using_member_standby g \<longleftrightarrow>
        (\<forall>i<nmembers (balancer g). servable (overload_mode (balancer g)) (members (balancer g) ! i)
           \<longrightarrow> srv_standby_state (members (balancer g) ! i) = STANDBY_STATE_TRUE)"
  using assms unfolding sel_ready_def by blast+

lemma sel_ready_ids:
  assumes "sel_ready g"
  shows "a \<in> set (available_members g) \<Longrightarrow> srv_id (members (balancer g) ! a) = a"
    and "use_clone g \<Longrightarrow> a \<in> set (available_clones g) \<Longrightarrow> srv_id (clones (balancer g) ! a) = a"
  using assms eligible_id(1) by (auto simp: sel_ready_def)

text \<open>Round robin goes from position \<open>i\<close> of the available list to the next one, cyclically.\<close>

lemma rr_loop_step:
  assumes "distinct avail" and "j < length avail" and "\<And>a. a \<in> set avail \<Longrightarrow> srv_id (srvs ! a) = a"
    and "k \<le> j"
  shows "rr_loop srvs avail (avail ! j) k (drop k avail) = avail ! ((j + 1) mod length avail)"
  using assms(4)
proof (induction "j - k" arbitrary: k)
  case 0
  then have "k = j" by simp
  moreover have "avail ! ((j + 1) mod length avail) \<in> set avail"
    using assms(2) by (intro nth_mem mod_less_divisor) auto
  ultimately show ?case
    using assms(2,3) by (simp add: Cons_nth_drop_Suc [symmetric])
next
  case (Suc d)
  then have k: "k < j" by simp
  then have "avail ! k \<noteq> avail ! j" using assms(1,2) by (simp add: nth_eq_iff_index_eq)
  then show ?case
    using Suc.hyps(1) [of "k + 1"] Suc.hyps(2) k assms(2)
    by (simp add: Cons_nth_drop_Suc [symmetric])
qed

lemma rr_loop_absent: "nxt \<notin> set rest \<Longrightarrow> rr_loop srvs avail nxt k rest = nxt"
  by (induction rest arbitrary: k) auto

lemma rr_loop_in:
  assumes "distinct avail" and "\<And>a. a \<in> set avail \<Longrightarrow> srv_id (srvs ! a) = a"
  shows "rr_loop srvs avail nxt 0 avail \<in> insert nxt (set avail)"
    and "nxt \<in> set avail \<Longrightarrow> rr_loop srvs avail nxt 0 avail \<in> set avail"
proof -
  have in_set: "rr_loop srvs avail nxt 0 avail \<in> set avail" if "nxt \<in> set avail"
  proof -
    obtain j where j: "j < length avail" "nxt = avail ! j" using \<open>nxt \<in> set avail\<close> by (metis in_set_conv_nth)
    then have "(j + 1) mod length avail < length avail" by (intro mod_less_divisor) auto
    then show ?thesis using rr_loop_step [OF assms(1) j(1) assms(2), of 0] j by simp
  qed
  then show "nxt \<in> set avail \<Longrightarrow> rr_loop srvs avail nxt 0 avail \<in> set avail" .
  show "rr_loop srvs avail nxt 0 avail \<in> insert nxt (set avail)"
    using in_set rr_loop_absent by (cases "nxt \<in> set avail") auto
qed

lemma set_rr_server_simps [simp]:
  "balancer (set_rr_server g) = balancer g" "available_members (set_rr_server g) = available_members g"
  "available_clones (set_rr_server g) = available_clones g" "use_clone (set_rr_server g) = use_clone g"
  "using_member_standby (set_rr_server g) = using_member_standby g"
  "next_member (set_rr_server g)
     = rr_loop (members (balancer g)) (available_members g) (next_member g) 0 (available_members g)"
  by (simp_all add: set_rr_server_def Let_def)

interpretation rr: selector set_rr_server
proof unfold_locales
  fix g :: "'a SEL_scheme"
  assume g: "sel_ready g"
  then show "next_member (set_rr_server g) \<in> set (available_members g)"
    using rr_loop_in(2) [OF sel_readyD(3) [OF g] sel_ready_ids(1) [OF g] sel_readyD(4) [OF g]] by simp
  show "next_clone (set_rr_server g) \<in> insert (next_clone g) (set (available_clones g))" if "use_clone g"
    using rr_loop_in(1) [OF sel_readyD(5) [OF g that] sel_ready_ids(2) [OF g that]] that
    by (simp add: set_rr_server_def Let_def)
qed simp_all

lemma set_lc_server_simps [simp]:
  "balancer (set_lc_server g) = balancer g" "available_members (set_lc_server g) = available_members g"
  "available_clones (set_lc_server g) = available_clones g" "use_clone (set_lc_server g) = use_clone g"
  "using_member_standby (set_lc_server g) = using_member_standby g"
  "next_member (set_lc_server g)
     = scan_min lc_less (members (balancer g)) (next_member (set_rr_server g)) (available_members g)"
  by (simp_all add: set_lc_server_def Let_def)

interpretation lcs: selector set_lc_server
proof unfold_locales
  fix g :: "'a SEL_scheme"
  assume g: "sel_ready g"
  note rdy = rr.keeps_ready [OF g]
  show "next_member (set_lc_server g) \<in> set (available_members g)"
    using lc.scan_min_in [OF sel_ready_ids(1) [OF g] sel_readyD(4) [OF rdy, simplified]] by simp
  show "next_clone (set_lc_server g) \<in> insert (next_clone g) (set (available_clones g))" if "use_clone g"
  proof -
    have "next_clone (set_lc_server g) = scan_min lc_less (clones (balancer g)) (next_clone (set_rr_server g)) (available_clones g)"
      using that by (simp add: set_lc_server_def Let_def)
    then show ?thesis
      using lc.scan_min_member [OF sel_ready_ids(2) [OF g that], of "available_clones g" "next_clone (set_rr_server g)"]
        rr.picks_clone [OF g that] by auto
  qed
qed simp_all

lemma set_ll_server_simps [simp]:
  "balancer (set_ll_server g) = balancer g" "available_members (set_ll_server g) = available_members g"
  "available_clones (set_ll_server g) = available_clones g" "use_clone (set_ll_server g) = use_clone g"
  "using_member_standby (set_ll_server g) = using_member_standby g"
  "next_member (set_ll_server g)
     = scan_min (ll_less (session_weight (balancer g))) (members (balancer g)) (next_member g) (available_members g)"
  by (simp_all add: set_ll_server_def Let_def)

interpretation lls: selector set_ll_server
proof unfold_locales
  fix g :: "'a SEL_scheme"
  assume g: "sel_ready g"
  show "next_member (set_ll_server g) \<in> set (available_members g)"
    using ll.scan_min_in [OF sel_ready_ids(1) [OF g] sel_readyD(4) [OF g]] by simp
  show "next_clone (set_ll_server g) \<in> insert (next_clone g) (set (available_clones g))" if "use_clone g"
    using ll.scan_min_member [OF sel_ready_ids(2) [OF g that], of "available_clones g"] that
    by (simp add: set_ll_server_def Let_def)
qed simp_all

section \<open>Hash-table accounting\<close>

lemma usage_simps [simp]:
  "srv_hash_table_usage (usage_inc s) = srv_hash_table_usage s + 1"
  "srv_hash_table_usage (usage_dec s) = srv_hash_table_usage s - 1"
  "srv_status (usage_inc s) = srv_status s" "srv_status (usage_dec s) = srv_status s"
  "srv_id (usage_inc s) = srv_id s" "srv_id (usage_dec s) = srv_id s"
  "srv_c (usage_inc s) = srv_c s" "srv_c (usage_dec s) = srv_c s"
  by (simp_all add: usage_inc_def usage_dec_def)

lemma upd_member_simps [simp, upd_simps]:
  "members (upd_member i f b) = upd_server i f (members b)" "clones (upd_member i f b) = clones b"
  "nmembers (upd_member i f b) = nmembers b" "nclones (upd_member i f b) = nclones b"
  "hash_table (upd_member i f b) = hash_table b" "overload_mode (upd_member i f b) = overload_mode b"
  "clones (upd_clone i f b) = upd_server i f (clones b)" "members (upd_clone i f b) = members b"
  "nmembers (upd_clone i f b) = nmembers b" "nclones (upd_clone i f b) = nclones b"
  "hash_table (upd_clone i f b) = hash_table b"
  by (simp_all add: upd_member_def upd_clone_def)

lemma set_table_simps [simp, upd_simps]:
  "members (set_table h m b) = members b" "clones (set_table h m b) = clones b"
  "nmembers (set_table h m b) = nmembers b" "nclones (set_table h m b) = nclones b"
  "hash_table (set_table h m b) = (hash_table b)[h := int m]"
  "overload_mode (set_table h m b) = overload_mode b"
  by (simp_all add: set_table_def)

lemma hash_okD:
  assumes "hash_ok b"
  shows "length (hash_table b) = HASHTABLESIZE"
    and "v \<in> set (hash_table b) \<Longrightarrow> v = HASH_VAL_FREE \<or> 0 \<le> v \<and> v < int (nmembers b)"
    and "i < MAXSERVERS \<Longrightarrow> unat (srv_hash_table_usage (members b ! i)) = count_list (hash_table b) (int i)"
  using assms by (auto simp: hash_ok_def)

lemma unat_inc16: "unat (u :: 16 word) < 65535 \<Longrightarrow> unat (u + 1) = unat u + 1"
  by (simp add: unat_word_ariths)

lemma unat_dec16: "0 < unat (u :: 16 word) \<Longrightarrow> unat (u - 1) = unat u - 1"
  by (metis One_nat_def gr_implies_not_zero unat_0 unat_minus_one)

text \<open>Assigning a free hash value to member \<open>m\<close>, and moving one from \<open>k\<close> to \<open>m\<close>.\<close>

lemma hash_ok_assign:
  assumes ok: "hash_ok b" and len: "length (members b) = MAXSERVERS" and m: "m < nmembers b" "m < MAXSERVERS"
    and h: "h < HASHTABLESIZE" "hash_table b ! h = HASH_VAL_FREE"
  shows "hash_ok (set_table h m (upd_member m usage_inc b))"
proof -
  note l = hash_okD(1) [OF ok]
  have cnt: "count_list ((hash_table b)[h := int m]) (int i)
      = count_list (hash_table b) (int i) + (if i = m then 1 else 0)" for i
    using count_list_update [of h "hash_table b" "int m" "int i"] h l by auto
  have "count_list (hash_table b) (int m) < 65535"
    using count_list_le_length [of "(hash_table b)[h := int m]" "int m"] cnt [of m] l by simp
  then show ?thesis
    using ok m h l len cnt hash_okD(3) [OF ok]
    by (auto simp: hash_ok_def unat_inc16 dest!: subsetD [OF set_update_subset_insert])
qed

lemma hash_ok_move:
  assumes ok: "hash_ok b" and len: "length (members b) = MAXSERVERS" and m: "m < nmembers b" "m < MAXSERVERS"
    and h: "h < HASHTABLESIZE" "hash_table b ! h = int k" and k: "k < MAXSERVERS" "k \<noteq> m"
  shows "hash_ok (set_table h m (upd_member m usage_inc (upd_member k usage_dec b)))"
proof -
  note l = hash_okD(1) [OF ok]
  have cnt: "count_list ((hash_table b)[h := int m]) (int i) + (if i = k then 1 else 0)
      = count_list (hash_table b) (int i) + (if i = m then 1 else 0)" for i
    using count_list_update [of h "hash_table b" "int m" "int i"] h l by auto
  have m1: "count_list (hash_table b) (int m) < 65535"
    using count_list_le_length [of "(hash_table b)[h := int m]" "int m"] cnt [of m] l k by simp
  have k1: "0 < count_list (hash_table b) (int k)"
    using cnt [of k] k by simp
  have "unat (srv_hash_table_usage (upd_server m usage_inc (upd_server k usage_dec (members b)) ! i))
      = count_list ((hash_table b)[h := int m]) (int i)" if "i < MAXSERVERS" for i
    using that cnt [of i] m1 k1 hash_okD(3) [OF ok that] hash_okD(3) [OF ok m(2)] hash_okD(3) [OF ok k(1)] len m k
    by (auto simp: unat_inc16 unat_dec16)
  then show ?thesis
    using ok m l by (auto simp: hash_ok_def dest!: subsetD [OF set_update_subset_insert])
qed

text \<open>An entry of the table names a slot in use.\<close>

lemma hash_entry_used:
  assumes "balancer_ok b" and "h < HASHTABLESIZE" and "hash_table b ! h \<noteq> HASH_VAL_FREE"
  shows "hash_table b ! h = int (nat (hash_table b ! h))" and "nat (hash_table b ! h) < nmembers b"
    and "nat (hash_table b ! h) < MAXSERVERS"
    and "srv_status (members b ! nat (hash_table b ! h)) \<noteq> SERVER_STATE_FREE"
proof -
  have hok: "hash_ok b" and tok: "table_ok (members b) (nmembers b)"
    using assms(1) by (auto simp: balancer_ok_def)
  let ?v = "hash_table b ! h"
  have mem: "?v \<in> set (hash_table b)" using assms(2) hash_okD(1) [OF hok] by simp
  then have v: "0 \<le> ?v" "?v < int (nmembers b)" using hash_okD(2) [OF hok mem] assms(3) by auto
  then show a: "?v = int (nat ?v)" and "nat ?v < nmembers b" and b: "nat ?v < MAXSERVERS"
    using table_okD(2) [OF tok] by auto
  have "count_list (hash_table b) (int (nat ?v)) \<noteq> 0" using mem a by (simp add: count_list_0_iff)
  then have "unat (srv_hash_table_usage (members b ! nat ?v)) \<noteq> 0" using hash_okD(3) [OF hok b] by simp
  then show "srv_status (members b ! nat ?v) \<noteq> SERVER_STATE_FREE"
    using table_okD(4) [OF tok b] by (metis unat_0 zero_server_simps(2))
qed

lemma uri_hash_bound: "uri_hash key < HASHTABLESIZE - 1"
  by (simp add: uri_hash_def)

lemma pick_clone_by_hash_frame:
  assumes "pick_clone_by_hash h g = Inr g'"
  shows "balancer g' = balancer g" "next_member g' = next_member g"
  using assms by (auto simp: pick_clone_by_hash_def split: if_splits)

lemma table_ok_usage:
  assumes "table_ok srvs n" and "i < MAXSERVERS" and "srv_status (srvs ! i) \<noteq> SERVER_STATE_FREE"
  shows "table_ok (upd_server i usage_inc srvs) n" "table_ok (upd_server i usage_dec srvs) n"
  using assms by (auto intro: table_ok_upd_server)

text \<open>
  The two assignment branches of \<open>set_hash_server\<close>, on the chosen member \<open>m\<close>.
\<close>

lemma balancer_ok_assign:
  assumes ok: "balancer_ok b" and h: "h < HASHTABLESIZE" "hash_table b ! h = HASH_VAL_FREE"
    and m: "m < MAXSERVERS" "srv_status (members b ! m) \<noteq> SERVER_STATE_FREE"
  shows "balancer_ok (set_table h m (upd_member m usage_inc b))"
proof -
  have t: "table_ok (members b) (nmembers b)" and hk: "hash_ok b" using ok by (auto simp: balancer_ok_def)
  then show ?thesis
    using hash_ok_assign [OF hk table_okD(1) [OF t] table_ok_used(1) [OF t m] m(1) h] ok
      table_ok_usage(1) [OF t m] by (simp add: balancer_ok_def)
qed

lemma balancer_ok_move:
  assumes ok: "balancer_ok b" and h: "h < HASHTABLESIZE" "hash_table b ! h = int k"
    and k: "k < MAXSERVERS" "k \<noteq> m" "srv_status (members b ! k) \<noteq> SERVER_STATE_FREE"
    and m: "m < MAXSERVERS" "srv_status (members b ! m) \<noteq> SERVER_STATE_FREE"
  shows "balancer_ok (set_table h m (upd_member m usage_inc (upd_member k usage_dec b)))"
proof -
  have t: "table_ok (members b) (nmembers b)" and hk: "hash_ok b" using ok by (auto simp: balancer_ok_def)
  have t': "table_ok (upd_server k usage_dec (members b)) (nmembers b)"
    by (rule table_ok_usage(2) [OF t k(1,3)])
  have "srv_status (upd_server k usage_dec (members b) ! m) \<noteq> SERVER_STATE_FREE"
    using m k table_okD(1) [OF t] by simp
  then show ?thesis
    using hash_ok_move [OF hk table_okD(1) [OF t] table_ok_used(1) [OF t m] m(1) h k(1,2)] ok
      table_ok_usage(1) [OF t' m(1)] by (simp add: balancer_ok_def)
qed

text \<open>
  The outcome of \<open>set_hash_server\<close> on a parsed URI with key \<open>key\<close>: a valid assigned member is used;
  otherwise the least connected member is chosen and the entry moved (or set) to it.
\<close>

lemma chosen_lc:
  assumes "sel_ready g"
  shows "next_member (set_lc_server g) \<in> set (available_members g)"
    and "next_member (set_lc_server g) < MAXSERVERS"
    and "srv_status (members (balancer g) ! next_member (set_lc_server g)) \<noteq> SERVER_STATE_FREE"
  using lcs.picks_member [OF assms] lcs.chosen_servable [OF assms] sel_readyD(1) [OF assms]
    table_okD(2) servable_used by (auto, fastforce)

lemma set_hash_server_key:
  assumes "request_uri buf = Inr (Some uri)" and "uri_key uri = Inr key"
  shows "set_hash_server buf g =
    (let hash = uri_hash key; b = balancer g; v = hash_table b ! hash; k = nat v; m = next_member (set_lc_server g) in
     if v = HASH_VAL_FREE then
       Inr ((set_lc_server g)\<lparr>balancer := set_table hash m (upd_member m usage_inc b)\<rparr>)
     else if servable (overload_mode b) (members b ! k)
        \<and> (srv_standby_state (members b ! k) = STANDBY_STATE_TRUE \<longrightarrow> using_member_standby g)
     then pick_clone_by_hash hash (g\<lparr>next_member := srv_id (members b ! k)\<rparr>)
     else Inr ((set_lc_server g)\<lparr>balancer :=
            set_table hash m (upd_member m usage_inc (upd_member k usage_dec b))\<rparr>))"
  using assms by (auto simp: set_hash_server_def Let_def verify_server_iff simp del: set_lc_server_simps(6))

lemma not_eligible_unavailable:
  assumes "sel_ready g" and "a \<in> set (available_members g)"
    and "\<not> (servable (overload_mode (balancer g)) (members (balancer g) ! k)
        \<and> (srv_standby_state (members (balancer g) ! k) = STANDBY_STATE_TRUE \<longrightarrow> using_member_standby g))"
  shows "k \<noteq> a"
proof
  assume "k = a"
  then have "servable (overload_mode (balancer g)) (members (balancer g) ! k)"
    using assms(2) sel_readyD(6) [OF assms(1)] eligibleD by blast
  moreover have "srv_standby_state (members (balancer g) ! k) = STANDBY_STATE_TRUE \<longrightarrow> using_member_standby g"
    using assms(2) sel_readyD(6) [OF assms(1)] sel_readyD(8) [OF assms(1)] \<open>k = a\<close>
    by (auto simp: eligible_def Let_def split: if_splits)
  ultimately show False using assms(3) by blast
qed

lemma set_hash_server_ok:
  assumes rdy: "sel_ready g" and ok: "balancer_ok (balancer g)" and res: "set_hash_server buf g = Inr g'"
  shows "balancer_ok (balancer g')"
proof (cases "request_uri buf")
  case (Inr u)
  show ?thesis
  proof (cases u)
    case None
    then show ?thesis using ok res Inr by (auto simp: set_hash_server_def)
  next
    case (Some uri)
    then obtain key where key: "uri_key uri = Inr key"
      using res Inr by (auto simp: set_hash_server_def)
    let ?b = "balancer g" and ?h = "uri_hash key" and ?m = "next_member (set_lc_server g)"
    let ?k = "nat (hash_table ?b ! ?h)"
    have h: "?h < HASHTABLESIZE" using uri_hash_bound [of key] by simp
    note eq = set_hash_server_key [OF Inr [unfolded Some] key, of g, unfolded Let_def]
    have "balancer_ok (set_table ?h ?m (upd_member ?m usage_inc ?b))" if "hash_table ?b ! ?h = HASH_VAL_FREE"
      by (rule balancer_ok_assign [OF ok h that chosen_lc(2,3) [OF rdy]])
    moreover have "balancer_ok (set_table ?h ?m (upd_member ?m usage_inc (upd_member ?k usage_dec ?b)))"
      if "hash_table ?b ! ?h \<noteq> HASH_VAL_FREE" and "\<not> (servable (overload_mode ?b) (members ?b ! ?k)
        \<and> (srv_standby_state (members ?b ! ?k) = STANDBY_STATE_TRUE \<longrightarrow> using_member_standby g))"
      using balancer_ok_move [OF ok h _ _ _ _ chosen_lc(2,3) [OF rdy]] hash_entry_used [OF ok h that(1)]
        not_eligible_unavailable [OF rdy chosen_lc(1) [OF rdy] that(2)] by simp
    ultimately show ?thesis
      using res ok unfolding eq by (auto dest: pick_clone_by_hash_frame simp del: set_lc_server_simps(6) split: if_splits)
  qed
qed (use res in \<open>simp add: set_hash_server_def\<close>)

end
