(* ===== verification/Buffers.thy ===== *)
theory Buffers
  imports Algorithms
begin

text \<open>
  The relay buffers of a session: a 4096-byte array with a count of used bytes. \<open>read\<close> appends behind
  the used part; after a \<open>write\<close> of \<open>n\<close> bytes the rest is moved to the front with \<open>memcpy\<close>. The three
  buffers of a session (client to member, member to client, client to clone) share this code, so the
  stream laws are proved once, in the locale \<open>relay\<close>.

  The moves of the source copy between overlapping parts of one array. ISO C leaves that undefined;
  \<open>memcpy_front\<close> is the copy in ascending order, byte by byte.
\<close>

abbreviation MESSAGE_SIZE_LIMIT :: nat where "MESSAGE_SIZE_LIMIT \<equiv> 4096"

text \<open>\<open>read(fd, buf + used, ..)\<close> that delivers \<open>bs\<close>.\<close>

definition buf_append :: "byte list \<Rightarrow> nat \<Rightarrow> byte list \<Rightarrow> byte list" where
  "buf_append buf used bs = take used buf @ bs @ drop (used + length bs) buf"

text \<open>\<open>memcpy(buf, buf + n, k)\<close>, from position \<open>i\<close> on.\<close>

fun memcpy_front :: "byte list \<Rightarrow> nat \<Rightarrow> nat \<Rightarrow> nat \<Rightarrow> byte list" where
  "memcpy_front buf n i 0 = buf"
| "memcpy_front buf n i (Suc k) = memcpy_front (buf[i := buf ! (i + n)]) n (Suc i) k"

text \<open>\<open>strncpy\<close> of \<open>length bs\<close> bytes: it stops at a NUL and pads with NULs.\<close>

definition strncpy_bytes :: "byte list \<Rightarrow> byte list" where
  "strncpy_bytes bs = (let p = takeWhile (\<lambda>b. b \<noteq> 0) bs in p @ replicate (length bs - length p) 0)"

lemma length_memcpy_front [simp]: "length (memcpy_front buf n i k) = length buf"
  by (induction k arbitrary: buf i) simp_all

lemma memcpy_front_nth:
  assumes "i + k + n \<le> length buf" and "j < length buf"
  shows "memcpy_front buf n i k ! j = (if i \<le> j \<and> j < i + k then buf ! (j + n) else buf ! j)"
  using assms
proof (induction k arbitrary: buf i)
  case (Suc k)
  let ?b = "buf[i := buf ! (i + n)]"
  have "memcpy_front ?b n (Suc i) k ! j = (if Suc i \<le> j \<and> j < Suc i + k then ?b ! (j + n) else ?b ! j)"
    by (rule Suc.IH) (use Suc.prems in simp_all)
  then show ?case using Suc.prems by (auto simp: nth_list_update)
qed auto

lemma memcpy_front_take:
  assumes "n + k \<le> length buf"
  shows "take k (memcpy_front buf n 0 k) = take k (drop n buf)"
  using assms by (intro nth_equalityI) (auto simp: memcpy_front_nth add.commute)

lemma length_buf_append [simp]:
  "used + length bs \<le> length buf \<Longrightarrow> length (buf_append buf used bs) = length buf"
  by (simp add: buf_append_def)

lemma take_buf_append [simp]:
  "used \<le> length buf \<Longrightarrow> take (used + length bs) (buf_append buf used bs) = take used buf @ bs"
  by (simp add: buf_append_def min_def)

lemma length_strncpy_bytes [simp]: "length (strncpy_bytes bs) = length bs"
  using length_takeWhile_le [of "\<lambda>b. b \<noteq> 0" bs] by (simp add: strncpy_bytes_def Let_def)

lemma strncpy_bytes_id: "0 \<notin> set bs \<Longrightarrow> strncpy_bytes bs = bs"
proof -
  assume "0 \<notin> set bs"
  then have t: "takeWhile (\<lambda>b. b \<noteq> 0) bs = bs" by auto
  show ?thesis unfolding strncpy_bytes_def t by simp
qed

section \<open>Byte streams\<close>

text \<open>
  A relay state holds pending bytes. Receiving appends to them, sending removes a prefix, which
  goes out. \<open>relay_run\<close> runs a schedule of both and collects the bytes that go out; \<open>relay_input\<close> are the
  bytes that came in; \<open>relay_allowed\<close> says that every receive brings data and fits, and no send exceeds what is pending,
  which is what \<open>read\<close> and \<open>write\<close> guarantee for the counts they are called with.
\<close>

datatype relay_op = Recv "byte list" | Send nat

fun relay_run ::
  "('s \<Rightarrow> byte list) \<Rightarrow> (byte list \<Rightarrow> 's \<Rightarrow> 's) \<Rightarrow> (nat \<Rightarrow> 's \<Rightarrow> 's) \<Rightarrow> relay_op list \<Rightarrow> 's \<Rightarrow> byte list \<times> 's" where
  "relay_run pend rcv snt [] s = ([], s)"
| "relay_run pend rcv snt (Recv bs # ops) s = relay_run pend rcv snt ops (rcv bs s)"
| "relay_run pend rcv snt (Send n # ops) s =
     (let (out, s') = relay_run pend rcv snt ops (snt n s) in (take n (pend s) @ out, s'))"

fun relay_allowed ::
  "('s \<Rightarrow> byte list) \<Rightarrow> (byte list \<Rightarrow> 's \<Rightarrow> 's) \<Rightarrow> (nat \<Rightarrow> 's \<Rightarrow> 's) \<Rightarrow> relay_op list \<Rightarrow> 's \<Rightarrow> bool" where
  "relay_allowed pend rcv snt [] s = True"
| "relay_allowed pend rcv snt (Recv bs # ops) s =
     (bs \<noteq> [] \<and> length (pend s) + length bs \<le> MESSAGE_SIZE_LIMIT \<and> relay_allowed pend rcv snt ops (rcv bs s))"
| "relay_allowed pend rcv snt (Send n # ops) s =
     (n \<le> length (pend s) \<and> relay_allowed pend rcv snt ops (snt n s))"

fun relay_input :: "relay_op list \<Rightarrow> byte list" where
  "relay_input [] = []"
| "relay_input (Recv bs # ops) = bs @ relay_input ops"
| "relay_input (Send n # ops) = relay_input ops"

text \<open>
  Whatever the interleaving, the bytes sent followed by those pending are the bytes pending at the
  start followed by those received: nothing is lost, repeated or reordered.
\<close>

locale relay =
  fixes ok :: "'s \<Rightarrow> bool" and pending :: "'s \<Rightarrow> byte list"
    and recv :: "byte list \<Rightarrow> 's \<Rightarrow> 's" and send :: "nat \<Rightarrow> 's \<Rightarrow> 's"
  assumes recv_ok: "ok s \<Longrightarrow> bs \<noteq> [] \<Longrightarrow> length (pending s) + length bs \<le> MESSAGE_SIZE_LIMIT \<Longrightarrow> ok (recv bs s)"
    and recv_pending: "ok s \<Longrightarrow> bs \<noteq> [] \<Longrightarrow> length (pending s) + length bs \<le> MESSAGE_SIZE_LIMIT \<Longrightarrow>
      pending (recv bs s) = pending s @ bs"
    and send_ok: "ok s \<Longrightarrow> n \<le> length (pending s) \<Longrightarrow> ok (send n s)"
    and send_pending: "ok s \<Longrightarrow> n \<le> length (pending s) \<Longrightarrow> pending (send n s) = drop n (pending s)"
begin

lemma stream:
  assumes "ok s" and "relay_allowed pending recv send ops s"
  shows "fst (relay_run pending recv send ops s) @ pending (snd (relay_run pending recv send ops s))
      = pending s @ relay_input ops
    \<and> ok (snd (relay_run pending recv send ops s))"
  using assms
proof (induction ops arbitrary: s)
  case (Cons op ops)
  note ih = Cons.IH
  show ?case
  proof (cases op)
    case (Recv bs)
    then show ?thesis using ih [of "recv bs s"] Cons.prems recv_ok recv_pending by simp
  next
    case (Send n)
    then show ?thesis using ih [of "send n s"] Cons.prems send_ok send_pending
      by (simp add: case_prod_beta Let_def)
  qed
qed simp

end

end
