(* ===== verification/Sessions.thy ===== *)
theory Sessions
  imports Buffers
begin

text \<open>
  Sessions of the server process (octopus.h, octopus.c): the \<open>SESSION\<close> struct with its state bits, the
  queue of unused sessions, and the operations that close a session. A \<open>SESSION *\<close> is a position in
  the \<open>sessions\<close> array, a \<open>SERVER *\<close> a position in \<open>members\<close> or \<open>clones\<close>; \<open>None\<close> is NULL. The record \<open>LB\<close>
  adds the server process's globals to those of server selection.

  The three \<open>used\<close> counters are \<open>nat\<close>: the source subtracts from them what \<open>write\<close> returned, which is
  never more than the count it was called with. \<open>interest\<close> is the epoll set; closing a file
  descriptor removes it, and \<open>EPOLL_CTL_MOD\<close> of a descriptor that is not in the set fails, which the
  source ignores. Log output is not modelled; \<open>connection_rejected_log_suppress\<close> is.
\<close>

unbundle bit_operations_syntax

abbreviation STATE_UNUSED :: "32 word" where "STATE_UNUSED \<equiv> 0"
abbreviation STATE_MEM_CONNECTED :: "32 word" where "STATE_MEM_CONNECTED \<equiv> 2"
abbreviation STATE_CLI_CONNECTED :: "32 word" where "STATE_CLI_CONNECTED \<equiv> 4"
abbreviation STATE_CLO_CONNECTED :: "32 word" where "STATE_CLO_CONNECTED \<equiv> 8"
abbreviation STATE_FRESH :: "32 word" where "STATE_FRESH \<equiv> 16"
abbreviation STATE_MEM_READ_READY :: "32 word" where "STATE_MEM_READ_READY \<equiv> 32"
abbreviation STATE_CLI_READ_READY :: "32 word" where "STATE_CLI_READ_READY \<equiv> 64"
abbreviation STATE_CLO_READ_READY :: "32 word" where "STATE_CLO_READ_READY \<equiv> 128"
abbreviation STATE_MEM_WRITE_READY :: "32 word" where "STATE_MEM_WRITE_READY \<equiv> 256"
abbreviation STATE_CLI_WRITE_READY :: "32 word" where "STATE_CLI_WRITE_READY \<equiv> 512"
abbreviation STATE_CLO_WRITE_READY :: "32 word" where "STATE_CLO_WRITE_READY \<equiv> 1024"
abbreviation STATE_MEM_BUFF_FULL :: "32 word" where "STATE_MEM_BUFF_FULL \<equiv> 2048"
abbreviation STATE_CLI_BUFF_FULL :: "32 word" where "STATE_CLI_BUFF_FULL \<equiv> 4096"

record SESSION =
  ses_id :: nat
  ses_state :: "32 word"
  clientfd :: int
  memberfd :: int
  clonefd :: int
  member_read_buffer :: "byte list"
  client_read_buffer :: "byte list"
  clone_write_buffer :: "byte list"
  member_used_buffer :: nat
  client_used_buffer :: nat
  clone_used_buffer :: nat
  ses_member :: "nat option"
  ses_clone :: "nat option"

datatype epoll_ev = null_ev | ro_ev | wr_ev | rw_ev

record LB = SEL +
  sessions :: "SESSION list"
  unused_sessions :: "nat option list"
  uq_head :: int
  uq_rear :: int
  fds :: "nat option list"
  interest :: "int \<rightharpoonup> epoll_ev"

section \<open>State bits\<close>

definition has :: "32 word \<Rightarrow> 32 word \<Rightarrow> bool" where
  "has st m \<longleftrightarrow> st AND m \<noteq> 0"

definition set_bits :: "32 word \<Rightarrow> SESSION \<Rightarrow> SESSION" where
  "set_bits m x = x\<lparr>ses_state := ses_state x OR m\<rparr>"

definition clear_bits :: "32 word \<Rightarrow> SESSION \<Rightarrow> SESSION" where
  "clear_bits m x = x\<lparr>ses_state := ses_state x AND NOT m\<rparr>"

definition flag :: "SESSION \<Rightarrow> 32 word \<Rightarrow> bool" where
  "flag x m \<longleftrightarrow> has (ses_state x) m"

section \<open>State updates\<close>

definition upd_ses :: "nat \<Rightarrow> (SESSION \<Rightarrow> SESSION) \<Rightarrow> LB \<Rightarrow> LB" where
  "upd_ses s f lb = lb\<lparr>sessions := (sessions lb)[s := f (sessions lb ! s)]\<rparr>"

definition upd_bal :: "(BALANCER \<Rightarrow> BALANCER) \<Rightarrow> LB \<Rightarrow> LB" where
  "upd_bal f lb = lb\<lparr>balancer := f (balancer lb)\<rparr>"

text \<open>\<open>epoll_ctl\<close> with \<open>EPOLL_CTL_ADD\<close> (successful) and \<open>EPOLL_CTL_MOD\<close>, and \<open>close\<close>.\<close>

definition epoll_add :: "int \<Rightarrow> epoll_ev \<Rightarrow> LB \<Rightarrow> LB" where
  "epoll_add fd ev lb = lb\<lparr>interest := (interest lb)(fd \<mapsto> ev)\<rparr>"

definition epoll_mod :: "int \<Rightarrow> epoll_ev \<Rightarrow> LB \<Rightarrow> LB" where
  "epoll_mod fd ev lb =
     (if interest lb fd = None then lb else lb\<lparr>interest := (interest lb)(fd \<mapsto> ev)\<rparr>)"

definition close_fd :: "int \<Rightarrow> LB \<Rightarrow> LB" where
  "close_fd fd lb = lb\<lparr>interest := (interest lb)(fd := None)\<rparr>"

text \<open>\<open>write_log(OCTOPUS_LOG_STD, .., SUPPRESS_CONN_REJECT)\<close>, as far as state goes.\<close>

definition reject_log :: "LB \<Rightarrow> LB" where
  "reject_log lb = upd_bal (\<lambda>b. b\<lparr>connection_rejected_log_suppress := True\<rparr>) lb"

text \<open>\<open>fds[fd].session\<close>, followed.\<close>

definition fd_session :: "int \<Rightarrow> LB \<Rightarrow> nat res" where
  "fd_session fd lb =
     (if fd < 0 \<or> fd \<ge> int (length (fds lb)) then Inl Out_of_bounds else deref (fds lb ! nat fd))"

definition set_fd_session :: "int \<Rightarrow> nat option \<Rightarrow> LB \<Rightarrow> LB res" where
  "set_fd_session fd p lb =
     (if fd < 0 \<or> fd \<ge> int (length (fds lb)) then Inl Out_of_bounds
      else Inr (lb\<lparr>fds := (fds lb)[nat fd := p]\<rparr>))"

section \<open>The queue of unused sessions\<close>

definition get_new_session :: "LB \<Rightarrow> (nat option \<times> LB) res" where
  "get_new_session lb =
     (if uq_head lb = uq_rear lb then Inr (None, lb)
      else if uq_head lb = 0 then Inl Div_by_zero
      else
        (let h = (uq_head lb + 1) mod uq_head lb; lb = lb\<lparr>uq_head := h\<rparr> in
         if h < 0 \<or> h \<ge> int (length (unused_sessions lb)) then Inl Out_of_bounds
         else case unused_sessions lb ! nat h of
                None \<Rightarrow> Inl Uninitialised
              | Some s \<Rightarrow> Inr (Some s, lb)))"

definition add_unused_session :: "nat \<Rightarrow> LB \<Rightarrow> LB res" where
  "add_unused_session s lb =
     (if session_limit (balancer lb) = 0 then Inl Div_by_zero
      else
        (let r = (uq_rear lb + 1) mod session_limit (balancer lb); lb = lb\<lparr>uq_rear := r\<rparr> in
         if r < 0 \<or> r \<ge> int (length (unused_sessions lb)) then Inl Out_of_bounds
         else Inr (lb\<lparr>unused_sessions := (unused_sessions lb)[nat r := Some s]\<rparr>)))"

text \<open>\<open>pop_unused_session\<close>: no caller; its debug message reads through the queue's head.\<close>

definition pop_unused_session :: "LB \<Rightarrow> LB res" where
  "pop_unused_session lb =
     (if debug_level (balancer lb) > 3 \<and> (uq_head lb < 0 \<or> uq_head lb \<ge> int (length (unused_sessions lb)))
      then Inl Out_of_bounds
      else if debug_level (balancer lb) > 3 \<and> unused_sessions lb ! nat (uq_head lb) = None
      then Inl Uninitialised
      else if session_limit (balancer lb) = 0 then Inl Div_by_zero
      else Inr (lb\<lparr>uq_head := (uq_head lb + 1) mod session_limit (balancer lb)\<rparr>))"

section \<open>Closing\<close>

definition conn_done :: "SERVER \<Rightarrow> SERVER" where
  "conn_done x = x\<lparr>srv_c := srv_c x - 1, srv_completed_c := srv_completed_c x + 1\<rparr>"

definition disconnect_clone :: "nat \<Rightarrow> LB \<Rightarrow> LB res" where
  "disconnect_clone s lb =
     (let x = sessions lb ! s in
      if clonefd x \<ge> 0 then
        res_bind (deref (ses_clone x)) (\<lambda>k.
          let lb = upd_ses s (clear_bits STATE_CLO_CONNECTED) lb;
              lb = upd_bal (upd_clone k conn_done) lb;
              lb = close_fd (clonefd x) lb
          in Inr (upd_ses s (\<lambda>x. x\<lparr>clonefd := - 1\<rparr>) lb))
      else Inr lb)"

definition disconnect_member :: "nat \<Rightarrow> LB \<Rightarrow> LB res" where
  "disconnect_member s lb =
     (let x = sessions lb ! s in
      if memberfd x \<ge> 0 then
        res_bind (deref (ses_member x)) (\<lambda>m.
          let lb = upd_ses s (clear_bits STATE_MEM_CONNECTED) lb;
              lb = upd_bal (upd_member m conn_done) lb;
              lb = close_fd (memberfd x) lb
          in Inr (upd_ses s (\<lambda>x. x\<lparr>memberfd := - 1\<rparr>) lb))
      else Inr lb)"

definition disconnect_client :: "nat \<Rightarrow> LB \<Rightarrow> LB" where
  "disconnect_client s lb =
     (let x = sessions lb ! s in
      if clientfd x \<ge> 0 then
        (let lb = upd_ses s (clear_bits STATE_CLI_CONNECTED) lb;
             lb = close_fd (clientfd x) lb
         in upd_ses s (\<lambda>x. x\<lparr>clientfd := - 1\<rparr>) lb)
      else lb)"

definition session_reset :: "SESSION \<Rightarrow> SESSION" where
  "session_reset x =
     x\<lparr>ses_state := STATE_UNUSED, client_used_buffer := 0, member_used_buffer := 0, clone_used_buffer := 0\<rparr>"

definition delete_session :: "nat \<Rightarrow> LB \<Rightarrow> LB res" where
  "delete_session s lb =
     (let lb = (if flag (sessions lb ! s) STATE_CLI_CONNECTED then disconnect_client s lb else lb) in
      res_bind (if flag (sessions lb ! s) STATE_MEM_CONNECTED then disconnect_member s lb else Inr lb) (\<lambda>lb.
      res_bind (if flag (sessions lb ! s) STATE_CLO_CONNECTED then disconnect_clone s lb else Inr lb) (\<lambda>lb.
      add_unused_session s (upd_ses s session_reset lb))))"

section \<open>Bit and frame lemmas\<close>

lemma has_iff: "has st m \<longleftrightarrow> (\<exists>n<32. bit st n \<and> bit m n)"
  by (simp add: has_def bit_eq_iff bit_and_iff)

lemma has_or [simp]: "has (st OR a) m \<longleftrightarrow> has st m \<or> has a m"
  by (auto simp: has_iff bit_or_iff)

lemma has_clear [simp]:
  "has (st AND NOT a) a = False"
  "a AND m = 0 \<Longrightarrow> has (st AND NOT a) m = has st m"
proof -
  show "has (st AND NOT a) a = False" by (auto simp: has_iff bit_and_iff bit_not_iff)
  assume "a AND m = 0"
  then have "\<not> (bit a n \<and> bit m n)" for n by (metis bit_0_eq bit_and_iff bot_apply bot_bool_def)
  then show "has (st AND NOT a) m = has st m"
    by (auto simp: has_iff bit_and_iff bit_not_iff dest: bit_imp_possible_bit)
qed

lemma has_zero [simp]: "has 0 m = False"
  by (simp add: has_def)

lemma has_numeral [simp]: "has (numeral a) (numeral b) \<longleftrightarrow> (numeral a AND numeral b :: 32 word) \<noteq> 0"
  by (simp add: has_def)

text \<open>The fields that the basic updates keep.\<close>

lemma upd_ses_simps [simp, upd_simps]:
  "balancer (upd_ses s f lb) = balancer lb"
  "next_member (upd_ses s f lb) = next_member lb"
  "next_clone (upd_ses s f lb) = next_clone lb"
  "available_members (upd_ses s f lb) = available_members lb"
  "available_clones (upd_ses s f lb) = available_clones lb"
  "use_clone (upd_ses s f lb) = use_clone lb"
  "using_member_standby (upd_ses s f lb) = using_member_standby lb"
  "using_clone_standby (upd_ses s f lb) = using_clone_standby lb"
  "sessions (upd_ses s f lb) = (sessions lb)[s := f (sessions lb ! s)]"
  "unused_sessions (upd_ses s f lb) = unused_sessions lb"
  "uq_head (upd_ses s f lb) = uq_head lb"
  "uq_rear (upd_ses s f lb) = uq_rear lb"
  "fds (upd_ses s f lb) = fds lb"
  "interest (upd_ses s f lb) = interest lb"
  by (simp_all add: upd_ses_def)

lemma upd_bal_simps [simp, upd_simps]:
  "balancer (upd_bal f lb) = f (balancer lb)"
  "next_member (upd_bal f lb) = next_member lb"
  "next_clone (upd_bal f lb) = next_clone lb"
  "available_members (upd_bal f lb) = available_members lb"
  "available_clones (upd_bal f lb) = available_clones lb"
  "use_clone (upd_bal f lb) = use_clone lb"
  "using_member_standby (upd_bal f lb) = using_member_standby lb"
  "using_clone_standby (upd_bal f lb) = using_clone_standby lb"
  "sessions (upd_bal f lb) = sessions lb"
  "unused_sessions (upd_bal f lb) = unused_sessions lb"
  "uq_head (upd_bal f lb) = uq_head lb"
  "uq_rear (upd_bal f lb) = uq_rear lb"
  "fds (upd_bal f lb) = fds lb"
  "interest (upd_bal f lb) = interest lb"
  by (simp_all add: upd_bal_def)

lemma epoll_add_simps [simp, upd_simps]:
  "balancer (epoll_add fd ev lb) = balancer lb"
  "next_member (epoll_add fd ev lb) = next_member lb"
  "next_clone (epoll_add fd ev lb) = next_clone lb"
  "available_members (epoll_add fd ev lb) = available_members lb"
  "available_clones (epoll_add fd ev lb) = available_clones lb"
  "use_clone (epoll_add fd ev lb) = use_clone lb"
  "using_member_standby (epoll_add fd ev lb) = using_member_standby lb"
  "using_clone_standby (epoll_add fd ev lb) = using_clone_standby lb"
  "sessions (epoll_add fd ev lb) = sessions lb"
  "unused_sessions (epoll_add fd ev lb) = unused_sessions lb"
  "uq_head (epoll_add fd ev lb) = uq_head lb"
  "uq_rear (epoll_add fd ev lb) = uq_rear lb"
  "fds (epoll_add fd ev lb) = fds lb"
  "interest (epoll_add fd ev lb) = (interest lb)(fd \<mapsto> ev)"
  by (simp_all add: epoll_add_def)

lemma epoll_mod_simps [simp, upd_simps]:
  "balancer (epoll_mod fd ev lb) = balancer lb"
  "next_member (epoll_mod fd ev lb) = next_member lb"
  "next_clone (epoll_mod fd ev lb) = next_clone lb"
  "available_members (epoll_mod fd ev lb) = available_members lb"
  "available_clones (epoll_mod fd ev lb) = available_clones lb"
  "use_clone (epoll_mod fd ev lb) = use_clone lb"
  "using_member_standby (epoll_mod fd ev lb) = using_member_standby lb"
  "using_clone_standby (epoll_mod fd ev lb) = using_clone_standby lb"
  "sessions (epoll_mod fd ev lb) = sessions lb"
  "unused_sessions (epoll_mod fd ev lb) = unused_sessions lb"
  "uq_head (epoll_mod fd ev lb) = uq_head lb"
  "uq_rear (epoll_mod fd ev lb) = uq_rear lb"
  "fds (epoll_mod fd ev lb) = fds lb"
  by (simp_all add: epoll_mod_def)

lemma close_fd_simps [simp, upd_simps]:
  "balancer (close_fd fd lb) = balancer lb"
  "next_member (close_fd fd lb) = next_member lb"
  "next_clone (close_fd fd lb) = next_clone lb"
  "available_members (close_fd fd lb) = available_members lb"
  "available_clones (close_fd fd lb) = available_clones lb"
  "use_clone (close_fd fd lb) = use_clone lb"
  "using_member_standby (close_fd fd lb) = using_member_standby lb"
  "using_clone_standby (close_fd fd lb) = using_clone_standby lb"
  "sessions (close_fd fd lb) = sessions lb"
  "unused_sessions (close_fd fd lb) = unused_sessions lb"
  "uq_head (close_fd fd lb) = uq_head lb"
  "uq_rear (close_fd fd lb) = uq_rear lb"
  "fds (close_fd fd lb) = fds lb"
  "interest (close_fd fd lb) = (interest lb)(fd := None)"
  by (simp_all add: close_fd_def)

lemma reject_log_simps [simp, upd_simps]:
  "balancer (reject_log lb) = (balancer lb)\<lparr>connection_rejected_log_suppress := True\<rparr>"
  "next_member (reject_log lb) = next_member lb"
  "next_clone (reject_log lb) = next_clone lb"
  "available_members (reject_log lb) = available_members lb"
  "available_clones (reject_log lb) = available_clones lb"
  "use_clone (reject_log lb) = use_clone lb"
  "using_member_standby (reject_log lb) = using_member_standby lb"
  "using_clone_standby (reject_log lb) = using_clone_standby lb"
  "sessions (reject_log lb) = sessions lb"
  "unused_sessions (reject_log lb) = unused_sessions lb"
  "uq_head (reject_log lb) = uq_head lb"
  "uq_rear (reject_log lb) = uq_rear lb"
  "fds (reject_log lb) = fds lb"
  "interest (reject_log lb) = interest lb"
  by (simp_all add: reject_log_def)

lemma bits_simps [simp]:
  "clientfd (set_bits m x) = clientfd x" "clientfd (clear_bits m x) = clientfd x"
  "memberfd (set_bits m x) = memberfd x" "memberfd (clear_bits m x) = memberfd x"
  "clonefd (set_bits m x) = clonefd x" "clonefd (clear_bits m x) = clonefd x"
  "ses_member (set_bits m x) = ses_member x" "ses_member (clear_bits m x) = ses_member x"
  "ses_clone (set_bits m x) = ses_clone x" "ses_clone (clear_bits m x) = ses_clone x"
  "member_read_buffer (set_bits m x) = member_read_buffer x" "member_read_buffer (clear_bits m x) = member_read_buffer x"
  "client_read_buffer (set_bits m x) = client_read_buffer x" "client_read_buffer (clear_bits m x) = client_read_buffer x"
  "clone_write_buffer (set_bits m x) = clone_write_buffer x" "clone_write_buffer (clear_bits m x) = clone_write_buffer x"
  "member_used_buffer (set_bits m x) = member_used_buffer x" "member_used_buffer (clear_bits m x) = member_used_buffer x"
  "client_used_buffer (set_bits m x) = client_used_buffer x" "client_used_buffer (clear_bits m x) = client_used_buffer x"
  "clone_used_buffer (set_bits m x) = clone_used_buffer x" "clone_used_buffer (clear_bits m x) = clone_used_buffer x"
  by (simp_all add: set_bits_def clear_bits_def)

lemma flag_bits [simp]:
  "flag (set_bits m x) k \<longleftrightarrow> flag x k \<or> has m k" "flag (clear_bits m x) m = False"
  "m AND k = 0 \<Longrightarrow> flag (clear_bits m x) k = flag x k"
  by (simp_all add: flag_def set_bits_def clear_bits_def)

lemma flag_fields [simp]:
  "flag (x\<lparr>ses_id := v0\<rparr>) m = flag x m"
  "flag (x\<lparr>clientfd := v1\<rparr>) m = flag x m"
  "flag (x\<lparr>memberfd := v2\<rparr>) m = flag x m"
  "flag (x\<lparr>clonefd := v3\<rparr>) m = flag x m"
  "flag (x\<lparr>member_read_buffer := v4\<rparr>) m = flag x m"
  "flag (x\<lparr>client_read_buffer := v5\<rparr>) m = flag x m"
  "flag (x\<lparr>clone_write_buffer := v6\<rparr>) m = flag x m"
  "flag (x\<lparr>member_used_buffer := v7\<rparr>) m = flag x m"
  "flag (x\<lparr>client_used_buffer := v8\<rparr>) m = flag x m"
  "flag (x\<lparr>clone_used_buffer := v9\<rparr>) m = flag x m"
  "flag (x\<lparr>ses_member := v10\<rparr>) m = flag x m"
  "flag (x\<lparr>ses_clone := v11\<rparr>) m = flag x m"
  by (simp_all add: flag_def)

lemma fd_session_cong [simp]:
  "fd_session fd (upd_ses s f lb) = fd_session fd lb" "fd_session fd (upd_bal g lb) = fd_session fd lb"
  "fd_session fd (epoll_mod fd' ev lb) = fd_session fd lb" "fd_session fd (epoll_add fd' ev lb) = fd_session fd lb"
  "fd_session fd (close_fd fd' lb) = fd_session fd lb" "fd_session fd (reject_log lb) = fd_session fd lb"
  by (simp_all add: fd_session_def)

end
