(* ===== verification/Connect.thy ===== *)
theory Connect
  imports Sessions
begin

text \<open>
  Connecting a session to its servers, connect.c, and the choice of the servers, \<open>choose_server\<close> of
  algorithms.c. What the system calls return is an argument: the record \<open>SOCK\<close> has one field per call,
  in the order of the calls; \<open>sk_connect\<close> holds when \<open>connect\<close> returns 0 or fails with EINPROGRESS.
  A field is \<open>True\<close> when its call succeeds. A descriptor that an error path does not close stays open.
\<close>

record SOCK =
  sk_socket :: int
  sk_nonblock :: bool
  sk_nodelay :: bool
  sk_sndbuf :: bool
  sk_rcvbuf :: bool
  sk_reuseaddr :: bool
  sk_keepalive :: bool
  sk_bind :: bool
  sk_connect :: bool
  sk_epoll_add :: bool

definition conn_start :: "SERVER \<Rightarrow> SERVER" where
  "conn_start x = x\<lparr>srv_c := srv_c x + 1\<rparr>"

text \<open>A warning that does not stop the function.\<close>

definition warn_unless :: "bool \<Rightarrow> LB \<Rightarrow> LB" where
  "warn_unless okay lb = (if okay then lb else reject_log lb)"

definition connect_member :: "nat \<Rightarrow> SOCK \<Rightarrow> LB \<Rightarrow> (int \<times> LB) res" where
  "connect_member s k lb =
     (if sk_socket k < 0 then Inr (- 1, reject_log lb)
      else if \<not> sk_nonblock k then Inr (- 1, reject_log lb)
      else
        (let serverfd = sk_socket k;
             lb = warn_unless (sk_nodelay k) lb;
             lb = warn_unless (sk_reuseaddr k) lb
         in if \<not> sk_bind k then Inr (- 1, reject_log lb)
            else if \<not> sk_connect k then Inr (- 1, reject_log lb)
            else
              (let lb = upd_ses s (\<lambda>x. x\<lparr>ses_member := Some (next_member lb)\<rparr>) lb;
                   lb = upd_ses s (\<lambda>x. x\<lparr>memberfd := serverfd\<rparr>) lb
               in res_bind (set_fd_session serverfd (Some s) lb) (\<lambda>lb.
                    if \<not> sk_epoll_add k then Inr (- 1, reject_log lb)
                    else
                      (let lb = epoll_add serverfd ro_ev lb;
                           lb = upd_bal (upd_member (next_member lb) conn_start) lb;
                           lb = upd_ses s (set_bits STATE_MEM_CONNECTED) lb;
                           lb = upd_ses s (set_bits STATE_MEM_READ_READY) lb
                       in Inr (0, lb))))))"

definition connect_clone :: "nat \<Rightarrow> SOCK \<Rightarrow> LB \<Rightarrow> (int \<times> LB) res" where
  "connect_clone s k lb =
     (if sk_socket k < 0 then Inr (1, reject_log lb)
      else if \<not> sk_nonblock k then Inr (1, reject_log lb)
      else
        (let clofd = sk_socket k;
             lb = warn_unless (sk_nodelay k) lb
         in if \<not> sk_sndbuf k \<or> \<not> sk_rcvbuf k \<or> \<not> sk_reuseaddr k \<or> \<not> sk_keepalive k then Inr (1, reject_log lb)
            else if \<not> sk_bind k then Inr (- 1, reject_log lb)
            else if \<not> sk_connect k then Inr (1, reject_log lb)
            else
              (let lb = upd_ses s (\<lambda>x. x\<lparr>ses_clone := Some (next_clone lb)\<rparr>) lb;
                   lb = upd_ses s (\<lambda>x. x\<lparr>clonefd := clofd\<rparr>) lb
               in res_bind (set_fd_session clofd (Some s) lb) (\<lambda>lb.
                    if \<not> sk_epoll_add k then Inr (1, reject_log lb)
                    else
                      (let lb = epoll_add clofd ro_ev lb;
                           lb = upd_bal (upd_clone (next_clone lb) conn_start) lb;
                           lb = upd_ses s (set_bits STATE_CLO_CONNECTED) lb;
                           lb = upd_ses s (set_bits STATE_CLO_READ_READY) lb
                       in Inr (0, lb))))))"

definition connect_server :: "nat \<Rightarrow> SOCK \<Rightarrow> SOCK \<Rightarrow> LB \<Rightarrow> (int \<times> LB) res" where
  "connect_server s km kc lb =
     res_bind (if memberfd (sessions lb ! s) = - 1 then connect_member s km lb else Inr (0, lb)) (\<lambda>(st, lb).
       if st = - 1 then Inr (- 1, lb)
       else if use_clone lb \<and> clonefd (sessions lb ! s) = - 1 then connect_clone s kc lb
       else Inr (0, lb))"

definition choose_server :: "nat \<Rightarrow> SOCK \<Rightarrow> SOCK \<Rightarrow> LB \<Rightarrow> (int \<times> LB) res" where
  "choose_server s km kc lb =
     (let (status, lb) = get_available_servers lb in
      if status \<noteq> 0 then Inr (- 1, lb)
      else res_bind (run_algorithm (client_read_buffer (sessions lb ! s)) lb) (connect_server s km kc))"

end
