(* ===== verification/Relay.thy ===== *)
theory Relay
  imports Connect
begin

text \<open>
  The event handlers of octopus.c: reading from and writing to the client, the member and the clone of
  a session, accepting a client, and the dispatch of one epoll event. Results of \<open>read\<close> and \<open>write\<close> are
  arguments: \<open>Rd bs\<close> delivers the bytes \<open>bs\<close> (none at end of file), a negative \<open>int\<close> is a failed write.
  The return values of the handlers, which the main loop ignores, are left out.
\<close>

datatype io_read = Rd_err | Rd "byte list"

section \<open>Buffer steps of a session\<close>

definition client_recv :: "byte list \<Rightarrow> SESSION \<Rightarrow> SESSION" where
  "client_recv bs x = x\<lparr>client_read_buffer := buf_append (client_read_buffer x) (client_used_buffer x) bs,
     client_used_buffer := client_used_buffer x + length bs\<rparr>"

text \<open>The copy of the last \<open>n\<close> bytes read from the client into the clone's buffer.\<close>

definition clone_recv :: "nat \<Rightarrow> SESSION \<Rightarrow> SESSION" where
  "clone_recv n x =
     (let bs = take n (drop (client_used_buffer x - n) (client_read_buffer x)) in
      x\<lparr>clone_write_buffer := buf_append (clone_write_buffer x) (clone_used_buffer x) (strncpy_bytes bs),
        clone_used_buffer := clone_used_buffer x + n\<rparr>)"

definition client_full_check :: "SESSION \<Rightarrow> SESSION" where
  "client_full_check x =
     (if client_used_buffer x = MESSAGE_SIZE_LIMIT
      then clear_bits STATE_CLI_READ_READY (set_bits STATE_CLI_BUFF_FULL x) else x)"

definition client_sent :: "nat \<Rightarrow> SESSION \<Rightarrow> SESSION" where
  "client_sent n x =
     (let x = x\<lparr>member_used_buffer := member_used_buffer x - n\<rparr> in
      if member_used_buffer x = 0 then clear_bits STATE_CLI_WRITE_READY x
      else x\<lparr>member_read_buffer := memcpy_front (member_read_buffer x) n 0 (member_used_buffer x)\<rparr>)"

definition member_unfull :: "SESSION \<Rightarrow> SESSION" where
  "member_unfull x =
     (if flag x STATE_MEM_BUFF_FULL
      then set_bits STATE_MEM_READ_READY (clear_bits STATE_MEM_BUFF_FULL x) else x)"

definition member_recv :: "byte list \<Rightarrow> SESSION \<Rightarrow> SESSION" where
  "member_recv bs x =
     (let x = x\<lparr>member_read_buffer := buf_append (member_read_buffer x) (member_used_buffer x) bs,
                member_used_buffer := member_used_buffer x + length bs\<rparr>;
          x = set_bits STATE_CLI_WRITE_READY x
      in if member_used_buffer x = MESSAGE_SIZE_LIMIT
         then clear_bits STATE_MEM_READ_READY (set_bits STATE_MEM_BUFF_FULL x) else x)"

definition member_sent :: "nat \<Rightarrow> SESSION \<Rightarrow> SESSION" where
  "member_sent n x =
     (let x = x\<lparr>client_used_buffer := client_used_buffer x - n\<rparr>;
          x = set_bits STATE_MEM_READ_READY x;
          x = (if client_used_buffer x = 0 then clear_bits STATE_MEM_WRITE_READY x
               else x\<lparr>client_read_buffer := memcpy_front (client_read_buffer x) n 0 (client_used_buffer x)\<rparr>)
      in if flag x STATE_CLI_BUFF_FULL
         then set_bits STATE_CLI_READ_READY (clear_bits STATE_CLI_BUFF_FULL x) else x)"

definition clone_sent :: "nat \<Rightarrow> SESSION \<Rightarrow> SESSION" where
  "clone_sent n x =
     (let x = x\<lparr>clone_used_buffer := clone_used_buffer x - n\<rparr>;
          x = set_bits STATE_CLO_READ_READY x
      in if clone_used_buffer x = 0 then clear_bits STATE_CLO_WRITE_READY x
         else x\<lparr>clone_write_buffer := memcpy_front (clone_write_buffer x) n 0 (clone_used_buffer x)\<rparr>)"

section \<open>Socket maintenance\<close>

text \<open>The epoll interest that follows from the two readiness bits of a side.\<close>

definition interest_of :: "bool \<Rightarrow> bool \<Rightarrow> epoll_ev" where
  "interest_of rd wr = (if rd \<and> wr then rw_ev else if wr then wr_ev else if rd then ro_ev else null_ev)"

definition maintain_client :: "nat \<Rightarrow> LB \<Rightarrow> LB" where
  "maintain_client s lb =
     (let x = sessions lb ! s
      in epoll_mod (clientfd x) (interest_of (flag x STATE_CLI_READ_READY) (flag x STATE_CLI_WRITE_READY)) lb)"

definition maintain_member :: "nat \<Rightarrow> LB \<Rightarrow> LB" where
  "maintain_member s lb =
     (let x = sessions lb ! s
      in epoll_mod (memberfd x) (interest_of (flag x STATE_MEM_READ_READY) (flag x STATE_MEM_WRITE_READY)) lb)"

section \<open>Handlers\<close>

text \<open>
  \<open>client_read\<close>. The boolean of the first part says that the function returned there, because no
  server could be chosen for a fresh session.
\<close>

definition client_read_fresh :: "nat \<Rightarrow> SOCK \<Rightarrow> SOCK \<Rightarrow> LB \<Rightarrow> (bool \<times> LB) res" where
  "client_read_fresh s km kc lb =
     (if flag (sessions lb ! s) STATE_FRESH then
        res_bind (choose_server s km kc lb) (\<lambda>(status, lb).
          if status = - 1 then res_bind (delete_session s (reject_log lb)) (\<lambda>lb. Inr (True, lb))
          else Inr (False, upd_ses s (clear_bits STATE_FRESH) lb))
      else Inr (False, lb))"

definition client_read_clone :: "nat \<Rightarrow> nat \<Rightarrow> LB \<Rightarrow> LB res" where
  "client_read_clone s nbytes lb =
     (if flag (sessions lb ! s) STATE_CLO_CONNECTED then
        (if nbytes > MESSAGE_SIZE_LIMIT - clone_used_buffer (sessions lb ! s) then disconnect_clone s lb
         else Inr (upd_ses s (clone_recv nbytes) lb))
      else Inr lb)"

definition client_read_maintain :: "nat \<Rightarrow> LB \<Rightarrow> LB" where
  "client_read_maintain s lb =
     (let lb = upd_ses s (set_bits STATE_MEM_WRITE_READY) lb;
          lb = upd_ses s (set_bits STATE_CLO_WRITE_READY) lb;
          lb = upd_ses s client_full_check lb;
          x = sessions lb ! s;
          lb = maintain_client s lb;
          lb = epoll_mod (memberfd x) (if flag x STATE_MEM_READ_READY then rw_ev else wr_ev) lb
      in if flag x STATE_CLO_CONNECTED then epoll_mod (clonefd x) rw_ev lb else lb)"

definition client_read :: "int \<Rightarrow> io_read \<Rightarrow> SOCK \<Rightarrow> SOCK \<Rightarrow> LB \<Rightarrow> LB res" where
  "client_read fd rd km kc lb =
     res_bind (fd_session fd lb) (\<lambda>s.
       case rd of
         Rd_err \<Rightarrow> delete_session s lb
       | Rd bs \<Rightarrow>
           if bs = [] then delete_session s lb
           else
             res_bind (client_read_fresh s km kc (upd_ses s (client_recv bs) lb)) (\<lambda>(returned, lb).
               if returned then Inr lb
               else res_bind (client_read_clone s (length bs) lb) (\<lambda>lb. Inr (client_read_maintain s lb))))"

definition client_write :: "int \<Rightarrow> int \<Rightarrow> LB \<Rightarrow> LB res" where
  "client_write fd nbytes lb =
     res_bind (fd_session fd lb) (\<lambda>s.
       if nbytes < 0 then delete_session s lb
       else
         (let lb = upd_ses s (client_sent (nat nbytes)) lb; x = sessions lb ! s in
          if member_used_buffer x = 0 \<and> \<not> flag x STATE_MEM_CONNECTED then delete_session s lb
          else Inr (maintain_member s (maintain_client s (upd_ses s member_unfull lb)))))"

definition brecv_add :: "nat \<Rightarrow> SERVER \<Rightarrow> SERVER" where
  "brecv_add n x = x\<lparr>srv_brecv := srv_brecv x + of_nat n\<rparr>"

definition bsent_add :: "nat \<Rightarrow> SERVER \<Rightarrow> SERVER" where
  "bsent_add n x = x\<lparr>srv_bsent := srv_bsent x + of_nat n\<rparr>"

text \<open>Both failure branches of \<open>member_read\<close>, error and end of file, do the same.\<close>

definition member_read :: "int \<Rightarrow> io_read \<Rightarrow> LB \<Rightarrow> LB res" where
  "member_read fd rd lb =
     res_bind (fd_session fd lb) (\<lambda>s.
       let x = sessions lb ! s in
       case rd of
         Rd_err \<Rightarrow> if \<not> flag x STATE_CLI_WRITE_READY then delete_session s lb else disconnect_member s lb
       | Rd bs \<Rightarrow>
           if bs = [] then (if \<not> flag x STATE_CLI_WRITE_READY then delete_session s lb else disconnect_member s lb)
           else
             res_bind (deref (ses_member x)) (\<lambda>m.
               let lb = upd_bal (upd_member m (brecv_add (length bs))) (upd_ses s (member_recv bs) lb);
                   x = sessions lb ! s;
                   lb = epoll_mod (clientfd x) (if flag x STATE_CLI_READ_READY then rw_ev else wr_ev) lb
               in Inr (maintain_member s lb)))"

definition member_write :: "int \<Rightarrow> int \<Rightarrow> LB \<Rightarrow> LB res" where
  "member_write fd nbytes lb =
     res_bind (fd_session fd lb) (\<lambda>s.
       if nbytes < 0 then disconnect_member s lb
       else
         res_bind (deref (ses_member (sessions lb ! s))) (\<lambda>m.
           let lb = upd_bal (upd_member m (bsent_add (nat nbytes))) (upd_ses s (member_sent (nat nbytes)) lb);
               x = sessions lb ! s;
               lb = epoll_mod (clientfd x) (if flag x STATE_CLI_WRITE_READY then rw_ev else ro_ev) lb
           in Inr (maintain_member s lb)))"

definition clone_read :: "int \<Rightarrow> io_read \<Rightarrow> LB \<Rightarrow> LB res" where
  "clone_read fd rd lb =
     res_bind (fd_session fd lb) (\<lambda>s.
       case rd of
         Rd_err \<Rightarrow> disconnect_clone s lb
       | Rd bs \<Rightarrow>
           if bs = [] then disconnect_clone s lb
           else res_bind (deref (ses_clone (sessions lb ! s))) (\<lambda>k.
                  Inr (upd_bal (upd_clone k (brecv_add (length bs))) lb)))"

definition clone_write :: "int \<Rightarrow> int \<Rightarrow> LB \<Rightarrow> LB res" where
  "clone_write fd nbytes lb =
     res_bind (fd_session fd lb) (\<lambda>s.
       if nbytes < 0 then disconnect_clone s lb
       else
         res_bind (deref (ses_clone (sessions lb ! s))) (\<lambda>k.
           let lb = upd_bal (upd_clone k (bsent_add (nat nbytes))) (upd_ses s (clone_sent (nat nbytes)) lb);
               x = sessions lb ! s
           in Inr (epoll_mod (clonefd x) (if flag x STATE_CLO_WRITE_READY then rw_ev else ro_ev) lb)))"

section \<open>Accepting a client\<close>

record ACCEPT =
  ac_fd :: int
  ac_nonblock :: bool
  ac_nodelay :: bool
  ac_epoll_add :: bool

definition accept_client :: "ACCEPT \<Rightarrow> SOCK \<Rightarrow> SOCK \<Rightarrow> LB \<Rightarrow> LB res" where
  "accept_client a km kc lb =
     (let incomingfd = ac_fd a in
      if incomingfd < 0 then Inr (reject_log lb)
      else if \<not> ac_nonblock a then Inr (close_fd incomingfd (reject_log lb))
      else if \<not> ac_nodelay a then Inr (close_fd incomingfd (reject_log lb))
      else
        res_bind (get_new_session lb) (\<lambda>(p, lb).
        res_bind (set_fd_session incomingfd p lb) (\<lambda>lb.
          case p of
            None \<Rightarrow> Inr (reject_log (close_fd incomingfd lb))
          | Some s \<Rightarrow>
              (let lb = upd_ses s (set_bits STATE_CLI_CONNECTED) lb;
                   lb = upd_ses s (set_bits STATE_CLI_READ_READY) lb;
                   lb = upd_ses s (\<lambda>x. x\<lparr>clientfd := incomingfd\<rparr>) lb
               in if \<not> ac_epoll_add a then delete_session s (reject_log lb)
                  else
                    (let lb = epoll_add incomingfd ro_ev lb in
                     if algorithm (balancer lb) \<noteq> ALGORITHM_HASH \<and> algorithm (balancer lb) \<noteq> ALGORITHM_STATIC
                     then res_bind (choose_server s km kc lb) (\<lambda>(status, lb).
                            if status = - 1 then delete_session s (reject_log lb)
                            else Inr (upd_ses s (clear_bits STATE_FRESH) lb))
                     else Inr lb)))))"

section \<open>The event loop\<close>

text \<open>
  One epoll event with the outcomes of the system calls its handlers make, and the body of the loop
  over the events of one \<open>epoll_wait\<close>.
\<close>

record EVENT =
  ev_fd :: int
  ev_in :: bool
  ev_out :: bool
  ev_err :: bool
  ev_hup :: bool
  ev_read :: io_read
  ev_write :: int
  ev_accept :: ACCEPT
  ev_msock :: SOCK
  ev_csock :: SOCK

definition io_event ::
  "(LB \<Rightarrow> LB res) \<Rightarrow> (LB \<Rightarrow> LB res) \<Rightarrow> (LB \<Rightarrow> LB res) \<Rightarrow> EVENT \<Rightarrow> LB \<Rightarrow> LB res" where
  "io_event on_fail on_in on_out ev lb =
     (if ev_err ev then on_fail lb
      else if ev_hup ev then on_fail lb
      else res_bind (if ev_in ev then on_in lb else Inr lb) (\<lambda>lb. if ev_out ev then on_out lb else Inr lb))"

definition handle_event :: "int \<Rightarrow> EVENT \<Rightarrow> LB \<Rightarrow> LB res" where
  "handle_event listenerfd ev lb =
     (if ev_fd ev = listenerfd then
        (if ev_in ev then accept_client (ev_accept ev) (ev_msock ev) (ev_csock ev) lb else Inr lb)
      else
        (let fd = ev_fd ev in
         res_bind (fd_session fd lb) (\<lambda>s.
           let x = sessions lb ! s in
           if fd = clientfd x then
             io_event (delete_session s) (client_read fd (ev_read ev) (ev_msock ev) (ev_csock ev))
               (client_write fd (ev_write ev)) ev lb
           else if fd = memberfd x then
             io_event (disconnect_member s) (member_read fd (ev_read ev)) (member_write fd (ev_write ev)) ev lb
           else if fd = clonefd x then
             io_event (disconnect_clone s) (clone_read fd (ev_read ev)) (clone_write fd (ev_write ev)) ev lb
           else Inr lb)))"

fun handle_events :: "int \<Rightarrow> EVENT list \<Rightarrow> LB \<Rightarrow> LB res" where
  "handle_events listenerfd [] lb = Inr lb"
| "handle_events listenerfd (ev # evs) lb =
     res_bind (handle_event listenerfd ev lb) (handle_events listenerfd evs)"

end
