(* ===== verification/Session_Inv.thy ===== *)
theory Session_Inv
  imports Relay
begin

text \<open>
  The invariant of the server process and its preservation by every session operation: buffers stay
  inside their arrays, the connection bits agree with the file descriptors, and the connection count
  \<open>c\<close> of every server equals the number of sessions connected to it.
\<close>

section \<open>The invariant\<close>

definition ses_shape :: "SESSION \<Rightarrow> bool" where
  "ses_shape x \<longleftrightarrow>
     length (member_read_buffer x) = MESSAGE_SIZE_LIMIT \<and> length (client_read_buffer x) = MESSAGE_SIZE_LIMIT \<and>
     length (clone_write_buffer x) = MESSAGE_SIZE_LIMIT \<and> member_used_buffer x \<le> MESSAGE_SIZE_LIMIT \<and>
     client_used_buffer x \<le> MESSAGE_SIZE_LIMIT \<and> clone_used_buffer x \<le> MESSAGE_SIZE_LIMIT"

definition ses_conn :: "SESSION \<Rightarrow> bool" where
  "ses_conn x \<longleftrightarrow>
     (flag x STATE_CLI_CONNECTED \<longleftrightarrow> 0 \<le> clientfd x) \<and>
     (flag x STATE_MEM_CONNECTED \<longleftrightarrow> 0 \<le> memberfd x) \<and>
     (flag x STATE_CLO_CONNECTED \<longleftrightarrow> 0 \<le> clonefd x) \<and>
     \<not> flag x STATE_FRESH \<and> - 1 \<le> memberfd x \<and> - 1 \<le> clonefd x \<and>
     (flag x STATE_MEM_CONNECTED \<longrightarrow> (\<exists>m<MAXSERVERS. ses_member x = Some m)) \<and>
     (flag x STATE_CLO_CONNECTED \<longrightarrow> (\<exists>k<MAXSERVERS. ses_clone x = Some k))"

definition uses_member :: "nat \<Rightarrow> SESSION \<Rightarrow> bool" where
  "uses_member m x \<longleftrightarrow> flag x STATE_MEM_CONNECTED \<and> ses_member x = Some m"

definition uses_clone :: "nat \<Rightarrow> SESSION \<Rightarrow> bool" where
  "uses_clone k x \<longleftrightarrow> flag x STATE_CLO_CONNECTED \<and> ses_clone x = Some k"

definition counts_ok :: "LB \<Rightarrow> bool" where
  "counts_ok lb \<longleftrightarrow> (\<forall>i<MAXSERVERS.
     srv_c (members (balancer lb) ! i) = int (length (filter (uses_member i) (sessions lb))) \<and>
     srv_c (clones (balancer lb) ! i) = int (length (filter (uses_clone i) (sessions lb))))"

definition queue_ok :: "LB \<Rightarrow> bool" where
  "queue_ok lb \<longleftrightarrow>
     0 < session_limit (balancer lb) \<and> int (length (sessions lb)) = session_limit (balancer lb) \<and>
     int (length (unused_sessions lb)) = session_limit (balancer lb) \<and>
     0 \<le> uq_head lb \<and> uq_head lb < session_limit (balancer lb) \<and>
     0 \<le> uq_rear lb \<and> uq_rear lb < session_limit (balancer lb) \<and>
     (\<forall>s. Some s \<in> set (unused_sessions lb) \<longrightarrow> s < length (sessions lb))"

definition lb_ok :: "LB \<Rightarrow> bool" where
  "lb_ok lb \<longleftrightarrow>
     balancer_ok (balancer lb) \<and> next_member lb < MAXSERVERS \<and> next_clone lb < MAXSERVERS \<and>
     queue_ok lb \<and> (\<forall>s. Some s \<in> set (fds lb) \<longrightarrow> s < length (sessions lb)) \<and>
     (\<forall>x \<in> set (sessions lb). ses_shape x \<and> ses_conn x) \<and> counts_ok lb"

lemma lb_okD:
  assumes "lb_ok lb"
  shows "balancer_ok (balancer lb)" "next_member lb < MAXSERVERS" "next_clone lb < MAXSERVERS"
    "queue_ok lb" "counts_ok lb"
    "\<And>s. s < length (sessions lb) \<Longrightarrow> ses_shape (sessions lb ! s)"
    "\<And>s. s < length (sessions lb) \<Longrightarrow> ses_conn (sessions lb ! s)"
    "\<And>s. Some s \<in> set (fds lb) \<Longrightarrow> s < length (sessions lb)"
  using assms by (auto simp: lb_ok_def)

lemma fd_session_bound:
  assumes "lb_ok lb" and "fd_session fd lb = Inr s"
  shows "s < length (sessions lb)" and "0 \<le> fd"
proof -
  have "0 \<le> fd" and f: "nat fd < length (fds lb)" "fds lb ! nat fd = Some s"
    using assms(2) by (auto simp: fd_session_def split: if_splits)
  then show "0 \<le> fd" and "s < length (sessions lb)" using lb_okD(8) [OF assms(1)] by (auto simp flip: f(2))
qed

lemma ses_connD:
  assumes "ses_conn x"
  shows "flag x STATE_CLI_CONNECTED \<longleftrightarrow> 0 \<le> clientfd x" "flag x STATE_MEM_CONNECTED \<longleftrightarrow> 0 \<le> memberfd x"
    "flag x STATE_CLO_CONNECTED \<longleftrightarrow> 0 \<le> clonefd x" "\<not> flag x STATE_FRESH"
    "flag x STATE_MEM_CONNECTED \<Longrightarrow> \<exists>m<MAXSERVERS. ses_member x = Some m"
    "flag x STATE_CLO_CONNECTED \<Longrightarrow> \<exists>k<MAXSERVERS. ses_clone x = Some k"
  using assms by (auto simp: ses_conn_def)

section \<open>Updates that keep the invariant\<close>

lemma lb_ok_interest [simp]:
  "lb_ok (epoll_mod fd ev lb) = lb_ok lb" "lb_ok (epoll_add fd ev lb) = lb_ok lb" "lb_ok (close_fd fd lb) = lb_ok lb"
  by (simp_all add: lb_ok_def queue_ok_def counts_ok_def)

text \<open>The parts of the balancer that the invariant looks at.\<close>

lemma balancer_ok_suppress [simp]: "balancer_ok (b\<lparr>connection_rejected_log_suppress := t\<rparr>) = balancer_ok b"
  by (simp add: balancer_ok_def hash_ok_def)

lemma lb_ok_reject_log [simp]: "lb_ok (reject_log lb) = lb_ok lb"
  by (simp add: lb_ok_def queue_ok_def counts_ok_def)

lemma filter_update_same:
  assumes "i < length xs" and "P v = P (xs ! i)"
  shows "length (filter P (xs[i := v])) = length (filter P xs)"
  using length_filter_update [OF assms(1), of P v] assms(2) by (simp split: if_splits)

lemma lb_ok_upd_ses:
  assumes ok: "lb_ok lb" and s: "s < length (sessions lb)"
    and f: "ses_shape (f (sessions lb ! s))" "ses_conn (f (sessions lb ! s))"
    and m: "\<And>m. uses_member m (f (sessions lb ! s)) = uses_member m (sessions lb ! s)"
    and k: "\<And>k. uses_clone k (f (sessions lb ! s)) = uses_clone k (sessions lb ! s)"
  shows "lb_ok (upd_ses s f lb)"
proof -
  have "counts_ok (upd_ses s f lb)"
    using lb_okD(5) [OF ok] filter_update_same [OF s, of _ "f (sessions lb ! s)"] m k by (simp add: counts_ok_def)
  moreover have "\<forall>x \<in> set ((sessions lb)[s := f (sessions lb ! s)]). ses_shape x \<and> ses_conn x"
    using ok f set_update_subset_insert [of "sessions lb" s "f (sessions lb ! s)"] by (fastforce simp: lb_ok_def)
  ultimately show ?thesis using ok by (simp add: lb_ok_def queue_ok_def)
qed

text \<open>A server with connections is not free; counters of such a server may change.\<close>

lemma count_pos:
  assumes "s < length xs" and "P (xs ! s)"
  shows "0 < length (filter P xs)"
  using assms by (metis length_greater_0_conv filter_empty_conv nth_mem)

lemma used_member_slot:
  assumes ok: "lb_ok lb" and s: "s < length (sessions lb)" and u: "uses_member m (sessions lb ! s)" "m < MAXSERVERS"
  shows "srv_status (members (balancer lb) ! m) \<noteq> SERVER_STATE_FREE"
proof
  assume "srv_status (members (balancer lb) ! m) = SERVER_STATE_FREE"
  then have "members (balancer lb) ! m = zero_server"
    using lb_okD(1) [OF ok] table_okD(4) u(2) by (auto simp: balancer_ok_def)
  then show False
    using lb_okD(5) [OF ok] u count_pos [OF s, of "uses_member m"] by (auto simp: counts_ok_def)
qed

lemma used_clone_slot:
  assumes ok: "lb_ok lb" and s: "s < length (sessions lb)" and u: "uses_clone k (sessions lb ! s)" "k < MAXSERVERS"
  shows "srv_status (clones (balancer lb) ! k) \<noteq> SERVER_STATE_FREE"
proof
  assume "srv_status (clones (balancer lb) ! k) = SERVER_STATE_FREE"
  then have "clones (balancer lb) ! k = zero_server"
    using lb_okD(1) [OF ok] table_okD(4) u(2) by (auto simp: balancer_ok_def)
  then show False
    using lb_okD(5) [OF ok] u count_pos [OF s, of "uses_clone k"] by (auto simp: counts_ok_def)
qed

lemma balancer_ok_upd_member:
  assumes ok: "balancer_ok b" and i: "i < MAXSERVERS" and used: "srv_status (members b ! i) \<noteq> SERVER_STATE_FREE"
    and f: "srv_status (f (members b ! i)) = srv_status (members b ! i)" "srv_id (f (members b ! i)) = srv_id (members b ! i)"
      "srv_hash_table_usage (f (members b ! i)) = srv_hash_table_usage (members b ! i)"
  shows "balancer_ok (upd_member i f b)"
proof -
  have t: "table_ok (members b) (nmembers b)" using ok by (simp add: balancer_ok_def)
  then have "table_ok (upd_server i f (members b)) (nmembers b)" using i used f by (intro table_ok_upd_server) auto
  then show ?thesis using ok f i table_okD(1) [OF t] by (auto simp: balancer_ok_def hash_ok_def)
qed

lemma balancer_ok_upd_clone:
  assumes ok: "balancer_ok b" and i: "i < MAXSERVERS" and used: "srv_status (clones b ! i) \<noteq> SERVER_STATE_FREE"
    and f: "srv_status (f (clones b ! i)) = srv_status (clones b ! i)" "srv_id (f (clones b ! i)) = srv_id (clones b ! i)"
  shows "balancer_ok (upd_clone i f b)"
proof -
  have "table_ok (clones b) (nclones b)" using ok by (simp add: balancer_ok_def)
  then have "table_ok (upd_server i f (clones b)) (nclones b)" using i used f by (intro table_ok_upd_server) auto
  then show ?thesis using ok by (simp add: balancer_ok_def hash_ok_def)
qed

lemma session_limit_upd [simp]:
  "session_limit (upd_member i f b) = session_limit b" "session_limit (upd_clone i f b) = session_limit b"
  by (simp_all add: upd_member_def upd_clone_def)

lemma server_lengths:
  assumes "balancer_ok b"
  shows "length (members b) = MAXSERVERS" and "length (clones b) = MAXSERVERS"
  using assms table_okD(1) by (auto simp: balancer_ok_def)

text \<open>A session change together with the matching change of its server's counters.\<close>

lemma lb_ok_ses_member:
  assumes ok: "lb_ok lb" and s: "s < length (sessions lb)"
    and f: "ses_shape (f (sessions lb ! s))" "ses_conn (f (sessions lb ! s))"
    and m: "m < MAXSERVERS" "srv_status (members (balancer lb) ! m) \<noteq> SERVER_STATE_FREE"
    and g: "srv_status (g (members (balancer lb) ! m)) = srv_status (members (balancer lb) ! m)"
      "srv_id (g (members (balancer lb) ! m)) = srv_id (members (balancer lb) ! m)"
      "srv_hash_table_usage (g (members (balancer lb) ! m)) = srv_hash_table_usage (members (balancer lb) ! m)"
    and c: "srv_c (g (members (balancer lb) ! m)) = srv_c (members (balancer lb) ! m)
      + of_bool (uses_member m (f (sessions lb ! s))) - of_bool (uses_member m (sessions lb ! s))"
    and others: "\<And>i. i \<noteq> m \<Longrightarrow> uses_member i (f (sessions lb ! s)) = uses_member i (sessions lb ! s)"
    and clone: "\<And>i. uses_clone i (f (sessions lb ! s)) = uses_clone i (sessions lb ! s)"
  shows "lb_ok (upd_bal (upd_member m g) (upd_ses s f lb))"
proof -
  let ?x = "sessions lb ! s" and ?b = "balancer lb"
  have b: "balancer_ok (upd_member m g ?b)"
    by (rule balancer_ok_upd_member [where f = g, OF lb_okD(1) [OF ok] m g])
  have "srv_c (upd_server m g (members ?b) ! i) = int (length (filter (uses_member i) ((sessions lb)[s := f ?x])))"
    if "i < MAXSERVERS" for i
  proof (cases "i = m")
    case True
    then show ?thesis
      using length_filter_update [OF s, of "uses_member m" "f ?x"] lb_okD(5) [OF ok] c m(1) server_lengths [OF lb_okD(1) [OF ok]]
      by (auto simp: counts_ok_def split: if_splits)
  next
    case False
    then show ?thesis
      using filter_update_same [OF s, of "uses_member i" "f ?x"] others [OF False] lb_okD(5) [OF ok] that m(1)
        server_lengths [OF lb_okD(1) [OF ok]] by (simp add: counts_ok_def)
  qed
  then have "counts_ok (upd_bal (upd_member m g) (upd_ses s f lb))"
    using filter_update_same [OF s, of _ "f ?x"] clone lb_okD(5) [OF ok] by (simp add: counts_ok_def)
  moreover have "\<forall>x \<in> set ((sessions lb)[s := f ?x]). ses_shape x \<and> ses_conn x"
    using ok f set_update_subset_insert [of "sessions lb" s "f ?x"] by (fastforce simp: lb_ok_def)
  ultimately show ?thesis using ok b by (simp add: lb_ok_def queue_ok_def)
qed

lemma lb_ok_ses_clone:
  assumes ok: "lb_ok lb" and s: "s < length (sessions lb)"
    and f: "ses_shape (f (sessions lb ! s))" "ses_conn (f (sessions lb ! s))"
    and m: "m < MAXSERVERS" "srv_status (clones (balancer lb) ! m) \<noteq> SERVER_STATE_FREE"
    and g: "srv_status (g (clones (balancer lb) ! m)) = srv_status (clones (balancer lb) ! m)"
      "srv_id (g (clones (balancer lb) ! m)) = srv_id (clones (balancer lb) ! m)"
    and c: "srv_c (g (clones (balancer lb) ! m)) = srv_c (clones (balancer lb) ! m)
      + of_bool (uses_clone m (f (sessions lb ! s))) - of_bool (uses_clone m (sessions lb ! s))"
    and others: "\<And>i. i \<noteq> m \<Longrightarrow> uses_clone i (f (sessions lb ! s)) = uses_clone i (sessions lb ! s)"
    and member: "\<And>i. uses_member i (f (sessions lb ! s)) = uses_member i (sessions lb ! s)"
  shows "lb_ok (upd_bal (upd_clone m g) (upd_ses s f lb))"
proof -
  let ?x = "sessions lb ! s" and ?b = "balancer lb"
  have b: "balancer_ok (upd_clone m g ?b)"
    by (rule balancer_ok_upd_clone [where f = g, OF lb_okD(1) [OF ok] m g])
  have "srv_c (upd_server m g (clones ?b) ! i) = int (length (filter (uses_clone i) ((sessions lb)[s := f ?x])))"
    if "i < MAXSERVERS" for i
  proof (cases "i = m")
    case True
    then show ?thesis
      using length_filter_update [OF s, of "uses_clone m" "f ?x"] lb_okD(5) [OF ok] c m(1) server_lengths [OF lb_okD(1) [OF ok]]
      by (auto simp: counts_ok_def split: if_splits)
  next
    case False
    then show ?thesis
      using filter_update_same [OF s, of "uses_clone i" "f ?x"] others [OF False] lb_okD(5) [OF ok] that m(1)
        server_lengths [OF lb_okD(1) [OF ok]] by (simp add: counts_ok_def)
  qed
  then have "counts_ok (upd_bal (upd_clone m g) (upd_ses s f lb))"
    using filter_update_same [OF s, of _ "f ?x"] member lb_okD(5) [OF ok] by (simp add: counts_ok_def)
  moreover have "\<forall>x \<in> set ((sessions lb)[s := f ?x]). ses_shape x \<and> ses_conn x"
    using ok f set_update_subset_insert [of "sessions lb" s "f ?x"] by (fastforce simp: lb_ok_def)
  ultimately show ?thesis using ok b by (simp add: lb_ok_def queue_ok_def)
qed

section \<open>Closing connections\<close>

definition member_closed :: "SESSION \<Rightarrow> SESSION" where
  "member_closed x = (clear_bits STATE_MEM_CONNECTED x)\<lparr>memberfd := - 1\<rparr>"

definition clone_closed :: "SESSION \<Rightarrow> SESSION" where
  "clone_closed x = (clear_bits STATE_CLO_CONNECTED x)\<lparr>clonefd := - 1\<rparr>"

definition client_closed :: "SESSION \<Rightarrow> SESSION" where
  "client_closed x = (clear_bits STATE_CLI_CONNECTED x)\<lparr>clientfd := - 1\<rparr>"

lemmas closed_defs = member_closed_def clone_closed_def client_closed_def

lemma upd_ses_close:
  assumes "s < length (sessions lb)"
  shows "upd_ses s g (close_fd fd (upd_bal h (upd_ses s f lb))) = close_fd fd (upd_bal h (upd_ses s (\<lambda>x. g (f x)) lb))"
    and "upd_ses s g (close_fd fd (upd_ses s f lb)) = close_fd fd (upd_ses s (\<lambda>x. g (f x)) lb)"
    and "upd_ses s g (upd_ses s f lb) = upd_ses s (\<lambda>x. g (f x)) lb"
  using assms by (simp_all add: upd_ses_def upd_bal_def close_fd_def)

lemma disconnect_member_eq:
  assumes "s < length (sessions lb)" and "0 \<le> memberfd (sessions lb ! s)" and "ses_member (sessions lb ! s) = Some m"
  shows "disconnect_member s lb
     = Inr (close_fd (memberfd (sessions lb ! s)) (upd_bal (upd_member m conn_done) (upd_ses s member_closed lb)))"
  using assms by (simp add: disconnect_member_def Let_def upd_ses_close member_closed_def [abs_def])

lemma disconnect_clone_eq:
  assumes "s < length (sessions lb)" and "0 \<le> clonefd (sessions lb ! s)" and "ses_clone (sessions lb ! s) = Some k"
  shows "disconnect_clone s lb
     = Inr (close_fd (clonefd (sessions lb ! s)) (upd_bal (upd_clone k conn_done) (upd_ses s clone_closed lb)))"
  using assms by (simp add: disconnect_clone_def Let_def upd_ses_close clone_closed_def [abs_def])

lemma disconnect_client_eq:
  assumes "s < length (sessions lb)" and "0 \<le> clientfd (sessions lb ! s)"
  shows "disconnect_client s lb = close_fd (clientfd (sessions lb ! s)) (upd_ses s client_closed lb)"
  using assms by (simp add: disconnect_client_def Let_def upd_ses_close client_closed_def [abs_def])

lemma closed_shape [simp]:
  "ses_shape (member_closed x) = ses_shape x" "ses_shape (clone_closed x) = ses_shape x"
  "ses_shape (client_closed x) = ses_shape x"
  by (simp_all add: closed_defs ses_shape_def)

lemma closed_conn:
  assumes "ses_conn x"
  shows "ses_conn (member_closed x)" "ses_conn (clone_closed x)" "ses_conn (client_closed x)"
  using assms by (auto simp: closed_defs ses_conn_def)

lemma closed_uses [simp]:
  "uses_member m (member_closed x) = False" "uses_clone m (member_closed x) = uses_clone m x"
  "uses_member m (clone_closed x) = uses_member m x" "uses_clone m (clone_closed x) = False"
  "uses_member m (client_closed x) = uses_member m x" "uses_clone m (client_closed x) = uses_clone m x"
  by (simp_all add: closed_defs uses_member_def uses_clone_def)

lemma conn_done_simps [simp]:
  "srv_status (conn_done x) = srv_status x" "srv_id (conn_done x) = srv_id x"
  "srv_hash_table_usage (conn_done x) = srv_hash_table_usage x" "srv_c (conn_done x) = srv_c x - 1"
  by (simp_all add: conn_done_def)

lemma disconnect_member_ok:
  assumes ok: "lb_ok lb" and s: "s < length (sessions lb)"
  obtains lb' where "disconnect_member s lb = Inr lb'" and "lb_ok lb'" and "fds lb' = fds lb"
    and "sessions lb' = (sessions lb)[s := if 0 \<le> memberfd (sessions lb ! s) then member_closed (sessions lb ! s) else sessions lb ! s]"
    and "unused_sessions lb' = unused_sessions lb" and "uq_rear lb' = uq_rear lb"
proof (cases "0 \<le> memberfd (sessions lb ! s)")
  case True
  let ?x = "sessions lb ! s"
  note conn = lb_okD(7) [OF ok s]
  obtain m where m: "m < MAXSERVERS" "ses_member ?x = Some m" using ses_connD(2,5) [OF conn] True by blast
  have u: "uses_member m ?x" using True ses_connD(2) [OF conn] m by (simp add: uses_member_def)
  have o: "uses_member i ?x \<longleftrightarrow> i = m" for i using u by (auto simp: uses_member_def)
  have "lb_ok (upd_bal (upd_member m conn_done) (upd_ses s member_closed lb))"
    using used_member_slot [OF ok s u m(1)] lb_okD(6) [OF ok s] closed_conn(1) [OF conn] u o
    by (intro lb_ok_ses_member [OF ok s _ _ m(1)]) auto
  then show ?thesis using that disconnect_member_eq [OF s True m(2)] True by simp
next
  case False
  then show ?thesis using that [of lb] ok by (simp add: disconnect_member_def)
qed

lemma disconnect_clone_ok:
  assumes ok: "lb_ok lb" and s: "s < length (sessions lb)"
  obtains lb' where "disconnect_clone s lb = Inr lb'" and "lb_ok lb'" and "fds lb' = fds lb"
    and "sessions lb' = (sessions lb)[s := if 0 \<le> clonefd (sessions lb ! s) then clone_closed (sessions lb ! s) else sessions lb ! s]"
    and "unused_sessions lb' = unused_sessions lb" and "uq_rear lb' = uq_rear lb"
proof (cases "0 \<le> clonefd (sessions lb ! s)")
  case True
  let ?x = "sessions lb ! s"
  note conn = lb_okD(7) [OF ok s]
  obtain m where m: "m < MAXSERVERS" "ses_clone ?x = Some m" using ses_connD(3,6) [OF conn] True by blast
  have u: "uses_clone m ?x" using True ses_connD(3) [OF conn] m by (simp add: uses_clone_def)
  have o: "uses_clone i ?x \<longleftrightarrow> i = m" for i using u by (auto simp: uses_clone_def)
  have "lb_ok (upd_bal (upd_clone m conn_done) (upd_ses s clone_closed lb))"
    using used_clone_slot [OF ok s u m(1)] lb_okD(6) [OF ok s] closed_conn(2) [OF conn] u o
    by (intro lb_ok_ses_clone [OF ok s _ _ m(1)]) auto
  then show ?thesis using that disconnect_clone_eq [OF s True m(2)] True by simp
next
  case False
  then show ?thesis using that [of lb] ok by (simp add: disconnect_clone_def)
qed

lemma disconnect_client_ok:
  assumes ok: "lb_ok lb" and s: "s < length (sessions lb)"
  shows "lb_ok (disconnect_client s lb)" and "fds (disconnect_client s lb) = fds lb"
    and "sessions (disconnect_client s lb)
      = (sessions lb)[s := if 0 \<le> clientfd (sessions lb ! s) then client_closed (sessions lb ! s) else sessions lb ! s]"
    and "unused_sessions (disconnect_client s lb) = unused_sessions lb" and "uq_rear (disconnect_client s lb) = uq_rear lb"
proof -
  have "lb_ok (upd_ses s client_closed lb)"
    using lb_okD(6,7) [OF ok s] closed_conn(3) by (intro lb_ok_upd_ses [OF ok s]) auto
  then show "lb_ok (disconnect_client s lb)" using ok disconnect_client_eq [OF s]
    by (cases "0 \<le> clientfd (sessions lb ! s)") (simp, simp add: disconnect_client_def)
qed (use s in \<open>auto simp: disconnect_client_def Let_def client_closed_def\<close>)

text \<open>What is left of a session after its three sides are closed and its defaults are set.\<close>

definition session_gone :: "SESSION \<Rightarrow> SESSION" where
  "session_gone x =
     (let x = (if flag x STATE_CLI_CONNECTED then client_closed x else x);
          x = (if flag x STATE_MEM_CONNECTED then member_closed x else x);
          x = (if flag x STATE_CLO_CONNECTED then clone_closed x else x)
      in session_reset x)"

lemma session_reset_simps [simp]:
  "flag (session_reset x) m = False" "clientfd (session_reset x) = clientfd x" "memberfd (session_reset x) = memberfd x"
  "clonefd (session_reset x) = clonefd x" "ses_shape x \<Longrightarrow> ses_shape (session_reset x)"
  "uses_member i (session_reset x) = False" "uses_clone i (session_reset x) = False"
  by (simp_all add: session_reset_def flag_def ses_shape_def uses_member_def uses_clone_def)

lemma add_unused_session_ok:
  assumes ok: "lb_ok lb" and s: "s < length (sessions lb)"
  obtains lb' where "add_unused_session s lb = Inr lb'" and "lb_ok lb'" and "fds lb' = fds lb"
    and "sessions lb' = sessions lb" and "uq_rear lb' = (uq_rear lb + 1) mod session_limit (balancer lb)"
    and "unused_sessions lb' = (unused_sessions lb)[nat (uq_rear lb') := Some s]"
proof -
  define r where "r = (uq_rear lb + 1) mod session_limit (balancer lb)"
  let ?lb = "lb\<lparr>uq_rear := r, unused_sessions := (unused_sessions lb)[nat r := Some s]\<rparr>"
  have q: "queue_ok lb" by (rule lb_okD(4) [OF ok])
  then have r: "0 \<le> r" "r < session_limit (balancer lb)" by (auto simp: queue_ok_def r_def)
  have "Some i \<in> set ((unused_sessions lb)[nat r := Some s]) \<Longrightarrow> i < length (sessions lb)" for i
    using q s set_update_subset_insert [of "unused_sessions lb" "nat r" "Some s"] by (auto simp: queue_ok_def)
  then have "queue_ok ?lb" using q r by (simp add: queue_ok_def)
  then have "lb_ok ?lb" using ok by (simp add: lb_ok_def counts_ok_def)
  moreover have "add_unused_session s lb = Inr ?lb"
    using q r by (auto simp: add_unused_session_def queue_ok_def Let_def r_def [symmetric])
  ultimately show ?thesis using that [of ?lb] by (simp add: r_def)
qed

lemma delete_session_ok:
  assumes ok: "lb_ok lb" and s: "s < length (sessions lb)"
  obtains lb' where "delete_session s lb = Inr lb'" and "lb_ok lb'" and "fds lb' = fds lb"
    and "sessions lb' = (sessions lb)[s := session_gone (sessions lb ! s)]"
    and "uq_rear lb' = (uq_rear lb + 1) mod session_limit (balancer lb)"
    and "unused_sessions lb' = (unused_sessions lb)[nat (uq_rear lb') := Some s]"
proof -
  let ?x = "sessions lb ! s"
  note conn = ses_connD [OF lb_okD(7) [OF ok s]]
  define lb1 where "lb1 = (if flag ?x STATE_CLI_CONNECTED then disconnect_client s lb else lb)"
  define x1 where "x1 = (if flag ?x STATE_CLI_CONNECTED then client_closed ?x else ?x)"
  have 1: "lb_ok lb1" "fds lb1 = fds lb" "sessions lb1 = (sessions lb)[s := x1]"
    "uq_rear lb1 = uq_rear lb" "unused_sessions lb1 = unused_sessions lb"
    using ok disconnect_client_ok [OF ok s] conn(1) by (auto simp: lb1_def x1_def)
  then have s1: "s < length (sessions lb1)" "sessions lb1 ! s = x1" using s by simp_all
  define x2 where "x2 = (if flag x1 STATE_MEM_CONNECTED then member_closed x1 else x1)"
  obtain lb2 where 2: "(if flag x1 STATE_MEM_CONNECTED then disconnect_member s lb1 else Inr lb1) = Inr lb2"
    "lb_ok lb2" "fds lb2 = fds lb" "sessions lb2 = (sessions lb)[s := x2]"
    "uq_rear lb2 = uq_rear lb" "unused_sessions lb2 = unused_sessions lb"
  proof (cases "flag x1 STATE_MEM_CONNECTED")
    case True
    moreover have "0 \<le> memberfd x1" using True ses_connD(2) [OF lb_okD(7) [OF 1(1) s1(1)]] s1(2) by simp
    ultimately show thesis
      using that disconnect_member_ok [OF 1(1) s1(1)] 1(2,3,4,5) s1(2) x2_def by (metis list_update_overwrite)
  qed (use that 1 x2_def in auto)
  then have s2: "s < length (sessions lb2)" "sessions lb2 ! s = x2" using s by simp_all
  define x3 where "x3 = (if flag x2 STATE_CLO_CONNECTED then clone_closed x2 else x2)"
  obtain lb3 where 3: "(if flag x2 STATE_CLO_CONNECTED then disconnect_clone s lb2 else Inr lb2) = Inr lb3"
    "lb_ok lb3" "fds lb3 = fds lb" "sessions lb3 = (sessions lb)[s := x3]"
    "uq_rear lb3 = uq_rear lb" "unused_sessions lb3 = unused_sessions lb"
  proof (cases "flag x2 STATE_CLO_CONNECTED")
    case True
    moreover have "0 \<le> clonefd x2" using True ses_connD(3) [OF lb_okD(7) [OF 2(2) s2(1)]] s2(2) by simp
    ultimately show thesis
      using that disconnect_clone_ok [OF 2(2) s2(1)] 2(3,4,5,6) s2(2) x3_def by (metis list_update_overwrite)
  qed (use that 2 x3_def in auto)
  then have s3: "s < length (sessions lb3)" "sessions lb3 ! s = x3" using s by simp_all
  have gone: "session_gone ?x = session_reset x3"
    by (simp add: session_gone_def x1_def x2_def x3_def Let_def)
  have flags: "\<not> flag x3 STATE_CLI_CONNECTED" "\<not> flag x3 STATE_MEM_CONNECTED" "\<not> flag x3 STATE_CLO_CONNECTED"
    by (simp_all add: x1_def x2_def x3_def closed_defs)
  note c3 = ses_connD [OF lb_okD(7) [OF 3(2) s3(1), unfolded s3(2)]]
  have "ses_conn (session_reset x3)"
    using lb_okD(7) [OF 3(2) s3(1)] s3(2) flags by (simp add: ses_conn_def)
  then have "lb_ok (upd_ses s session_reset lb3)"
    using lb_okD(6) [OF 3(2) s3(1)] s3 flags
    by (intro lb_ok_upd_ses [OF 3(2) s3(1)]) (auto simp: uses_member_def uses_clone_def)
  from add_unused_session_ok [OF this, of s]
  obtain lb' where "add_unused_session s (upd_ses s session_reset lb3) = Inr lb'" "lb_ok lb'" "fds lb' = fds lb"
    "sessions lb' = (sessions lb)[s := session_reset x3]"
    "uq_rear lb' = (uq_rear lb + 1) mod session_limit (balancer lb3)"
    "unused_sessions lb' = (unused_sessions lb)[nat (uq_rear lb') := Some s]"
    using 3 s3 by auto
  moreover have "session_limit (balancer lb3) = session_limit (balancer lb)"
    using lb_okD(4) [OF ok] lb_okD(4) [OF 3(2)] 3(4) by (simp add: queue_ok_def)
  moreover have "delete_session s lb = add_unused_session s (upd_ses s session_reset lb3)"
    unfolding delete_session_def Let_def lb1_def [symmetric] s1(2) 2(1) res_bind_Inr s2(2) 3(1) ..
  ultimately show ?thesis using that gone by simp
qed

section \<open>Buffer steps\<close>

text \<open>The buffer steps keep the connection part of a session.\<close>

definition same_conn :: "SESSION \<Rightarrow> SESSION \<Rightarrow> bool" where
  "same_conn x y \<longleftrightarrow>
     clientfd y = clientfd x \<and> memberfd y = memberfd x \<and> clonefd y = clonefd x \<and>
     ses_member y = ses_member x \<and> ses_clone y = ses_clone x \<and>
     (\<forall>m \<in> {STATE_CLI_CONNECTED, STATE_MEM_CONNECTED, STATE_CLO_CONNECTED, STATE_FRESH}. flag y m = flag x m)"

lemma same_connD:
  assumes "same_conn x y"
  shows "ses_conn y = ses_conn x" "uses_member i y = uses_member i x" "uses_clone i y = uses_clone i x"
  using assms by (simp_all add: same_conn_def ses_conn_def uses_member_def uses_clone_def)

lemma same_conn_steps [simp]:
  "same_conn x (client_recv bs x)" "same_conn x (clone_recv n x)" "same_conn x (client_full_check x)"
  "same_conn x (client_sent n x)" "same_conn x (member_unfull x)" "same_conn x (member_recv bs x)"
  "same_conn x (member_sent n x)" "same_conn x (clone_sent n x)"
  "same_conn x (set_bits STATE_MEM_WRITE_READY x)" "same_conn x (set_bits STATE_CLO_WRITE_READY x)"
  by (simp_all add: same_conn_def client_recv_def clone_recv_def client_full_check_def client_sent_def member_unfull_def
      member_recv_def member_sent_def clone_sent_def Let_def)

lemma step_shapes:
  assumes "ses_shape x"
  shows "client_used_buffer x + length bs \<le> MESSAGE_SIZE_LIMIT \<Longrightarrow> ses_shape (client_recv bs x)"
    and "n \<le> client_used_buffer x \<Longrightarrow> n \<le> MESSAGE_SIZE_LIMIT - clone_used_buffer x \<Longrightarrow> ses_shape (clone_recv n x)"
    and "ses_shape (client_full_check x)"
    and "ses_shape (client_sent n x)" and "ses_shape (member_unfull x)"
    and "member_used_buffer x + length bs \<le> MESSAGE_SIZE_LIMIT \<Longrightarrow> ses_shape (member_recv bs x)"
    and "ses_shape (member_sent n x)" and "ses_shape (clone_sent n x)"
    and "ses_shape (set_bits m x)"
  using assms by (auto simp: ses_shape_def client_recv_def clone_recv_def client_full_check_def client_sent_def
      member_unfull_def member_recv_def member_sent_def clone_sent_def Let_def)

lemma lb_ok_step:
  assumes ok: "lb_ok lb" and s: "s < length (sessions lb)"
    and "same_conn (sessions lb ! s) (f (sessions lb ! s))" and "ses_shape (f (sessions lb ! s))"
  shows "lb_ok (upd_ses s f lb)"
  using assms same_connD lb_okD(7) [OF ok s] by (intro lb_ok_upd_ses) auto

text \<open>A buffer step with traffic accounting on the connected member or clone.\<close>

lemma traffic_simps [simp]:
  "srv_status (brecv_add n x) = srv_status x" "srv_id (brecv_add n x) = srv_id x" "srv_c (brecv_add n x) = srv_c x"
  "srv_hash_table_usage (brecv_add n x) = srv_hash_table_usage x"
  "srv_status (bsent_add n x) = srv_status x" "srv_id (bsent_add n x) = srv_id x" "srv_c (bsent_add n x) = srv_c x"
  "srv_hash_table_usage (bsent_add n x) = srv_hash_table_usage x"
  by (simp_all add: brecv_add_def bsent_add_def)

lemma lb_ok_member_traffic:
  assumes ok: "lb_ok lb" and s: "s < length (sessions lb)"
    and f: "same_conn (sessions lb ! s) (f (sessions lb ! s))" "ses_shape (f (sessions lb ! s))"
    and m: "ses_member (sessions lb ! s) = Some m" and con: "flag (sessions lb ! s) STATE_MEM_CONNECTED"
    and g: "\<And>x. srv_status (g x) = srv_status x" "\<And>x. srv_id (g x) = srv_id x" "\<And>x. srv_c (g x) = srv_c x"
      "\<And>x. srv_hash_table_usage (g x) = srv_hash_table_usage x"
  shows "lb_ok (upd_bal (upd_member m g) (upd_ses s f lb))"
proof -
  have u: "uses_member m (sessions lb ! s)" using m con by (simp add: uses_member_def)
  have b: "m < MAXSERVERS" using ses_connD(5) [OF lb_okD(7) [OF ok s] con] m by auto
  show ?thesis
    using used_member_slot [OF ok s u b] f same_connD [OF f(1)] lb_okD(7) [OF ok s] g
    by (intro lb_ok_ses_member [OF ok s _ _ b]) auto
qed

lemma lb_ok_clone_traffic:
  assumes ok: "lb_ok lb" and s: "s < length (sessions lb)"
    and f: "same_conn (sessions lb ! s) (f (sessions lb ! s))" "ses_shape (f (sessions lb ! s))"
    and k: "ses_clone (sessions lb ! s) = Some k" and con: "flag (sessions lb ! s) STATE_CLO_CONNECTED"
    and g: "\<And>x. srv_status (g x) = srv_status x" "\<And>x. srv_id (g x) = srv_id x" "\<And>x. srv_c (g x) = srv_c x"
  shows "lb_ok (upd_bal (upd_clone k g) (upd_ses s f lb))"
proof -
  have u: "uses_clone k (sessions lb ! s)" using k con by (simp add: uses_clone_def)
  have b: "k < MAXSERVERS" using ses_connD(6) [OF lb_okD(7) [OF ok s] con] k by auto
  show ?thesis
    using used_clone_slot [OF ok s u b] f same_connD [OF f(1)] lb_okD(7) [OF ok s] g
    by (intro lb_ok_ses_clone [OF ok s _ _ b]) auto
qed

section \<open>Handlers\<close>

text \<open>
  The contract of \<open>read\<close> and \<open>write\<close>: no more bytes than asked for. \<open>kept\<close> is what every handler
  guarantees.
\<close>

definition read_fits :: "nat \<Rightarrow> io_read \<Rightarrow> bool" where
  "read_fits used rd = (case rd of Rd_err \<Rightarrow> True | Rd bs \<Rightarrow> used + length bs \<le> MESSAGE_SIZE_LIMIT)"

definition kept :: "LB \<Rightarrow> LB res \<Rightarrow> bool" where
  "kept lb r \<longleftrightarrow> (\<exists>lb'. r = Inr lb' \<and> lb_ok lb' \<and> fds lb' = fds lb \<and> length (sessions lb') = length (sessions lb))"

lemma keptI: "r = Inr lb' \<Longrightarrow> lb_ok lb' \<Longrightarrow> fds lb' = fds lb \<Longrightarrow> length (sessions lb') = length (sessions lb) \<Longrightarrow> kept lb r"
  by (auto simp: kept_def)

lemma kept_closing:
  assumes "lb_ok lb" and "s < length (sessions lb)"
  shows "kept lb (delete_session s lb)" and "kept lb (disconnect_member s lb)" and "kept lb (disconnect_clone s lb)"
proof -
  show "kept lb (delete_session s lb)" by (rule delete_session_ok [OF assms]) (simp add: kept_def)
  show "kept lb (disconnect_member s lb)" by (rule disconnect_member_ok [OF assms]) (simp add: kept_def)
  show "kept lb (disconnect_clone s lb)" by (rule disconnect_clone_ok [OF assms]) (simp add: kept_def)
qed

lemma kept_bind:
  assumes "kept lb r" and "\<And>lb'. r = Inr lb' \<Longrightarrow> lb_ok lb' \<Longrightarrow> fds lb' = fds lb \<Longrightarrow> length (sessions lb') = length (sessions lb) \<Longrightarrow> kept lb' (f lb')"
  shows "kept lb (res_bind r f)"
  using assms by (fastforce simp: kept_def)

lemma length_upd_ses: "length (sessions (upd_ses s f lb)) = length (sessions lb)"
  by simp

lemma maintain_simps [simp, upd_simps]:
  "lb_ok (maintain_client s lb) = lb_ok lb" "lb_ok (maintain_member s lb) = lb_ok lb"
  "fds (maintain_client s lb) = fds lb" "fds (maintain_member s lb) = fds lb"
  "sessions (maintain_client s lb) = sessions lb" "sessions (maintain_member s lb) = sessions lb"
  by (simp_all add: maintain_client_def maintain_member_def Let_def)

lemma client_read_maintain_ok:
  assumes ok: "lb_ok lb" and s: "s < length (sessions lb)"
  shows "lb_ok (client_read_maintain s lb)" and "fds (client_read_maintain s lb) = fds lb"
    and "length (sessions (client_read_maintain s lb)) = length (sessions lb)"
proof -
  define lb1 where "lb1 = upd_ses s (set_bits STATE_MEM_WRITE_READY) lb"
  define lb2 where "lb2 = upd_ses s (set_bits STATE_CLO_WRITE_READY) lb1"
  have 1: "lb_ok lb1" "s < length (sessions lb1)"
    using lb_ok_step [OF ok s] step_shapes(9) [OF lb_okD(6) [OF ok s]] s by (simp_all add: lb1_def)
  have 2: "lb_ok lb2" "s < length (sessions lb2)"
    using lb_ok_step [OF 1] step_shapes(9) [OF lb_okD(6) [OF 1]] 1 by (simp_all add: lb2_def)
  have 3: "lb_ok (upd_ses s client_full_check lb2)"
    using lb_ok_step [OF 2] step_shapes(3) [OF lb_okD(6) [OF 2]] by simp
  then show "lb_ok (client_read_maintain s lb)" "fds (client_read_maintain s lb) = fds lb"
    "length (sessions (client_read_maintain s lb)) = length (sessions lb)"
    by (simp_all add: client_read_maintain_def Let_def lb1_def lb2_def)
qed

lemma client_read_kept:
  assumes ok: "lb_ok lb" and fd: "fd_session fd lb = Inr s"
    and fits: "read_fits (client_used_buffer (sessions lb ! s)) rd"
  shows "kept lb (client_read fd rd km kc lb)"
proof (cases "rd = Rd_err \<or> rd = Rd []")
  case True
  then show ?thesis
    using kept_closing(1) [OF ok fd_session_bound(1) [OF ok fd]] fd by (auto simp: client_read_def)
next
  case False
  then obtain bs where bs: "rd = Rd bs" "bs \<noteq> []" by (cases rd) auto
  note s = fd_session_bound(1) [OF ok fd]
  let ?x = "sessions lb ! s" and ?lb = "upd_ses s (client_recv bs) lb"
  have len: "client_used_buffer ?x + length bs \<le> MESSAGE_SIZE_LIMIT" using fits bs by (simp add: read_fits_def)
  have 1: "lb_ok ?lb" "s < length (sessions ?lb)" "sessions ?lb ! s = client_recv bs ?x"
    using lb_ok_step [OF ok s, of "client_recv bs"] step_shapes(1) [OF lb_okD(6) [OF ok s] len] s by simp_all
  have fresh: "client_read_fresh s km kc ?lb = Inr (False, ?lb)"
    using ses_connD(4) [OF lb_okD(7) [OF 1(1,2)]] by (simp add: client_read_fresh_def)
  have 2: "kept ?lb (client_read_clone s (length bs) ?lb)"
  proof (cases "length bs > MESSAGE_SIZE_LIMIT - clone_used_buffer (sessions ?lb ! s)")
    case True
    then show ?thesis
      using kept_closing(3) [OF 1(1,2)] 1(1) by (simp add: client_read_clone_def kept_def)
  next
    case False
    moreover have "length bs \<le> client_used_buffer (sessions ?lb ! s)" using s by (simp add: client_recv_def)
    ultimately have "ses_shape (clone_recv (length bs) (sessions ?lb ! s))"
      using step_shapes(2) [OF lb_okD(6) [OF 1(1,2)]] by simp
    then show ?thesis
      using lb_ok_step [OF 1(1,2), of "clone_recv (length bs)"] 1(1) False
      by (simp add: client_read_clone_def kept_def length_upd_ses del: upd_ses_simps(9))
  qed
  have "kept ?lb (res_bind (client_read_clone s (length bs) ?lb) (\<lambda>lb. Inr (client_read_maintain s lb)))"
    by (rule kept_bind [OF 2]) (use client_read_maintain_ok 1(2) in \<open>simp add: kept_def\<close>)
  then show ?thesis using fd bs fresh by (simp add: client_read_def kept_def)
qed

lemma client_write_kept:
  assumes ok: "lb_ok lb" and fd: "fd_session fd lb = Inr s"
  shows "kept lb (client_write fd nbytes lb)"
proof (cases "nbytes < 0")
  case True
  then show ?thesis
    using kept_closing(1) [OF ok fd_session_bound(1) [OF ok fd]] fd by (simp add: client_write_def)
next
  case False
  note s = fd_session_bound(1) [OF ok fd]
  let ?lb = "upd_ses s (client_sent (nat nbytes)) lb"
  have 1: "lb_ok ?lb" "s < length (sessions ?lb)"
    using lb_ok_step [OF ok s, of "client_sent (nat nbytes)"] step_shapes(4) [OF lb_okD(6) [OF ok s]] s by simp_all
  have "lb_ok (upd_ses s member_unfull ?lb)"
    using lb_ok_step [OF 1] step_shapes(5) [OF lb_okD(6) [OF 1]] by simp
  then show ?thesis
    using kept_closing(1) [OF 1] False fd by (simp add: client_write_def Let_def kept_def)
qed

lemma member_read_kept:
  assumes ok: "lb_ok lb" and fd: "fd_session fd lb = Inr s" and con: "flag (sessions lb ! s) STATE_MEM_CONNECTED"
    and fits: "read_fits (member_used_buffer (sessions lb ! s)) rd"
  shows "kept lb (member_read fd rd lb)"
proof (cases "rd = Rd_err \<or> rd = Rd []")
  case True
  then show ?thesis
    using kept_closing(1,2) [OF ok fd_session_bound(1) [OF ok fd]] fd by (auto simp: member_read_def Let_def)
next
  case False
  then obtain bs where bs: "rd = Rd bs" "bs \<noteq> []" by (cases rd) auto
  note s = fd_session_bound(1) [OF ok fd]
  obtain m where m: "ses_member (sessions lb ! s) = Some m" using ses_connD(5) [OF lb_okD(7) [OF ok s] con] by blast
  have "ses_shape (member_recv bs (sessions lb ! s))"
    using fits bs step_shapes(6) [OF lb_okD(6) [OF ok s]] by (simp add: read_fits_def)
  then have "lb_ok (upd_bal (upd_member m (brecv_add (length bs))) (upd_ses s (member_recv bs) lb))"
    by (intro lb_ok_member_traffic [OF ok s _ _ m con]) simp_all
  then show ?thesis using fd bs m by (simp add: member_read_def Let_def kept_def)
qed

lemma member_write_kept:
  assumes ok: "lb_ok lb" and fd: "fd_session fd lb = Inr s"
    and con: "0 \<le> nbytes \<Longrightarrow> flag (sessions lb ! s) STATE_MEM_CONNECTED"
  shows "kept lb (member_write fd nbytes lb)"
proof (cases "nbytes < 0")
  case True
  then show ?thesis
    using kept_closing(2) [OF ok fd_session_bound(1) [OF ok fd]] fd by (simp add: member_write_def)
next
  case False
  then have con: "flag (sessions lb ! s) STATE_MEM_CONNECTED" using con by simp
  note s = fd_session_bound(1) [OF ok fd]
  obtain m where m: "ses_member (sessions lb ! s) = Some m" using ses_connD(5) [OF lb_okD(7) [OF ok s] con] by blast
  have "lb_ok (upd_bal (upd_member m (bsent_add (nat nbytes))) (upd_ses s (member_sent (nat nbytes)) lb))"
    using step_shapes(7) [OF lb_okD(6) [OF ok s]] by (intro lb_ok_member_traffic [OF ok s _ _ m con]) simp_all
  then show ?thesis using fd False m by (simp add: member_write_def Let_def kept_def)
qed

lemma clone_read_kept:
  assumes ok: "lb_ok lb" and fd: "fd_session fd lb = Inr s" and con: "flag (sessions lb ! s) STATE_CLO_CONNECTED"
  shows "kept lb (clone_read fd rd lb)"
proof (cases "rd = Rd_err \<or> rd = Rd []")
  case True
  then show ?thesis
    using kept_closing(3) [OF ok fd_session_bound(1) [OF ok fd]] fd by (auto simp: clone_read_def)
next
  case False
  then obtain bs where bs: "rd = Rd bs" "bs \<noteq> []" by (cases rd) auto
  note s = fd_session_bound(1) [OF ok fd]
  obtain k where k: "ses_clone (sessions lb ! s) = Some k" using ses_connD(6) [OF lb_okD(7) [OF ok s] con] by blast
  have "lb_ok (upd_bal (upd_clone k (brecv_add (length bs))) (upd_ses s (\<lambda>x. x) lb))"
    using lb_okD(6) [OF ok s]
    by (intro lb_ok_clone_traffic [OF ok s _ _ k con]) (simp_all add: same_conn_def)
  moreover have "upd_ses s (\<lambda>x. x) lb = lb" by (simp add: upd_ses_def)
  ultimately show ?thesis using fd bs k by (simp add: clone_read_def kept_def)
qed

lemma clone_write_kept:
  assumes ok: "lb_ok lb" and fd: "fd_session fd lb = Inr s"
    and con: "0 \<le> nbytes \<Longrightarrow> flag (sessions lb ! s) STATE_CLO_CONNECTED"
  shows "kept lb (clone_write fd nbytes lb)"
proof (cases "nbytes < 0")
  case True
  then show ?thesis
    using kept_closing(3) [OF ok fd_session_bound(1) [OF ok fd]] fd by (simp add: clone_write_def)
next
  case False
  then have con: "flag (sessions lb ! s) STATE_CLO_CONNECTED" using con by simp
  note s = fd_session_bound(1) [OF ok fd]
  obtain k where k: "ses_clone (sessions lb ! s) = Some k" using ses_connD(6) [OF lb_okD(7) [OF ok s] con] by blast
  have "lb_ok (upd_bal (upd_clone k (bsent_add (nat nbytes))) (upd_ses s (clone_sent (nat nbytes)) lb))"
    using step_shapes(8) [OF lb_okD(6) [OF ok s]] by (intro lb_ok_clone_traffic [OF ok s _ _ k con]) simp_all
  then show ?thesis using fd False k by (simp add: clone_write_def Let_def kept_def)
qed

section \<open>Events\<close>

text \<open>
  What the system calls promise for an event on an established session: a read delivers at most the
  free space of the buffer it fills, and a write to a descriptor that the read handler of the
  same event has closed fails.
\<close>

definition io_contract :: "EVENT \<Rightarrow> nat \<Rightarrow> LB \<Rightarrow> bool" where
  "io_contract ev s lb =
     (let x = sessions lb ! s; fd = ev_fd ev in
      if fd = clientfd x then read_fits (client_used_buffer x) (ev_read ev)
      else if fd = memberfd x then
        read_fits (member_used_buffer x) (ev_read ev) \<and>
        (case (if ev_in ev then member_read fd (ev_read ev) lb else Inr lb) of Inl e \<Rightarrow> True
         | Inr lb' \<Rightarrow> 0 \<le> ev_write ev \<longrightarrow> memberfd (sessions lb' ! s) = fd)
      else if fd = clonefd x then
        (case (if ev_in ev then clone_read fd (ev_read ev) lb else Inr lb) of Inl e \<Rightarrow> True
         | Inr lb' \<Rightarrow> 0 \<le> ev_write ev \<longrightarrow> clonefd (sessions lb' ! s) = fd)
      else True)"

lemma io_event_kept:
  assumes ok: "lb_ok lb" and fail: "kept lb (on_fail lb)" and inp: "kept lb (on_in lb)"
    and out: "\<And>lb'. (if ev_in ev then on_in lb else Inr lb) = Inr lb' \<Longrightarrow> lb_ok lb' \<Longrightarrow> fds lb' = fds lb \<Longrightarrow> kept lb' (on_out lb')"
  shows "kept lb (io_event on_fail on_in on_out ev lb)"
proof -
  have "kept lb (if ev_in ev then on_in lb else Inr lb)" using inp ok by (simp add: kept_def)
  moreover have "kept lb' (if ev_out ev then on_out lb' else Inr lb')"
    if "(if ev_in ev then on_in lb else Inr lb) = Inr lb'" "lb_ok lb'" "fds lb' = fds lb" for lb'
    using out [OF that] that(2) by (simp add: kept_def)
  ultimately have "kept lb (res_bind (if ev_in ev then on_in lb else Inr lb) (\<lambda>lb. if ev_out ev then on_out lb else Inr lb))"
    by (rule kept_bind)
  then show ?thesis using fail by (simp add: io_event_def)
qed

lemma fd_session_fds: "fds lb' = fds lb \<Longrightarrow> fd_session fd lb' = fd_session fd lb"
  by (simp add: fd_session_def)

lemma handle_event_kept:
  assumes ok: "lb_ok lb" and l: "ev_fd ev \<noteq> listenerfd" and fd: "fd_session (ev_fd ev) lb = Inr s"
    and io: "io_contract ev s lb"
  shows "kept lb (handle_event listenerfd ev lb)"
proof -
  note b = fd_session_bound [OF ok fd]
  let ?x = "sessions lb ! s" and ?fd = "ev_fd ev"
  note conn = ses_connD [OF lb_okD(7) [OF ok b(1)]]
  note closing = kept_closing [OF ok b(1)]
  consider (cli) "?fd = clientfd ?x" | (mem) "?fd \<noteq> clientfd ?x" "?fd = memberfd ?x"
    | (clo) "?fd \<noteq> clientfd ?x" "?fd \<noteq> memberfd ?x" "?fd = clonefd ?x"
    | (none) "?fd \<noteq> clientfd ?x" "?fd \<noteq> memberfd ?x" "?fd \<noteq> clonefd ?x" by blast
  then show ?thesis
  proof cases
    case cli
    then have fits: "read_fits (client_used_buffer ?x) (ev_read ev)" using io by (simp add: io_contract_def)
    have "kept lb (io_event (delete_session s) (client_read ?fd (ev_read ev) (ev_msock ev) (ev_csock ev))
        (client_write ?fd (ev_write ev)) ev lb)"
    proof (rule io_event_kept [where on_fail = "delete_session s", OF ok closing(1)])
      show "kept lb (client_read ?fd (ev_read ev) (ev_msock ev) (ev_csock ev) lb)"
        by (rule client_read_kept [OF ok fd fits])
    next
      fix lb' assume ok': "lb_ok lb'" and f: "fds lb' = fds lb"
      have "fd_session ?fd lb' = Inr s" using fd fd_session_fds [OF f] by simp
      then show "kept lb' (client_write ?fd (ev_write ev) lb')" by (rule client_write_kept [OF ok'])
    qed
    then show ?thesis using cli l fd by (simp add: handle_event_def Let_def)
  next
    case mem
    have con: "flag ?x STATE_MEM_CONNECTED" using conn(2) mem(2) b(2) by simp
    have "kept lb (io_event (disconnect_member s) (member_read ?fd (ev_read ev)) (member_write ?fd (ev_write ev)) ev lb)"
    proof (rule io_event_kept [where on_fail = "disconnect_member s", OF ok closing(2)])
      show "kept lb (member_read ?fd (ev_read ev) lb)"
        using member_read_kept [OF ok fd con] io mem by (simp add: io_contract_def Let_def)
    next
      fix lb' assume r: "(if ev_in ev then member_read ?fd (ev_read ev) lb else Inr lb) = Inr lb'"
        and ok': "lb_ok lb'" and f: "fds lb' = fds lb"
      have fd': "fd_session ?fd lb' = Inr s" using fd fd_session_fds [OF f] by simp
      have "0 \<le> ev_write ev \<Longrightarrow> memberfd (sessions lb' ! s) = ?fd" using io mem r by (cases "ev_in ev") (simp_all add: io_contract_def Let_def)
      then show "kept lb' (member_write ?fd (ev_write ev) lb')"
        using member_write_kept [OF ok' fd'] ses_connD(2) [OF lb_okD(7) [OF ok' fd_session_bound(1) [OF ok' fd']]] b(2) by simp
    qed
    then show ?thesis using mem l fd by (simp add: handle_event_def Let_def)
  next
    case clo
    have con: "flag ?x STATE_CLO_CONNECTED" using conn(3) clo(3) b(2) by simp
    have "kept lb (io_event (disconnect_clone s) (clone_read ?fd (ev_read ev)) (clone_write ?fd (ev_write ev)) ev lb)"
    proof (rule io_event_kept [where on_fail = "disconnect_clone s", OF ok closing(3)])
      show "kept lb (clone_read ?fd (ev_read ev) lb)" by (rule clone_read_kept [OF ok fd con])
    next
      fix lb' assume r: "(if ev_in ev then clone_read ?fd (ev_read ev) lb else Inr lb) = Inr lb'"
        and ok': "lb_ok lb'" and f: "fds lb' = fds lb"
      have fd': "fd_session ?fd lb' = Inr s" using fd fd_session_fds [OF f] by simp
      have "0 \<le> ev_write ev \<Longrightarrow> clonefd (sessions lb' ! s) = ?fd" using io clo r by (cases "ev_in ev") (simp_all add: io_contract_def Let_def)
      then show "kept lb' (clone_write ?fd (ev_write ev) lb')"
        using clone_write_kept [OF ok' fd'] ses_connD(3) [OF lb_okD(7) [OF ok' fd_session_bound(1) [OF ok' fd']]] b(2) by simp
    qed
    then show ?thesis using clo l fd by (simp add: handle_event_def Let_def)
  next
    case none
    then show ?thesis using l fd ok by (simp add: handle_event_def Let_def kept_def)
  qed
qed

end
