(* ===== verification/Accepting.thy ===== *)
theory Accepting
  imports Session_Inv
begin

text \<open>
  Choosing and connecting servers keeps the invariant of the server process, and so does accepting a
  client, as long as the epoll registrations succeed and new descriptors fit into the \<open>fds\<close> array.
\<close>

section \<open>Connecting\<close>

definition member_joined :: "nat \<Rightarrow> int \<Rightarrow> SESSION \<Rightarrow> SESSION" where
  "member_joined m fd x = set_bits STATE_MEM_READ_READY (set_bits STATE_MEM_CONNECTED (x\<lparr>ses_member := Some m, memberfd := fd\<rparr>))"

definition clone_joined :: "nat \<Rightarrow> int \<Rightarrow> SESSION \<Rightarrow> SESSION" where
  "clone_joined k fd x = set_bits STATE_CLO_READ_READY (set_bits STATE_CLO_CONNECTED (x\<lparr>ses_clone := Some k, clonefd := fd\<rparr>))"

definition register_fd :: "int \<Rightarrow> nat \<Rightarrow> LB \<Rightarrow> LB" where
  "register_fd fd s lb = lb\<lparr>fds := (fds lb)[nat fd := Some s], interest := (interest lb)(fd \<mapsto> ro_ev)\<rparr>"

text \<open>The system calls that a successful connection needs.\<close>

definition member_sock_ok :: "SOCK \<Rightarrow> bool" where
  "member_sock_ok k \<longleftrightarrow> 0 \<le> sk_socket k \<and> sk_nonblock k \<and> sk_bind k \<and> sk_connect k"

definition clone_sock_ok :: "SOCK \<Rightarrow> bool" where
  "clone_sock_ok k \<longleftrightarrow> 0 \<le> sk_socket k \<and> sk_nonblock k \<and> sk_sndbuf k \<and> sk_rcvbuf k \<and> sk_reuseaddr k \<and> sk_keepalive k
     \<and> sk_bind k \<and> sk_connect k"

lemma warn_unless_simps [simp]:
  "sessions (warn_unless t lb) = sessions lb" "fds (warn_unless t lb) = fds lb" "lb_ok (warn_unless t lb) = lb_ok lb"
  "next_member (warn_unless t lb) = next_member lb" "next_clone (warn_unless t lb) = next_clone lb"
  "use_clone (warn_unless t lb) = use_clone lb" "unused_sessions (warn_unless t lb) = unused_sessions lb"
  "uq_rear (warn_unless t lb) = uq_rear lb" "session_limit (balancer (warn_unless t lb)) = session_limit (balancer lb)"
  "members (balancer (warn_unless t lb)) = members (balancer lb)" "clones (balancer (warn_unless t lb)) = clones (balancer lb)"
  by (simp_all add: warn_unless_def)

lemma connect_member_eq:
  assumes "s < length (sessions lb)" and "sk_epoll_add k" and "sk_socket k < int (length (fds lb))"
  shows "connect_member s k lb =
    (if member_sock_ok k
     then Inr (0, upd_bal (upd_member (next_member lb) conn_start) (upd_ses s (member_joined (next_member lb) (sk_socket k))
            (register_fd (sk_socket k) s (warn_unless (sk_reuseaddr k) (warn_unless (sk_nodelay k) lb)))))
     else Inr (- 1, reject_log (if 0 \<le> sk_socket k \<and> sk_nonblock k then warn_unless (sk_reuseaddr k) (warn_unless (sk_nodelay k) lb) else lb)))"
  using assms
  by (simp add: connect_member_def member_sock_ok_def set_fd_session_def Let_def upd_ses_def upd_bal_def epoll_add_def
      register_fd_def member_joined_def)

lemma connect_clone_eq:
  assumes "s < length (sessions lb)" and "sk_epoll_add k" and "sk_socket k < int (length (fds lb))"
  shows "connect_clone s k lb =
    (if clone_sock_ok k
     then Inr (0, upd_bal (upd_clone (next_clone lb) conn_start) (upd_ses s (clone_joined (next_clone lb) (sk_socket k))
            (register_fd (sk_socket k) s (warn_unless (sk_nodelay k) lb))))
     else Inr (if 0 \<le> sk_socket k \<and> sk_nonblock k \<and> sk_sndbuf k \<and> sk_rcvbuf k \<and> sk_reuseaddr k \<and> sk_keepalive k \<and> \<not> sk_bind k
               then - 1 else 1,
             reject_log (if 0 \<le> sk_socket k \<and> sk_nonblock k then warn_unless (sk_nodelay k) lb else lb)))"
  using assms
  by (simp add: connect_clone_def clone_sock_ok_def set_fd_session_def Let_def upd_ses_def upd_bal_def epoll_add_def
      register_fd_def clone_joined_def)

lemma register_fd_simps [simp]:
  "sessions (register_fd fd s lb) = sessions lb" "balancer (register_fd fd s lb) = balancer lb"
  "next_member (register_fd fd s lb) = next_member lb" "next_clone (register_fd fd s lb) = next_clone lb"
  "use_clone (register_fd fd s lb) = use_clone lb" "fds (register_fd fd s lb) = (fds lb)[nat fd := Some s]"
  by (simp_all add: register_fd_def)

lemma register_fd_ok:
  assumes "lb_ok lb" and "s < length (sessions lb)"
  shows "lb_ok (register_fd fd s lb)"
  using assms set_update_subset_insert [of "fds lb" "nat fd" "Some s"]
  by (auto simp: register_fd_def lb_ok_def queue_ok_def counts_ok_def)

lemma joined_shape [simp]:
  "ses_shape (member_joined m fd x) = ses_shape x" "ses_shape (clone_joined k fd x) = ses_shape x"
  by (simp_all add: member_joined_def clone_joined_def ses_shape_def)

lemma joined_conn:
  assumes "ses_conn x" and "0 \<le> fd" and "m < MAXSERVERS"
  shows "ses_conn (member_joined m fd x)" "ses_conn (clone_joined m fd x)"
  using assms by (auto simp: member_joined_def clone_joined_def ses_conn_def)

lemma joined_uses:
  "memberfd x < 0 \<Longrightarrow> ses_conn x \<Longrightarrow> uses_member i (member_joined m fd x) \<longleftrightarrow> i = m"
  "memberfd x < 0 \<Longrightarrow> ses_conn x \<Longrightarrow> \<not> uses_member i x"
  "clonefd x < 0 \<Longrightarrow> ses_conn x \<Longrightarrow> uses_clone i (clone_joined m fd x) \<longleftrightarrow> i = m"
  "clonefd x < 0 \<Longrightarrow> ses_conn x \<Longrightarrow> \<not> uses_clone i x"
  "uses_clone i (member_joined m fd x) = uses_clone i x" "uses_member i (clone_joined m fd x) = uses_member i x"
  by (auto simp: member_joined_def clone_joined_def uses_member_def uses_clone_def ses_conn_def)

lemma conn_start_simps [simp]:
  "srv_status (conn_start x) = srv_status x" "srv_id (conn_start x) = srv_id x"
  "srv_hash_table_usage (conn_start x) = srv_hash_table_usage x" "srv_c (conn_start x) = srv_c x + 1"
  by (simp_all add: conn_start_def)

lemma connect_member_ok:
  assumes ok: "lb_ok lb" and s: "s < length (sessions lb)" and off: "memberfd (sessions lb ! s) = - 1"
    and slot: "srv_status (members (balancer lb) ! next_member lb) \<noteq> SERVER_STATE_FREE"
    and k: "sk_epoll_add k" "sk_socket k < int (length (fds lb))"
  obtains st lb' where "connect_member s k lb = Inr (st, lb')" and "lb_ok lb'"
    and "st = (if member_sock_ok k then 0 else - 1)"
    and "sessions lb' = (if member_sock_ok k
      then (sessions lb)[s := member_joined (next_member lb) (sk_socket k) (sessions lb ! s)] else sessions lb)"
    and "clones (balancer lb') = clones (balancer lb)" and "next_clone lb' = next_clone lb" and "use_clone lb' = use_clone lb"
    and "length (fds lb') = length (fds lb)"
proof (cases "member_sock_ok k")
  case False
  then show ?thesis using that connect_member_eq [OF s k] ok by simp
next
  case True
  let ?x = "sessions lb ! s" and ?m = "next_member lb" and ?fd = "sk_socket k"
  let ?w = "register_fd ?fd s (warn_unless (sk_reuseaddr k) (warn_unless (sk_nodelay k) lb))"
  have w: "lb_ok ?w" by (rule register_fd_ok) (use ok s in simp_all)
  have fd: "0 \<le> ?fd" using True by (simp add: member_sock_ok_def)
  note conn = lb_okD(7) [OF ok s] and shp = lb_okD(6) [OF ok s] and m = lb_okD(2) [OF ok]
  have "lb_ok (upd_bal (upd_member ?m conn_start) (upd_ses s (member_joined ?m ?fd) ?w))"
    using s off slot joined_conn(1) [OF conn fd m] joined_uses [where x = ?x] conn shp
    by (intro lb_ok_ses_member [OF w]) (simp_all add: m)
  then show ?thesis using that connect_member_eq [OF s k] True by simp
qed

lemma connect_clone_ok:
  assumes ok: "lb_ok lb" and s: "s < length (sessions lb)" and off: "clonefd (sessions lb ! s) = - 1"
    and slot: "srv_status (clones (balancer lb) ! next_clone lb) \<noteq> SERVER_STATE_FREE"
    and k: "sk_epoll_add k" "sk_socket k < int (length (fds lb))"
  obtains st lb' where "connect_clone s k lb = Inr (st, lb')" and "lb_ok lb'" and "length (fds lb') = length (fds lb)"
    and "sessions lb' = (if clone_sock_ok k
      then (sessions lb)[s := clone_joined (next_clone lb) (sk_socket k) (sessions lb ! s)] else sessions lb)"
proof (cases "clone_sock_ok k")
  case False
  then show ?thesis using that connect_clone_eq [OF s k] ok by simp
next
  case True
  let ?x = "sessions lb ! s" and ?m = "next_clone lb" and ?fd = "sk_socket k"
  let ?w = "register_fd ?fd s (warn_unless (sk_nodelay k) lb)"
  have w: "lb_ok ?w" by (rule register_fd_ok) (use ok s in simp_all)
  have fd: "0 \<le> ?fd" using True by (simp add: clone_sock_ok_def)
  note conn = lb_okD(7) [OF ok s] and shp = lb_okD(6) [OF ok s] and m = lb_okD(3) [OF ok]
  have "lb_ok (upd_bal (upd_clone ?m conn_start) (upd_ses s (clone_joined ?m ?fd) ?w))"
    using s off slot joined_conn(2) [OF conn fd m] joined_uses [where x = ?x] conn shp
    by (intro lb_ok_ses_clone [OF w]) (simp_all add: m)
  then show ?thesis using that connect_clone_eq [OF s k] True by simp
qed

section \<open>Choosing\<close>

text \<open>Selection touches the selection globals only.\<close>

definition same_server :: "LB \<Rightarrow> LB \<Rightarrow> bool" where
  "same_server lb lb' \<longleftrightarrow>
     sessions lb' = sessions lb \<and> unused_sessions lb' = unused_sessions lb \<and> uq_head lb' = uq_head lb \<and>
     uq_rear lb' = uq_rear lb \<and> fds lb' = fds lb \<and> interest lb' = interest lb \<and> balancer lb' = balancer lb"

lemma get_available_clones_server [simp]:
  "sessions (get_available_clones lb) = sessions lb"
  "unused_sessions (get_available_clones lb) = unused_sessions lb"
  "uq_head (get_available_clones lb) = uq_head lb"
  "uq_rear (get_available_clones lb) = uq_rear lb"
  "fds (get_available_clones lb) = fds lb"
  "interest (get_available_clones lb) = interest lb"
  by (simp_all add: get_available_clones_def Let_def)

lemma get_available_servers_server [simp]:
  "sessions (snd (get_available_servers lb)) = sessions lb"
  "unused_sessions (snd (get_available_servers lb)) = unused_sessions lb"
  "uq_head (snd (get_available_servers lb)) = uq_head lb"
  "uq_rear (snd (get_available_servers lb)) = uq_rear lb"
  "fds (snd (get_available_servers lb)) = fds lb"
  "interest (snd (get_available_servers lb)) = interest lb"
  "balancer (snd (get_available_servers lb)) = balancer lb"
  by (simp_all add: get_available_servers_def Let_def)

lemma selection_same_server:
  "same_server lb (snd (get_available_servers lb))" "same_server lb (set_rr_server lb)"
  "same_server lb (set_lc_server lb)" "same_server lb (set_ll_server lb)"
proof -
  show rr: "same_server lb (set_rr_server lb)" by (simp add: same_server_def set_rr_server_def Let_def)
  then show "same_server lb (set_lc_server lb)" by (simp add: same_server_def set_lc_server_def Let_def)
  show "same_server lb (set_ll_server lb)" by (simp add: same_server_def set_ll_server_def Let_def)
qed (simp add: same_server_def)

lemma same_server_trans: "same_server a b \<Longrightarrow> same_server b c \<Longrightarrow> same_server a c"
  by (simp add: same_server_def)

lemma lb_ok_same_server:
  assumes "lb_ok lb" and "same_server lb lb'" and "next_member lb' < MAXSERVERS" and "next_clone lb' < MAXSERVERS"
  shows "lb_ok lb'"
  using assms by (simp add: lb_ok_def same_server_def queue_ok_def counts_ok_def)

lemma sel_ready_bounds:
  assumes "sel_ready g"
  shows "next_member g < MAXSERVERS" and "srv_status (members (balancer g) ! next_member g) \<noteq> SERVER_STATE_FREE"
    and "use_clone g \<Longrightarrow> next_clone g < MAXSERVERS"
    and "use_clone g \<Longrightarrow> srv_status (clones (balancer g) ! next_clone g) \<noteq> SERVER_STATE_FREE"
proof -
  have e: "next_member g \<in> eligible (overload_mode (balancer g)) (members (balancer g)) (nmembers (balancer g))"
    using assms by (auto simp: sel_ready_def)
  then show "next_member g < MAXSERVERS" using eligible_id(3) assms by (auto simp: sel_ready_def)
  show "srv_status (members (balancer g) ! next_member g) \<noteq> SERVER_STATE_FREE"
    using eligibleD [OF e] servable_used by blast
  assume "use_clone g"
  then have "next_clone g < nclones (balancer g)" "nclones (balancer g) \<le> MAXSERVERS"
    "servable (overload_mode (balancer g)) (clones (balancer g) ! next_clone g)"
    using assms table_okD(2) by (auto simp: sel_ready_def)
  then show "next_clone g < MAXSERVERS" "srv_status (clones (balancer g) ! next_clone g) \<noteq> SERVER_STATE_FREE"
    using servable_used by auto
qed

lemma clone_unused_kept:
  "\<not> use_clone lb \<Longrightarrow> next_clone (set_rr_server lb) = next_clone lb"
  "\<not> use_clone lb \<Longrightarrow> next_clone (set_lc_server lb) = next_clone lb"
  "\<not> use_clone lb \<Longrightarrow> next_clone (set_ll_server lb) = next_clone lb"
  by (simp_all add: set_rr_server_def set_lc_server_def set_ll_server_def Let_def)

lemma run_algorithm_ready:
  assumes rdy: "sel_ready lb" and nc: "next_clone lb < MAXSERVERS"
    and alg: "algorithm (balancer lb) \<noteq> ALGORITHM_HASH" "algorithm (balancer lb) \<noteq> ALGORITHM_STATIC"
  obtains lb' where "run_algorithm buf lb = Inr lb'" and "sel_ready lb'" and "same_server lb lb'" and "next_clone lb' < MAXSERVERS"
proof -
  define lb' where "lb' = (case algorithm (balancer lb) of ALGORITHM_RR \<Rightarrow> set_rr_server lb
    | ALGORITHM_LC \<Rightarrow> set_lc_server lb | _ \<Rightarrow> set_ll_server lb)"
  have r: "run_algorithm buf lb = Inr lb'" using alg by (simp add: run_algorithm_def lb'_def split: algorithm_t.splits)
  have rdy': "sel_ready lb'"
    using rr.keeps_ready [OF rdy] lcs.keeps_ready [OF rdy] lls.keeps_ready [OF rdy]
    by (simp add: lb'_def split: algorithm_t.splits)
  have same: "same_server lb lb'" using selection_same_server(2-4) by (simp add: lb'_def split: algorithm_t.splits)
  have "next_clone lb' < MAXSERVERS"
  proof (cases "use_clone lb")
    case True
    then have "use_clone lb'" by (simp add: lb'_def split: algorithm_t.splits)
    then show ?thesis by (rule sel_ready_bounds(3) [OF rdy'])
  next
    case False
    then show ?thesis using clone_unused_kept [OF False] nc by (simp add: lb'_def split: algorithm_t.splits)
  qed
  with that r rdy' same show ?thesis by blast
qed

lemma get_available_servers_next:
  "fst (get_available_servers lb) \<noteq> 0 \<Longrightarrow> next_member (snd (get_available_servers lb)) = next_member lb"
  "fst (get_available_servers lb) \<noteq> 0 \<Longrightarrow> next_clone (snd (get_available_servers lb)) = next_clone lb"
  "\<not> use_clone (snd (get_available_servers lb)) \<Longrightarrow> next_clone (snd (get_available_servers lb)) = next_clone lb"
proof -
  show "\<not> use_clone (snd (get_available_servers lb)) \<Longrightarrow> next_clone (snd (get_available_servers lb)) = next_clone lb"
    by (simp add: get_available_servers_def get_available_clones_def Let_def split: if_splits)
qed (auto simp: get_available_servers_def Let_def)

lemma available_ok:
  assumes ok: "lb_ok lb"
  shows "lb_ok (snd (get_available_servers lb))"
    and "fst (get_available_servers lb) = 0 \<Longrightarrow> sel_ready (snd (get_available_servers lb))"
proof -
  have t: "table_ok (members (balancer lb)) (nmembers (balancer lb))" "table_ok (clones (balancer lb)) (nclones (balancer lb))"
    using lb_okD(1) [OF ok] by (auto simp: balancer_ok_def)
  show rdy: "sel_ready (snd (get_available_servers lb))" if "fst (get_available_servers lb) = 0"
    using get_available_servers_outcome(2) [OF t lb_okD(2,3) [OF ok] that] .
  have "next_clone (snd (get_available_servers lb)) < MAXSERVERS \<and> next_member (snd (get_available_servers lb)) < MAXSERVERS"
  proof (cases "fst (get_available_servers lb) = 0")
    case True
    then show ?thesis
      using sel_ready_bounds(1,3) [OF rdy [OF True]] get_available_servers_next(3) lb_okD(3) [OF ok] by metis
  next
    case False
    then show ?thesis using get_available_servers_next(1,2) [OF False] lb_okD(2,3) [OF ok] by simp
  qed
  then show "lb_ok (snd (get_available_servers lb))"
    using lb_ok_same_server [OF ok selection_same_server(1)] by blast
qed

text \<open>The environment of a connection attempt: registrations succeed, descriptors are in range.\<close>

definition env_ok :: "SOCK \<Rightarrow> LB \<Rightarrow> bool" where
  "env_ok k lb \<longleftrightarrow> sk_epoll_add k \<and> sk_socket k < int (length (fds lb))"

text \<open>The member half of \<open>connect_server\<close>, skipped for a session that has a member descriptor.\<close>

lemma connect_first_half:
  assumes ok: "lb_ok lb" and s: "s < length (sessions lb)" and rdy: "sel_ready lb" and k: "env_ok km lb"
  obtains st lb1 where
    "(if memberfd (sessions lb ! s) = - 1 then connect_member s km lb else Inr (0, lb)) = Inr (st, lb1)" and "lb_ok lb1"
    and "length (sessions lb1) = length (sessions lb)" and "length (fds lb1) = length (fds lb)"
    and "clones (balancer lb1) = clones (balancer lb)" and "next_clone lb1 = next_clone lb" and "use_clone lb1 = use_clone lb"
    and "memberfd (sessions lb ! s) = - 1 \<longrightarrow> st \<noteq> - 1 \<longrightarrow> uses_member (next_member lb) (sessions lb1 ! s)"
proof (cases "memberfd (sessions lb ! s) = - 1")
  case True
  have km: "sk_epoll_add km" "sk_socket km < int (length (fds lb))" using k by (auto simp: env_ok_def)
  obtain st1 lb1 where 1: "connect_member s km lb = Inr (st1, lb1)" "lb_ok lb1"
    "st1 = (if member_sock_ok km then 0 else - 1)"
    "sessions lb1 = (if member_sock_ok km
      then (sessions lb)[s := member_joined (next_member lb) (sk_socket km) (sessions lb ! s)] else sessions lb)"
    "clones (balancer lb1) = clones (balancer lb)" "next_clone lb1 = next_clone lb" "use_clone lb1 = use_clone lb"
    "length (fds lb1) = length (fds lb)"
    by (rule connect_member_ok [OF ok s True sel_ready_bounds(2) [OF rdy] km])
  have u: "uses_member (next_member lb) (sessions lb1 ! s)" if "st1 \<noteq> - 1"
    using that 1(3,4) s True joined_uses(1) lb_okD(7) [OF ok s] by (simp split: if_splits)
  have "length (sessions lb1) = length (sessions lb)" using 1(4) by simp
  then show ?thesis using that [of st1 lb1] 1 u True by simp
next
  case False
  then show ?thesis using that [of 0 lb] ok by simp
qed

lemma connect_server_ok:
  assumes ok: "lb_ok lb" and s: "s < length (sessions lb)" and rdy: "sel_ready lb" and k: "env_ok km lb" "env_ok kc lb"
  obtains st lb' where "connect_server s km kc lb = Inr (st, lb')" and "lb_ok lb'"
    and "length (sessions lb') = length (sessions lb)"
    and "memberfd (sessions lb ! s) = - 1 \<longrightarrow> st \<noteq> - 1 \<longrightarrow> uses_member (next_member lb) (sessions lb' ! s)"
proof -
  obtain st1 lb1 where
    1: "(if memberfd (sessions lb ! s) = - 1 then connect_member s km lb else Inr (0, lb)) = Inr (st1, lb1)" "lb_ok lb1"
    "length (sessions lb1) = length (sessions lb)" "length (fds lb1) = length (fds lb)"
    "clones (balancer lb1) = clones (balancer lb)" "next_clone lb1 = next_clone lb" "use_clone lb1 = use_clone lb"
    "memberfd (sessions lb ! s) = - 1 \<longrightarrow> st1 \<noteq> - 1 \<longrightarrow> uses_member (next_member lb) (sessions lb1 ! s)"
    by (rule connect_first_half [OF ok s rdy k(1)])
  have s1: "s < length (sessions lb1)" using s 1(3) by simp
  show ?thesis
  proof (cases "st1 \<noteq> - 1 \<and> use_clone lb1 \<and> clonefd (sessions lb1 ! s) = - 1")
    case True
    then have off1: "clonefd (sessions lb1 ! s) = - 1" and uc: "use_clone lb" using 1(7) by auto
    have kc: "sk_epoll_add kc" "sk_socket kc < int (length (fds lb1))" using k(2) 1(4) by (auto simp: env_ok_def)
    have slot: "srv_status (clones (balancer lb1) ! next_clone lb1) \<noteq> SERVER_STATE_FREE"
      using sel_ready_bounds(4) [OF rdy uc] 1(5,6) by simp
    from connect_clone_ok [OF 1(2) s1 off1 slot kc] obtain st lb' where
      2: "connect_clone s kc lb1 = Inr (st, lb')" "lb_ok lb'" "sessions lb' = (if clone_sock_ok kc
        then (sessions lb1)[s := clone_joined (next_clone lb1) (sk_socket kc) (sessions lb1 ! s)] else sessions lb1)"
      by metis
    have "uses_member i (sessions lb' ! s) = uses_member i (sessions lb1 ! s)" for i
      using 2(3) s1 joined_uses(6) by simp
    moreover have "connect_server s km kc lb = Inr (st, lb')" using 1(1) 2(1) True by (simp add: connect_server_def)
    moreover have "length (sessions lb') = length (sessions lb)" using 2(3) 1(3) by simp
    ultimately show ?thesis using that [of st lb'] 1(8) 2(2) True by simp
  next
    case False
    then have "connect_server s km kc lb = Inr (st1, lb1) \<or> connect_server s km kc lb = Inr (0, lb1) \<and> st1 \<noteq> - 1"
      using 1(1) by (auto simp: connect_server_def)
    then show ?thesis using that 1(2,3,8) by blast
  qed
qed

lemma choose_server_ok:
  assumes ok: "lb_ok lb" and s: "s < length (sessions lb)"
    and alg: "algorithm (balancer lb) \<noteq> ALGORITHM_HASH" "algorithm (balancer lb) \<noteq> ALGORITHM_STATIC"
    and k: "env_ok km lb" "env_ok kc lb"
  obtains st lb' where "choose_server s km kc lb = Inr (st, lb')" and "lb_ok lb'"
    and "length (sessions lb') = length (sessions lb)"
    and "memberfd (sessions lb ! s) = - 1 \<longrightarrow> st \<noteq> - 1 \<longrightarrow> (\<exists>m \<in> eligible (overload_mode (balancer lb)) (members (balancer lb)) (nmembers (balancer lb)).
      uses_member m (sessions lb' ! s))"
proof -
  let ?g = "snd (get_available_servers lb)"
  have g: "lb_ok ?g" by (rule available_ok(1) [OF ok])
  show ?thesis
  proof (cases "fst (get_available_servers lb) = 0")
    case False
    then show ?thesis using that [of "- 1" ?g] g by (simp add: choose_server_def case_prod_beta)
  next
    case True
    have rdy: "sel_ready ?g" by (rule available_ok(2) [OF ok True])
    from run_algorithm_ready [OF rdy lb_okD(3) [OF g]] alg
    obtain h where h: "run_algorithm (client_read_buffer (sessions ?g ! s)) ?g = Inr h" "sel_ready h"
      "same_server ?g h" "next_clone h < MAXSERVERS" by auto
    have okh: "lb_ok h" by (rule lb_ok_same_server [OF g h(3) sel_ready_bounds(1) [OF h(2)] h(4)])
    have same: "sessions h = sessions lb" "fds h = fds lb" "balancer h = balancer lb" using h(3) by (simp_all add: same_server_def)
    have k': "env_ok km h" "env_ok kc h" using k same by (simp_all add: env_ok_def)
    have el: "next_member h \<in> eligible (overload_mode (balancer lb)) (members (balancer lb)) (nmembers (balancer lb))"
      using sel_readyD(4,6) [OF h(2)] same by simp
    have sh: "s < length (sessions h)" using s same by simp
    obtain st lb' where c: "connect_server s km kc h = Inr (st, lb')" "lb_ok lb'"
      "length (sessions lb') = length (sessions h)"
      "memberfd (sessions h ! s) = - 1 \<longrightarrow> st \<noteq> - 1 \<longrightarrow> uses_member (next_member h) (sessions lb' ! s)"
      by (rule connect_server_ok [OF okh sh h(2) k'])
    then show ?thesis using that [of st lb'] True h(1) el same by (auto simp: choose_server_def case_prod_beta)
  qed
qed

section \<open>Accepting\<close>

lemma get_new_session_ok:
  assumes ok: "lb_ok lb" and r: "get_new_session lb = Inr (p, lb')"
  shows "lb_ok lb'" and "sessions lb' = sessions lb" and "fds lb' = fds lb" and "balancer lb' = balancer lb"
    and "p = Some s \<Longrightarrow> s < length (sessions lb)"
proof -
  have q: "queue_ok lb" by (rule lb_okD(4) [OF ok])
  define h where "h = 1 mod uq_head lb"
  have cases: "p = None \<and> lb' = lb \<or> (lb' = lb\<lparr>uq_head := h\<rparr> \<and> 0 \<le> h \<and> h < int (length (unused_sessions lb))
      \<and> (\<exists>t. p = Some t \<and> unused_sessions lb ! nat h = Some t))"
    using r by (auto simp: get_new_session_def Let_def h_def [symmetric] split: if_splits option.splits)
  show "sessions lb' = sessions lb" "fds lb' = fds lb" "balancer lb' = balancer lb" using cases by auto
  show "lb_ok lb'"
    using cases q ok by (auto simp: lb_ok_def queue_ok_def counts_ok_def)
  show "s < length (sessions lb)" if "p = Some s"
  proof -
    have "nat h < length (unused_sessions lb)" "unused_sessions lb ! nat h = Some s" using cases that by auto
    then have "Some s \<in> set (unused_sessions lb)" by (metis nth_mem)
    then show ?thesis using q by (simp add: queue_ok_def)
  qed
qed

definition client_joined :: "int \<Rightarrow> SESSION \<Rightarrow> SESSION" where
  "client_joined fd x = (set_bits STATE_CLI_READ_READY (set_bits STATE_CLI_CONNECTED x))\<lparr>clientfd := fd\<rparr>"

lemma client_joined_simps:
  "ses_shape (client_joined fd x) = ses_shape x" "0 \<le> fd \<Longrightarrow> ses_conn x \<Longrightarrow> ses_conn (client_joined fd x)"
  "uses_member i (client_joined fd x) = uses_member i x" "uses_clone i (client_joined fd x) = uses_clone i x"
  "memberfd (client_joined fd x) = memberfd x"
  by (auto simp: client_joined_def ses_shape_def ses_conn_def uses_member_def uses_clone_def)

lemma clear_fresh_ok:
  assumes ok: "lb_ok lb" and s: "s < length (sessions lb)"
  shows "lb_ok (upd_ses s (clear_bits STATE_FRESH) lb)"
  using lb_okD(6,7) [OF ok s]
  by (intro lb_ok_step [OF ok s]) (auto simp: same_conn_def ses_shape_def ses_conn_def)

lemma accept_client_ok:
  assumes ok: "lb_ok lb" and fd: "ac_fd a < int (length (fds lb))"
    and new: "get_new_session lb = Inr (p, lb1)"
    and k: "env_ok km lb" "env_ok kc lb"
  obtains lb' where "accept_client a km kc lb = Inr lb'" and "lb_ok lb'"
proof (cases "ac_fd a < 0 \<or> \<not> ac_nonblock a \<or> \<not> ac_nodelay a")
  case True
  then have "accept_client a km kc lb = Inr (if ac_fd a < 0 then reject_log lb else close_fd (ac_fd a) (reject_log lb))"
    by (auto simp: accept_client_def Let_def)
  from that [OF this] show ?thesis using ok by simp
next
  case pass: False
  note n = get_new_session_ok [OF ok new]
  define lb2 where "lb2 = lb1\<lparr>fds := (fds lb1)[nat (ac_fd a) := p]\<rparr>"
  have set: "set_fd_session (ac_fd a) p lb1 = Inr lb2" using pass fd n(3) by (simp add: set_fd_session_def lb2_def)
  have ok2: "lb_ok lb2"
    using n(1,2,5) set_update_subset_insert [of "fds lb1" "nat (ac_fd a)" p]
    by (fastforce simp: lb2_def lb_ok_def queue_ok_def counts_ok_def)
  show ?thesis
  proof (cases p)
    case None
    then show ?thesis using that pass new set ok2 by (simp add: accept_client_def Let_def)
  next
    case (Some s)
    define lb3 where "lb3 = upd_ses s (client_joined (ac_fd a)) lb2"
    have s2: "s < length (sessions lb2)" using n(2,5) Some by (simp add: lb2_def)
    have eq: "upd_ses s (\<lambda>x. x\<lparr>clientfd := ac_fd a\<rparr>) (upd_ses s (set_bits STATE_CLI_READ_READY) (upd_ses s (set_bits STATE_CLI_CONNECTED) lb2)) = lb3"
      using s2 by (simp add: upd_ses_close(3) lb3_def client_joined_def [abs_def])
    have ok3: "lb_ok lb3"
      using lb_okD(6,7) [OF ok2 s2] client_joined_simps pass by (auto simp: lb3_def intro: lb_ok_upd_ses [OF ok2 s2])
    have s3: "s < length (sessions lb3)" using s2 by (simp add: lb3_def)
    have ok4: "lb_ok (epoll_add (ac_fd a) ro_ev lb3)" using ok3 by simp
    obtain d where d: "delete_session s (reject_log lb3) = Inr d" "lb_ok d"
      using delete_session_ok [of "reject_log lb3" s] ok3 s3 by auto
    have alg: "algorithm (balancer lb3) = algorithm (balancer lb)" using n(4) by (simp add: lb3_def lb2_def)
    have body: "accept_client a km kc lb =
      (if \<not> ac_epoll_add a then delete_session s (reject_log lb3)
       else if algorithm (balancer lb) \<noteq> ALGORITHM_HASH \<and> algorithm (balancer lb) \<noteq> ALGORITHM_STATIC
       then res_bind (choose_server s km kc (epoll_add (ac_fd a) ro_ev lb3)) (\<lambda>(status, lb).
              if status = - 1 then delete_session s (reject_log lb) else Inr (upd_ses s (clear_bits STATE_FRESH) lb))
       else Inr (epoll_add (ac_fd a) ro_ev lb3))"
      using pass new set Some eq alg by (simp add: accept_client_def Let_def)
    show ?thesis
    proof (cases "ac_epoll_add a \<and> algorithm (balancer lb) \<noteq> ALGORITHM_HASH \<and> algorithm (balancer lb) \<noteq> ALGORITHM_STATIC")
      case False
      then show ?thesis using that body d ok3 by (cases "ac_epoll_add a") auto
    next
      case True
      let ?l4 = "epoll_add (ac_fd a) ro_ev lb3"
      have pre: "s < length (sessions ?l4)"
        "algorithm (balancer ?l4) \<noteq> ALGORITHM_HASH" "algorithm (balancer ?l4) \<noteq> ALGORITHM_STATIC"
        "env_ok km ?l4" "env_ok kc ?l4"
        using s2 n(2,3) alg True k by (simp_all add: lb3_def lb2_def client_joined_simps env_ok_def)
      obtain st lb5 where c: "choose_server s km kc ?l4 = Inr (st, lb5)" "lb_ok lb5"
        "length (sessions lb5) = length (sessions ?l4)"
        by (rule choose_server_ok [OF ok4 pre])
      then have s5: "s < length (sessions lb5)" using s3 by simp
      obtain e where e: "delete_session s (reject_log lb5) = Inr e" "lb_ok e"
        using delete_session_ok [of "reject_log lb5" s] c(2) s5 by auto
      show ?thesis
      proof (cases "st = - 1")
        case True
        then show ?thesis using that [of e] e body c(1) \<open>ac_epoll_add a \<and> _ \<and> _\<close> by simp
      next
        case False
        then show ?thesis using that clear_fresh_ok [OF c(2) s5] body c(1) True by simp
      qed
    qed
  qed
qed

end
