(* ===== verification/Monitor.thy ===== *)
theory Monitor
  imports Accepting
begin

text \<open>
  The monitor process, monitor.c: removal of deleted servers, health checks, SNMP load, effective
  load, and the rebalancing of the URI hash table. The outcomes of the system calls and of the SNMP
  library, and the sorting function \<open>qsort\<close>, are arguments; \<open>use_snmp\<close> is the compile-time switch.
\<close>

section \<open>Deleted servers\<close>

definition free_hashes :: "nat \<Rightarrow> int list \<Rightarrow> int list" where
  "free_hashes i ht = map (\<lambda>v. if v = int i then HASH_VAL_FREE else v) ht"

definition delete_member_at :: "nat \<Rightarrow> BALANCER \<Rightarrow> BALANCER" where
  "delete_member_at i b =
     (if srv_status (members b ! i) = SERVER_STATE_DELETED \<and> srv_c (members b ! i) = 0 then
        (let b = b\<lparr>hash_table := free_hashes i (hash_table b)\<rparr>;
             b = upd_member i (\<lambda>x. zero_server) b
         in if i = nmembers b - 1 then b\<lparr>nmembers := nmembers b - 1\<rparr>
            else upd_member i (\<lambda>x. x\<lparr>srv_status := SERVER_STATE_FREE\<rparr>) b)
      else b)"

definition delete_clone_at :: "nat \<Rightarrow> BALANCER \<Rightarrow> BALANCER" where
  "delete_clone_at i b =
     (if srv_status (clones b ! i) = SERVER_STATE_DELETED \<and> srv_c (clones b ! i) = 0 then
        (let b = upd_clone i (\<lambda>x. zero_server) b
         in if i = nclones b - 1 then b\<lparr>nclones := nclones b - 1\<rparr>
            else upd_clone i (\<lambda>x. x\<lparr>srv_status := SERVER_STATE_FREE\<rparr>) b)
      else b)"

text \<open>The loop condition reads the count again in every round.\<close>

definition handle_delete_servers :: "BALANCER \<Rightarrow> BALANCER" where
  "handle_delete_servers b =
     (let b = fold (\<lambda>i b. if i < nmembers b then delete_member_at i b else b) [0..<nmembers b] b
      in fold (\<lambda>i b. if i < nclones b then delete_clone_at i b else b) [0..<nclones b] b)"

section \<open>Health checks\<close>

text \<open>
  \<open>pb_connect\<close>: \<open>connect\<close> returned 0 or EINPROGRESS; \<open>pb_select\<close>: the result of \<open>select\<close>; \<open>pb_readable\<close>
  and \<open>pb_err\<close>: the socket is in the returned sets; \<open>pb_read\<close>: the result of the one-byte \<open>read\<close>.
\<close>

record PROBE =
  pb_socket :: bool
  pb_nonblock :: bool
  pb_nodelay :: bool
  pb_connect :: bool
  pb_select :: int
  pb_readable :: bool
  pb_read :: int
  pb_err :: bool

definition probe_server :: "PROBE \<Rightarrow> SERVER \<Rightarrow> SERVER" where
  "probe_server p s =
     (let read_status = (if pb_select p \<ge> 1 \<and> pb_readable p then pb_read p else 0);
          err_status = (if pb_select p \<ge> 1 \<and> read_status \<noteq> - 1 \<and> pb_err p then - 1 else (0 :: int));
          s = (if pb_select p \<ge> 1 \<and> read_status \<noteq> - 1 \<and> err_status \<noteq> - 1
               then s\<lparr>srv_status := SERVER_STATE_ENABLED\<rparr> else s)
      in if pb_select p \<le> 0 \<or> read_status = - 1 \<or> err_status = - 1
         then s\<lparr>srv_status := SERVER_STATE_FAILED, srv_load := SNMP_LOAD_NOT_INIT, srv_e_load := 0\<rparr>
         else s)"

text \<open>\<open>upd\<close> is the update of the slot that the pointer argument points to.\<close>

definition check_server_state ::
  "PROBE \<Rightarrow> SERVER \<Rightarrow> ((SERVER \<Rightarrow> SERVER) \<Rightarrow> BALANCER \<Rightarrow> BALANCER) \<Rightarrow> BALANCER \<Rightarrow> int \<times> BALANCER" where
  "check_server_state p server upd b =
     (if srv_status server \<noteq> SERVER_STATE_ENABLED \<and> srv_status server \<noteq> SERVER_STATE_FAILED then (0, b)
      else if \<not> pb_socket p then (- 1, b)
      else if \<not> pb_nonblock p then (- 1, b)
      else if \<not> pb_nodelay p then (- 1, b)
      else if pb_connect p then (0, set_cloned_state (upd (probe_server p) b))
      else (0, b))"

definition check_members :: "(nat \<Rightarrow> PROBE) \<Rightarrow> BALANCER \<Rightarrow> BALANCER" where
  "check_members ps b =
     fold (\<lambda>i b. snd (check_server_state (ps i) (members b ! i) (upd_member i) b)) [0..<nmembers b] b"

definition check_clones :: "(nat \<Rightarrow> PROBE) \<Rightarrow> BALANCER \<Rightarrow> BALANCER" where
  "check_clones ps b =
     fold (\<lambda>i b. snd (check_server_state (ps i) (clones b ! i) (upd_clone i) b)) [0..<nclones b] b"

section \<open>SNMP load\<close>

text \<open>
  What the SNMP library delivers: no session, no (or an erroneous) response, or a list of variables,
  each an octet string, given by the \<open>double\<close> that \<open>atof\<close> reads from it, or of another type.
\<close>

datatype snmp_reply = Snmp_no_session | Snmp_no_response | Snmp_vars "c_float option list"

fun snmp_load :: "c_float option list \<Rightarrow> c_float \<Rightarrow> c_float" where
  "snmp_load [] ld = ld"
| "snmp_load (v # vs) ld = snmp_load vs (case v of Some d \<Rightarrow> f_of_double d | None \<Rightarrow> SNMP_LOAD_FAILED)"

definition check_server_snmp :: "snmp_reply \<Rightarrow> SERVER \<Rightarrow> SERVER" where
  "check_server_snmp r s =
     (if srv_status s = SERVER_STATE_ENABLED \<or> srv_status s = SERVER_STATE_DISABLED then
        (case r of
           Snmp_no_session \<Rightarrow> s\<lparr>srv_load := SNMP_LOAD_FAILED\<rparr>
         | Snmp_no_response \<Rightarrow> s\<lparr>srv_load := SNMP_LOAD_FAILED\<rparr>
         | Snmp_vars vs \<Rightarrow> s\<lparr>srv_load := snmp_load vs (srv_load s)\<rparr>)
      else s)"

definition snmp_all :: "(nat \<Rightarrow> snmp_reply) \<Rightarrow> (nat \<Rightarrow> snmp_reply) \<Rightarrow> BALANCER \<Rightarrow> BALANCER" where
  "snmp_all rm rc b =
     (let b = fold (\<lambda>i. upd_member i (check_server_snmp (rm i))) [0..<nmembers b] b
      in fold (\<lambda>i. upd_clone i (check_server_snmp (rc i))) [0..<nclones b] b)"

section \<open>Effective load\<close>

definition load_percent :: "c_float \<Rightarrow> c_float \<Rightarrow> c_float" where
  "load_percent l m = f_mul (f_div l m) (Fin 100)"

text \<open>The member loop carries the two sums; the clone loop differs in the comparison with zero.\<close>

fun member_loads :: "nat list \<Rightarrow> c_float \<times> c_float \<times> BALANCER \<Rightarrow> (c_float \<times> c_float \<times> BALANCER) res" where
  "member_loads [] st = Inr st"
| "member_loads (i # is) (l, m, b) =
     (let server_load = srv_load (members b ! i); server_maxl = srv_maxl (members b ! i) in
      if f_le server_load (Fin 0) \<or> f_le server_maxl (Fin 0)
      then member_loads is (l, m, upd_member i (\<lambda>x. x\<lparr>srv_e_load := 0\<rparr>) b)
      else res_bind (f_to_int (load_percent server_load server_maxl)) (\<lambda>e.
             member_loads is (f_add l server_load, f_add m server_maxl,
               upd_member i (\<lambda>x. x\<lparr>srv_e_load := e\<rparr>) b)))"

fun clone_loads :: "nat list \<Rightarrow> BALANCER \<Rightarrow> BALANCER res" where
  "clone_loads [] b = Inr b"
| "clone_loads (i # is) b =
     (let server_load = srv_load (clones b ! i); server_maxl = srv_maxl (clones b ! i) in
      if f_lt server_load (Fin 0) \<or> f_le server_maxl (Fin 0)
      then clone_loads is (upd_clone i (\<lambda>x. x\<lparr>srv_e_load := 0\<rparr>) b)
      else res_bind (f_to_int (load_percent server_load server_maxl)) (\<lambda>e.
             clone_loads is (upd_clone i (\<lambda>x. x\<lparr>srv_e_load := e\<rparr>) b)))"

definition calc_effective_load :: "BALANCER \<Rightarrow> BALANCER res" where
  "calc_effective_load b =
     res_bind (member_loads [0..<nmembers b] (Fin 0, Fin 0, b)) (\<lambda>(overall_l, overall_maxl, b).
     res_bind (clone_loads [0..<nclones b] b) (\<lambda>b.
       if f_lt (Fin 0) overall_l
       then res_bind (f_to_int (load_percent overall_l overall_maxl)) (\<lambda>e. Inr (b\<lparr>overall_load := e\<rparr>))
       else Inr b))"

section \<open>Rebalancing the hash table\<close>

definition cmp_member_load :: "SERVER \<Rightarrow> SERVER \<Rightarrow> int" where
  "cmp_member_load p1 p2 =
     (if srv_e_load p1 < srv_e_load p2 then - 1 else if srv_e_load p1 = srv_e_load p2 then 0
      else if srv_e_load p1 > srv_e_load p2 then 1 else 0)"

text \<open>What \<open>qsort\<close> with this comparison promises.\<close>

definition sorts_by_load :: "(SERVER list \<Rightarrow> SERVER list) \<Rightarrow> bool" where
  "sorts_by_load qsort \<longleftrightarrow> (\<forall>xs. mset (qsort xs) = mset xs \<and> sorted_wrt (\<lambda>x y. cmp_member_load x y \<le> 0) (qsort xs))"

definition rebalance_subjects :: "BALANCER \<Rightarrow> SERVER list" where
  "rebalance_subjects b =
     filter (\<lambda>s. srv_status s = SERVER_STATE_ENABLED \<and> srv_standby_state s \<noteq> STANDBY_STATE_TRUE)
       (map (\<lambda>i. members b ! i) [0..<nmembers b])"

text \<open>The loop over the table; \<open>n\<close> is \<open>hashes_to_move\<close>.\<close>

fun move_hashes :: "int \<Rightarrow> nat \<Rightarrow> nat \<Rightarrow> nat list \<Rightarrow> BALANCER \<Rightarrow> BALANCER" where
  "move_hashes n hi lo [] b = b"
| "move_hashes n hi lo (i # is) b =
     (if n \<le> 0 then b
      else if hash_table b ! i = int hi
      then move_hashes (n - 1) hi lo is (upd_member lo usage_inc (upd_member hi usage_dec (set_table i lo b)))
      else move_hashes n hi lo is b)"

definition rebalance_hash :: "(SERVER list \<Rightarrow> SERVER list) \<Rightarrow> BALANCER \<Rightarrow> BALANCER" where
  "rebalance_hash qsort b =
     (let subjects = rebalance_subjects b; j = length subjects in
      if j \<le> 1 then b
      else
        (let sorted = qsort subjects;
             low_load_server_id = srv_id (sorted ! 0);
             high_load_server_id = srv_id (sorted ! (j - 1));
             i = srv_e_load (members b ! high_load_server_id) - srv_e_load (members b ! low_load_server_id)
         in if i \<ge> hash_rebalance_threshold b
            then move_hashes (c_div (int (unat (srv_hash_table_usage (members b ! high_load_server_id))) * hash_rebalance_size b) 100)
                   high_load_server_id low_load_server_id [0..<HASHTABLESIZE] b
            else b))"

section \<open>One round of the monitor\<close>

record MONITOR_ENV =
  me_probe :: "nat \<Rightarrow> PROBE"
  me_clone_probe :: "nat \<Rightarrow> PROBE"
  me_snmp :: "nat \<Rightarrow> snmp_reply"
  me_clone_snmp :: "nat \<Rightarrow> snmp_reply"

text \<open>The SNMP part of a round: \<open>j\<close> counts rounds between rebalancings.\<close>

definition monitor_snmp_round ::
  "(SERVER list \<Rightarrow> SERVER list) \<Rightarrow> MONITOR_ENV \<Rightarrow> 16 word \<Rightarrow> BALANCER \<Rightarrow> (16 word \<times> BALANCER) res" where
  "monitor_snmp_round qsort env j b =
     (if snmp_status b = SNMP_ENABLED \<and> snmp_community_pw b \<noteq> None then
        res_bind (calc_effective_load (snmp_all (me_snmp env) (me_clone_snmp env) b)) (\<lambda>b.
          let interval = int (unat (monitor_interval b)) in
          if algorithm b = ALGORITHM_HASH \<and> hash_rebalance_interval b > 0 \<and> hash_rebalance_threshold b > 0
             \<and> hash_rebalance_size b > 0
          then
            (let b = (if hash_rebalance_interval b < interval then b\<lparr>hash_rebalance_interval := interval\<rparr> else b);
                 j = j + 1
             in if int (unat j) mod c_div (hash_rebalance_interval b) interval = 0
                then Inr (0, rebalance_hash qsort b)
                else Inr (j, b))
          else Inr (j, b))
      else Inr (j, b))"

definition monitor_round ::
  "bool \<Rightarrow> (SERVER list \<Rightarrow> SERVER list) \<Rightarrow> MONITOR_ENV \<Rightarrow> 16 word \<Rightarrow> BALANCER \<Rightarrow> (16 word \<times> BALANCER) res" where
  "monitor_round use_snmp qsort env j b =
     (let b = b\<lparr>connection_rejected_log_suppress := False\<rparr> in
      if monitor_interval b = 0 then Inr (j, b)
      else
        (let b = handle_delete_servers b;
             b = check_members (me_probe env) b;
             b = check_clones (me_clone_probe env) b
         in if use_snmp then monitor_snmp_round qsort env j b else Inr (j, b)))"

section \<open>Operations on the shared balancer\<close>

text \<open>
  The monitor and the admin tool change the balancer that the server process works on. An operation
  keeps the server process safe when it keeps the balancer well formed, the connection count of every
  slot, and the session limit.
\<close>

definition keeps :: "BALANCER \<Rightarrow> BALANCER \<Rightarrow> bool" where
  "keeps b b' \<longleftrightarrow> session_limit b' = session_limit b \<and>
     (balancer_ok b \<longrightarrow> balancer_ok b' \<and> (\<forall>i<MAXSERVERS.
        srv_c (members b' ! i) = srv_c (members b ! i) \<and> srv_c (clones b' ! i) = srv_c (clones b ! i)))"

locale shared_op =
  fixes f :: "BALANCER \<Rightarrow> BALANCER"
  assumes keeps_op: "keeps b (f b)"
begin

lemma server_kept:
  assumes "lb_ok lb"
  shows "lb_ok (upd_bal f lb)"
  using keeps_op [of "balancer lb"] assms by (simp add: keeps_def lb_ok_def queue_ok_def counts_ok_def)

lemma member_freed_unused:
  assumes ok: "lb_ok lb" and i: "i < MAXSERVERS" and free: "srv_status (members (f (balancer lb)) ! i) = SERVER_STATE_FREE"
    and s: "s < length (sessions lb)"
  shows "\<not> uses_member i (sessions lb ! s)"
  using used_member_slot [OF server_kept [OF ok], of s i] s i free by auto

end

lemma keeps_refl [simp]: "keeps b b"
  by (simp add: keeps_def)

lemma keeps_trans: "keeps a b \<Longrightarrow> keeps b c \<Longrightarrow> keeps a c"
  by (simp add: keeps_def)

lemma keeps_fold:
  assumes "\<And>i b. i \<in> set is \<Longrightarrow> keeps b (f i b)"
  shows "keeps b (fold f is b)"
  using assms
proof (induction "is" arbitrary: b)
  case (Cons i "is")
  then have "keeps (f i b) (fold f is (f i b))" and "keeps b (f i b)" by simp_all
  then show ?case using keeps_trans by auto
qed simp

text \<open>Guarded by the invariant: only then are the positions known to be in range.\<close>

lemma keepsI:
  assumes "session_limit b' = session_limit b"
    and "balancer_ok b \<Longrightarrow> balancer_ok b'"
    and "\<And>i. balancer_ok b \<Longrightarrow> i < MAXSERVERS \<Longrightarrow> srv_c (members b' ! i) = srv_c (members b ! i)"
    and "\<And>i. balancer_ok b \<Longrightarrow> i < MAXSERVERS \<Longrightarrow> srv_c (clones b' ! i) = srv_c (clones b ! i)"
  shows "keeps b b'"
  using assms by (simp add: keeps_def)

lemma upd_server_same: "f (srvs ! i) = srvs ! i \<Longrightarrow> upd_server i f srvs = srvs"
  by (simp add: upd_server_def)

lemma upd_server_out: "length srvs \<le> i \<Longrightarrow> upd_server i f srvs = srvs"
  by (simp add: upd_server_def list_update_beyond)

lemma upd_server_field: "g (f (srvs ! i)) = g (srvs ! i) \<Longrightarrow> g (upd_server i f srvs ! j) = g (srvs ! j)"
  by (cases "i < length srvs") (simp_all add: upd_server_out)

lemma keeps_upd_member:
  assumes "srv_status (members b ! i) = SERVER_STATE_FREE \<Longrightarrow> (members b ! i) = zero_server \<Longrightarrow> f (members b ! i) = (members b ! i)"
    and "srv_status (members b ! i) \<noteq> SERVER_STATE_FREE \<Longrightarrow> srv_status (f (members b ! i)) \<noteq> SERVER_STATE_FREE"
    and "srv_id (f (members b ! i)) = srv_id (members b ! i)" "srv_c (f (members b ! i)) = srv_c (members b ! i)" "srv_hash_table_usage (f (members b ! i)) = srv_hash_table_usage (members b ! i)"
  shows "keeps b (upd_member i f b)"
proof (rule keepsI)
  show "session_limit (upd_member i f b) = session_limit b" by simp
  assume ok: "balancer_ok b"
  note len = server_lengths(1) [OF ok]
  have t: "table_ok (members b) (nmembers b)" using ok by (simp add: balancer_ok_def)
  show "srv_c (members (upd_member i f b) ! j) = srv_c (members b ! j)" "srv_c (clones (upd_member i f b) ! j) = srv_c (clones b ! j)" for j
    using upd_server_field [of srv_c f] assms(4) by simp_all
  show "balancer_ok (upd_member i f b)"
  proof (cases "i < MAXSERVERS \<and> srv_status (members b ! i) \<noteq> SERVER_STATE_FREE")
    case True
    then have "table_ok (upd_server i f (members b)) (nmembers b)"
      using assms(2,3) by (intro table_ok_upd_server [OF t]) auto
    then show ?thesis using ok assms(5) True len by (auto simp: balancer_ok_def hash_ok_def)
  next
    case False
    then have "upd_server i f (members b) = members b"
      using assms(1) table_okD(4) [OF t] len upd_server_same upd_server_out by (metis not_less)
    then show ?thesis using ok by (simp add: balancer_ok_def hash_ok_def)
  qed
qed

lemma keeps_upd_clone:
  assumes "srv_status (clones b ! i) = SERVER_STATE_FREE \<Longrightarrow> (clones b ! i) = zero_server \<Longrightarrow> f (clones b ! i) = (clones b ! i)"
    and "srv_status (clones b ! i) \<noteq> SERVER_STATE_FREE \<Longrightarrow> srv_status (f (clones b ! i)) \<noteq> SERVER_STATE_FREE"
    and "srv_id (f (clones b ! i)) = srv_id (clones b ! i)" "srv_c (f (clones b ! i)) = srv_c (clones b ! i)"
  shows "keeps b (upd_clone i f b)"
proof (rule keepsI)
  show "session_limit (upd_clone i f b) = session_limit b" by simp
  assume ok: "balancer_ok b"
  note len = server_lengths(2) [OF ok]
  have t: "table_ok (clones b) (nclones b)" using ok by (simp add: balancer_ok_def)
  show "srv_c (members (upd_clone i f b) ! j) = srv_c (members b ! j)" "srv_c (clones (upd_clone i f b) ! j) = srv_c (clones b ! j)" for j
    using upd_server_field [of srv_c f] assms(4) by simp_all
  show "balancer_ok (upd_clone i f b)"
  proof (cases "i < MAXSERVERS \<and> srv_status (clones b ! i) \<noteq> SERVER_STATE_FREE")
    case True
    then have "table_ok (upd_server i f (clones b)) (nclones b)"
      using assms(2,3) by (intro table_ok_upd_server [OF t]) auto
    then show ?thesis using ok by (simp add: balancer_ok_def hash_ok_def)
  next
    case False
    then have "upd_server i f (clones b) = clones b"
      using assms(1) table_okD(4) [OF t] len upd_server_same upd_server_out by (metis not_less)
    then show ?thesis using ok by (simp add: balancer_ok_def hash_ok_def)
  qed
qed

lemma keeps_cong:
  assumes "members b' = members b" "nmembers b' = nmembers b" "clones b' = clones b" "nclones b' = nclones b"
    "hash_table b' = hash_table b" "session_limit b' = session_limit b"
  shows "keeps b b'"
  using assms balancer_ok_cong by (simp add: keeps_def)

lemma keeps_set_cloned_state: "keeps b (set_cloned_state b)"
  by (rule keeps_cong) (simp_all add: set_cloned_state_def Let_def split: option.splits)

section \<open>Deleting keeps the table and the hash table consistent\<close>

lemma count_free_hashes:
  "count_list (free_hashes i ht) (int j) = (if j = i then 0 else count_list ht (int j))"
  by (induction ht) (auto simp: free_hashes_def)

lemma free_hashes_set: "v \<in> set (free_hashes i ht) \<Longrightarrow> v = HASH_VAL_FREE \<or> v \<in> set ht \<and> v \<noteq> int i"
  by (auto simp: free_hashes_def)

lemma table_ok_delete:
  assumes ok: "table_ok srvs n" and i: "i < n"
  shows "table_ok (srvs[i := zero_server]) (if i = n - 1 then n - 1 else n)"
proof -
  note d = table_okD [OF ok]
  have "j < n - 1 \<or> j = i" if "j < n" "i = n - 1" for j using that by auto
  then show ?thesis using d i unfolding table_ok_def by (auto simp: nth_list_update)
qed

lemma zero_server_free [simp]: "zero_server\<lparr>srv_status := SERVER_STATE_FREE\<rparr> = zero_server"
  by (simp add: zero_server_def)

definition member_deleted :: "nat \<Rightarrow> BALANCER \<Rightarrow> BALANCER" where
  "member_deleted i b = b\<lparr>hash_table := free_hashes i (hash_table b), members := (members b)[i := zero_server],
     nmembers := (if i = nmembers b - 1 then nmembers b - 1 else nmembers b)\<rparr>"

lemma delete_member_at_eq:
  assumes "i < length (members b)"
  shows "delete_member_at i b =
    (if srv_status (members b ! i) = SERVER_STATE_DELETED \<and> srv_c (members b ! i) = 0 then member_deleted i b else b)"
  using assms by (auto simp: delete_member_at_def member_deleted_def Let_def upd_member_def upd_server_def)

definition clone_deleted :: "nat \<Rightarrow> BALANCER \<Rightarrow> BALANCER" where
  "clone_deleted i b = b\<lparr>clones := (clones b)[i := zero_server],
     nclones := (if i = nclones b - 1 then nclones b - 1 else nclones b)\<rparr>"

lemma delete_clone_at_eq:
  assumes "i < length (clones b)"
  shows "delete_clone_at i b =
    (if srv_status (clones b ! i) = SERVER_STATE_DELETED \<and> srv_c (clones b ! i) = 0 then clone_deleted i b else b)"
  using assms by (auto simp: delete_clone_at_def clone_deleted_def Let_def upd_clone_def upd_server_def)

lemma member_deleted_ok:
  assumes ok: "balancer_ok b" and i: "i < nmembers b"
  shows "balancer_ok (member_deleted i b)"
proof -
  have t: "table_ok (members b) (nmembers b)" and h: "hash_ok b" using ok by (auto simp: balancer_ok_def)
  note len = table_okD(1) [OF t] and hd = hash_okD [OF h]
  have "hash_ok (member_deleted i b)"
    unfolding hash_ok_def
  proof (intro conjI ballI allI impI)
    show "length (hash_table (member_deleted i b)) = HASHTABLESIZE" using hd(1) by (simp add: member_deleted_def free_hashes_def)
    fix v assume "v \<in> set (hash_table (member_deleted i b))"
    then have "v = HASH_VAL_FREE \<or> v \<in> set (hash_table b) \<and> v \<noteq> int i"
      using free_hashes_set by (simp add: member_deleted_def)
    then show "v = HASH_VAL_FREE \<or> 0 \<le> v \<and> v < int (nmembers (member_deleted i b))"
      using hd(2) [of v] i by (auto simp: member_deleted_def)
  next
    fix j assume "j < MAXSERVERS"
    then show "unat (srv_hash_table_usage (members (member_deleted i b) ! j)) = count_list (hash_table (member_deleted i b)) (int j)"
      using hd(3) [of j] len by (simp add: member_deleted_def count_free_hashes nth_list_update)
  qed
  then show ?thesis using ok table_ok_delete [OF t i] by (simp add: balancer_ok_def member_deleted_def)
qed

lemma keeps_delete_member:
  "keeps b (if i < nmembers b then delete_member_at i b else b)"
proof (rule keepsI)
  show "session_limit (if i < nmembers b then delete_member_at i b else b) = session_limit b"
    by (simp add: delete_member_at_def Let_def upd_member_def)
  assume ok: "balancer_ok b"
  have len: "i < nmembers b \<Longrightarrow> i < length (members b)"
    using ok table_okD(1,2) by (fastforce simp: balancer_ok_def)
  show "balancer_ok (if i < nmembers b then delete_member_at i b else b)"
    using ok len delete_member_at_eq member_deleted_ok by simp
  show "srv_c (members (if i < nmembers b then delete_member_at i b else b) ! j) = srv_c (members b ! j)" for j
    using len delete_member_at_eq by (auto simp: member_deleted_def nth_list_update)
  show "srv_c (clones (if i < nmembers b then delete_member_at i b else b) ! j) = srv_c (clones b ! j)" for j
    by (simp add: delete_member_at_def Let_def)
qed

lemma keeps_delete_clone:
  "keeps b (if i < nclones b then delete_clone_at i b else b)"
proof (rule keepsI)
  show "session_limit (if i < nclones b then delete_clone_at i b else b) = session_limit b"
    by (simp add: delete_clone_at_def Let_def upd_clone_def)
  assume ok: "balancer_ok b"
  then have t: "table_ok (clones b) (nclones b)" by (simp add: balancer_ok_def)
  have len: "i < nclones b \<Longrightarrow> i < length (clones b)" using table_okD(1,2) [OF t] by simp
  have "balancer_ok (clone_deleted i b)" if "i < nclones b"
    using ok table_ok_delete [OF t that] by (simp add: balancer_ok_def hash_ok_def clone_deleted_def)
  then show "balancer_ok (if i < nclones b then delete_clone_at i b else b)" using ok len delete_clone_at_eq by simp
  show "srv_c (clones (if i < nclones b then delete_clone_at i b else b) ! j) = srv_c (clones b ! j)" for j
    using len delete_clone_at_eq by (auto simp: clone_deleted_def nth_list_update)
  show "srv_c (members (if i < nclones b then delete_clone_at i b else b) ! j) = srv_c (members b ! j)" for j
    by (simp add: delete_clone_at_def Let_def)
qed

interpretation deletion: shared_op handle_delete_servers
proof unfold_locales
  fix b
  let ?b = "fold (\<lambda>i b. if i < nmembers b then delete_member_at i b else b) [0..<nmembers b] b"
  have "keeps b ?b" by (rule keeps_fold) (rule keeps_delete_member)
  moreover have "keeps ?b (fold (\<lambda>i b. if i < nclones b then delete_clone_at i b else b) [0..<nclones ?b] ?b)"
    by (rule keeps_fold) (rule keeps_delete_clone)
  ultimately show "keeps b (handle_delete_servers b)"
    using keeps_trans by (simp add: handle_delete_servers_def Let_def)
qed

section \<open>Health checks and SNMP keep the tables\<close>

lemma probe_server_simps [simp]:
  "srv_id (probe_server p x) = srv_id x" "srv_c (probe_server p x) = srv_c x"
  "srv_hash_table_usage (probe_server p x) = srv_hash_table_usage x"
  "srv_status (probe_server p x) \<in> {SERVER_STATE_ENABLED, SERVER_STATE_FAILED, srv_status x}"
  by (simp_all add: probe_server_def Let_def)

lemma keeps_check_member: "keeps b (snd (check_server_state p (members b ! i) (upd_member i) b))"
proof -
  have "keeps b (upd_member i (probe_server p) b)" if "srv_status (members b ! i) \<in> {SERVER_STATE_ENABLED, SERVER_STATE_FAILED}"
    by (rule keeps_upd_member) (use that probe_server_simps(4) [of p "members b ! i"] in auto)
  then show ?thesis using keeps_trans [OF _ keeps_set_cloned_state] by (auto simp: check_server_state_def)
qed

lemma keeps_check_clone: "keeps b (snd (check_server_state p (clones b ! i) (upd_clone i) b))"
proof -
  have "keeps b (upd_clone i (probe_server p) b)" if "srv_status (clones b ! i) \<in> {SERVER_STATE_ENABLED, SERVER_STATE_FAILED}"
    by (rule keeps_upd_clone) (use that probe_server_simps(4) [of p "clones b ! i"] in auto)
  then show ?thesis using keeps_trans [OF _ keeps_set_cloned_state] by (auto simp: check_server_state_def)
qed

interpretation member_checks: shared_op "check_members ps" for ps
  by unfold_locales (simp add: check_members_def keeps_fold keeps_check_member)

interpretation clone_checks: shared_op "check_clones ps" for ps
  by unfold_locales (simp add: check_clones_def keeps_fold keeps_check_clone)

lemma check_server_snmp_simps [simp]:
  "srv_id (check_server_snmp r x) = srv_id x" "srv_c (check_server_snmp r x) = srv_c x"
  "srv_hash_table_usage (check_server_snmp r x) = srv_hash_table_usage x" "srv_status (check_server_snmp r x) = srv_status x"
  "srv_status x = SERVER_STATE_FREE \<Longrightarrow> check_server_snmp r x = x"
  by (simp_all add: check_server_snmp_def split: snmp_reply.splits)

interpretation snmp_checks: shared_op "snmp_all rm rc" for rm rc
proof unfold_locales
  fix b
  let ?b = "fold (\<lambda>i. upd_member i (check_server_snmp (rm i))) [0..<nmembers b] b"
  have "keeps b ?b" by (rule keeps_fold) (rule keeps_upd_member, simp_all)
  moreover have "keeps ?b (fold (\<lambda>i. upd_clone i (check_server_snmp (rc i))) [0..<nclones ?b] ?b)"
    by (rule keeps_fold) (rule keeps_upd_clone, simp_all)
  ultimately show "keeps b (snmp_all rm rc b)" using keeps_trans by (simp add: snmp_all_def Let_def)
qed

section \<open>Effective load\<close>

lemma keeps_e_load:
  assumes "srv_status (members b ! i) = SERVER_STATE_FREE \<Longrightarrow> members b ! i = zero_server \<Longrightarrow> e = 0"
  shows "keeps b (upd_member i (\<lambda>x. x\<lparr>srv_e_load := e\<rparr>) b)"
  by (rule keeps_upd_member) (use assms in \<open>simp_all add: zero_server_def\<close>)

lemma keeps_clone_e_load:
  assumes "srv_status (clones b ! i) = SERVER_STATE_FREE \<Longrightarrow> clones b ! i = zero_server \<Longrightarrow> e = 0"
  shows "keeps b (upd_clone i (\<lambda>x. x\<lparr>srv_e_load := e\<rparr>) b)"
  by (rule keeps_upd_clone) (use assms in \<open>simp_all add: zero_server_def\<close>)

lemma keeps_member_loads:
  assumes "member_loads is (l, m, b) = Inr (l', m', b')"
  shows "keeps b b'"
  using assms
proof (induction "is" arbitrary: l m b)
  case (Cons i "is")
  let ?l = "srv_load (members b ! i)" and ?m = "srv_maxl (members b ! i)"
  show ?case
  proof (cases "f_le ?l (Fin 0) \<or> f_le ?m (Fin 0)")
    case True
    have "keeps b (upd_member i (\<lambda>x. x\<lparr>srv_e_load := 0\<rparr>) b)" by (rule keeps_e_load) simp
    moreover have "keeps (upd_member i (\<lambda>x. x\<lparr>srv_e_load := 0\<rparr>) b) b'" using Cons True by (simp add: Let_def)
    ultimately show ?thesis by (rule keeps_trans)
  next
    case False
    then obtain e where "member_loads is (f_add l ?l, f_add m ?m, upd_member i (\<lambda>x. x\<lparr>srv_e_load := e\<rparr>) b) = Inr (l', m', b')"
      using Cons.prems by (auto simp: Let_def res_bind_eq_Inr)
    then show ?thesis using Cons.IH keeps_trans [OF keeps_e_load] False by (metis f_le.simps(1) order_refl zero_server_simps(6))
  qed
qed simp

lemma keeps_clone_loads:
  assumes "clone_loads is b = Inr b'"
  shows "keeps b b'"
  using assms
proof (induction "is" arbitrary: b)
  case (Cons i "is")
  let ?l = "srv_load (clones b ! i)" and ?m = "srv_maxl (clones b ! i)"
  show ?case
  proof (cases "f_lt ?l (Fin 0) \<or> f_le ?m (Fin 0)")
    case True
    have "keeps b (upd_clone i (\<lambda>x. x\<lparr>srv_e_load := 0\<rparr>) b)" by (rule keeps_clone_e_load) simp
    moreover have "keeps (upd_clone i (\<lambda>x. x\<lparr>srv_e_load := 0\<rparr>) b) b'" using Cons True by (simp add: Let_def)
    ultimately show ?thesis by (rule keeps_trans)
  next
    case False
    then obtain e where "clone_loads is (upd_clone i (\<lambda>x. x\<lparr>srv_e_load := e\<rparr>) b) = Inr b'"
      using Cons.prems by (auto simp: Let_def res_bind_eq_Inr)
    then show ?thesis using Cons.IH keeps_trans [OF keeps_clone_e_load] False by (metis f_le.simps(1) order_refl zero_server_simps(7))
  qed
qed simp

lemma keeps_calc_effective_load:
  assumes "calc_effective_load b = Inr b'"
  shows "keeps b b'"
proof -
  obtain l m b1 where 1: "member_loads [0..<nmembers b] (Fin 0, Fin 0, b) = Inr (l, m, b1)"
    using assms by (auto simp: calc_effective_load_def res_bind_eq_Inr)
  then obtain b2 where 2: "clone_loads [0..<nclones b1] b1 = Inr b2" "\<exists>e. b' = b2\<lparr>overall_load := e\<rparr> \<or> b' = b2"
    using assms by (auto simp: calc_effective_load_def res_bind_eq_Inr split: if_splits)
  then have "keeps b2 b'" by (auto intro: keeps_cong)
  then show ?thesis using keeps_member_loads [OF 1] keeps_clone_loads [OF 2(1)] keeps_trans by blast
qed

text \<open>A server below its limit is at most at 100 per cent, despite the rounding of \<open>float\<close> arithmetic.\<close>

lemma load_percent_bounds:
  assumes "0 \<le> l" and "l \<le> m" and m: "0 < m"
  shows "\<exists>e. f_to_int (load_percent (Fin l) (Fin m)) = Inr e \<and> 0 \<le> e \<and> e \<le> 100"
proof -
  have lm: "0 \<le> l / m" "l / m \<le> 1" using assms m by (auto simp: field_simps)
  obtain v where v: "to_float (l / m) = Fin v" "0 \<le> v" "v \<le> 1"
    by (rule to_float_bounded [OF lm]) (simp_all add: round_val_1)
  obtain w where w: "to_float (v * 100) = Fin w" "0 \<le> w" "w \<le> 100"
    by (rule to_float_bounded [of "v * 100" 100]) (use v in \<open>simp_all add: round_val_100\<close>)
  have "load_percent (Fin l) (Fin m) = Fin w" using m v(1) w(1) by (simp add: load_percent_def)
  moreover have "0 \<le> \<lfloor>w\<rfloor>" "\<lfloor>w\<rfloor> \<le> 100" using w by (auto simp: le_floor_iff floor_le_iff)
  ultimately show ?thesis using w by (auto simp: rat_trunc_def INT_MAX_def INT_MIN_def)
qed

section \<open>Rebalancing\<close>

definition rebalancer :: "BALANCER \<Rightarrow> nat \<Rightarrow> bool" where
  "rebalancer b i \<longleftrightarrow> i < nmembers b \<and> srv_status (members b ! i) = SERVER_STATE_ENABLED
     \<and> srv_standby_state (members b ! i) \<noteq> STANDBY_STATE_TRUE"

lemma rebalance_subjects_map: "rebalance_subjects b = map (\<lambda>i. members b ! i) (filter (rebalancer b) [0..<nmembers b])"
proof -
  have "filter (rebalancer b) [0..<nmembers b] = filter (\<lambda>i. srv_status (members b ! i) = SERVER_STATE_ENABLED
      \<and> srv_standby_state (members b ! i) \<noteq> STANDBY_STATE_TRUE) [0..<nmembers b]"
    by (rule filter_cong) (auto simp: rebalancer_def)
  then show ?thesis by (simp add: rebalance_subjects_def filter_map o_def)
qed

lemma rebalance_ids:
  assumes "balancer_ok b"
  shows "map srv_id (rebalance_subjects b) = filter (rebalancer b) [0..<nmembers b]"
proof -
  have "srv_id (members b ! i) = i" if "rebalancer b i" for i
    using that assms table_okD(3) by (auto simp: rebalancer_def balancer_ok_def)
  then show ?thesis unfolding rebalance_subjects_map by (auto intro: map_idI)
qed

text \<open>The two ends of the sorted list: different members, of the least and the greatest load.\<close>

lemma rebalance_ends:
  assumes q: "sorts_by_load qsort" and ok: "balancer_ok b" and two: "1 < length (rebalance_subjects b)"
  defines "srt \<equiv> qsort (rebalance_subjects b)"
  defines "lo \<equiv> srv_id (srt ! 0)" and "hi \<equiv> srv_id (srt ! (length (rebalance_subjects b) - 1))"
  shows "lo \<noteq> hi" and "rebalancer b lo" and "rebalancer b hi"
    and "\<And>i. rebalancer b i \<Longrightarrow> srv_e_load (members b ! lo) \<le> srv_e_load (members b ! i)"
    and "\<And>i. rebalancer b i \<Longrightarrow> srv_e_load (members b ! i) \<le> srv_e_load (members b ! hi)"
proof -
  let ?n = "length (rebalance_subjects b)"
  have ms: "mset srt = mset (rebalance_subjects b)" and sw: "sorted_wrt (\<lambda>x y. cmp_member_load x y \<le> 0) srt"
    using q by (simp_all add: sorts_by_load_def srt_def)
  have len: "length srt = ?n" using mset_eq_length [OF ms] .
  have set: "set srt = set (rebalance_subjects b)" using mset_eq_setD [OF ms] .
  have "distinct (map srv_id srt)"
  proof -
    have "mset (map srv_id srt) = mset (map srv_id (rebalance_subjects b))" using ms by simp
    moreover have "distinct (map srv_id (rebalance_subjects b))" using rebalance_ids [OF ok] by simp
    ultimately show ?thesis using mset_eq_imp_distinct_iff by blast
  qed
  then have "map srv_id srt ! 0 \<noteq> map srv_id srt ! (?n - 1)" using two len by (subst nth_eq_iff_index_eq) auto
  moreover have "0 < length srt" "?n - 1 < length srt" using two len by linarith+
  ultimately show "lo \<noteq> hi" by (simp only: lo_def hi_def nth_map simp_thms)
  have slot: "\<exists>i. rebalancer b i \<and> x = members b ! i \<and> srv_id x = i" if "x \<in> set srt" for x
  proof -
    have "x \<in> set (rebalance_subjects b)" using that unfolding set .
    then obtain i where i: "rebalancer b i" "x = members b ! i" by (auto simp: rebalance_subjects_map)
    then show ?thesis using ok table_okD(3) by (auto simp: rebalancer_def balancer_ok_def)
  qed
  have ends: "srt ! 0 \<in> set srt" "srt ! (?n - 1) \<in> set srt" using two len by (auto intro: nth_mem)
  show "rebalancer b lo" "rebalancer b hi" using slot [OF ends(1)] slot [OF ends(2)] by (auto simp: lo_def hi_def)
  have mem: "members b ! lo = srt ! 0" "members b ! hi = srt ! (?n - 1)"
    using slot [OF ends(1)] slot [OF ends(2)] by (auto simp: lo_def hi_def)
  have cmp: "cmp_member_load x y \<le> 0 \<Longrightarrow> srv_e_load x \<le> srv_e_load y" for x y
    by (simp add: cmp_member_load_def split: if_splits)
  fix i assume "rebalancer b i"
  then have "members b ! i \<in> set srt" unfolding set by (auto simp: rebalance_subjects_map rebalancer_def)
  then obtain k where k: "k < ?n" "srt ! k = members b ! i" using len by (auto simp: in_set_conv_nth)
  show "srv_e_load (members b ! lo) \<le> srv_e_load (members b ! i)"
    using sorted_wrt_nth_less [OF sw, of 0 k] k len cmp mem by (cases "k = 0") auto
  show "srv_e_load (members b ! i) \<le> srv_e_load (members b ! hi)"
    using sorted_wrt_nth_less [OF sw, of k "?n - 1"] k len cmp mem by (cases "k = ?n - 1") auto
qed

definition move_one :: "nat \<Rightarrow> nat \<Rightarrow> nat \<Rightarrow> BALANCER \<Rightarrow> BALANCER" where
  "move_one i hi lo b = upd_member lo usage_inc (upd_member hi usage_dec (set_table i lo b))"

lemma move_one_ok:
  assumes ok: "balancer_ok b" and i: "i < HASHTABLESIZE" "hash_table b ! i = int hi" and ne: "hi \<noteq> lo"
    and used: "hi < MAXSERVERS" "srv_status (members b ! hi) \<noteq> SERVER_STATE_FREE"
      "lo < MAXSERVERS" "srv_status (members b ! lo) \<noteq> SERVER_STATE_FREE"
  shows "balancer_ok (move_one i hi lo b)"
proof -
  have "move_one i hi lo b = set_table i lo (upd_member lo usage_inc (upd_member hi usage_dec b))"
    by (simp add: move_one_def upd_member_def set_table_def)
  then show ?thesis using balancer_ok_move [OF ok i used(1) ne used(2,3,4)] by simp
qed

lemma move_one_simps [simp]:
  "nmembers (move_one i hi lo b) = nmembers b" "clones (move_one i hi lo b) = clones b"
  "nclones (move_one i hi lo b) = nclones b" "session_limit (move_one i hi lo b) = session_limit b"
  "hash_table (move_one i hi lo b) = (hash_table b)[i := int lo]"
  "srv_c (members (move_one i hi lo b) ! j) = srv_c (members b ! j)"
  "srv_status (members (move_one i hi lo b) ! j) = srv_status (members b ! j)"
  using upd_server_field [of srv_c usage_inc] upd_server_field [of srv_c usage_dec]
    upd_server_field [of srv_status usage_inc] upd_server_field [of srv_status usage_dec]
  by (simp_all add: move_one_def) (simp_all add: set_table_def)

lemma move_hashes_one:
  "move_hashes n hi lo (i # is) b =
     (if n \<le> 0 then b else if hash_table b ! i = int hi then move_hashes (n - 1) hi lo is (move_one i hi lo b)
      else move_hashes n hi lo is b)"
  by (simp add: move_one_def)

lemma move_hashes_ok:
  assumes "balancer_ok b" and "set is \<subseteq> {..<HASHTABLESIZE}" and "hi \<noteq> lo"
    and "hi < MAXSERVERS" "srv_status (members b ! hi) \<noteq> SERVER_STATE_FREE"
    and "lo < MAXSERVERS" "srv_status (members b ! lo) \<noteq> SERVER_STATE_FREE"
  shows "balancer_ok (move_hashes n hi lo is b) \<and> session_limit (move_hashes n hi lo is b) = session_limit b
    \<and> clones (move_hashes n hi lo is b) = clones b
    \<and> (\<forall>j. srv_c (members (move_hashes n hi lo is b) ! j) = srv_c (members b ! j))"
  using assms
proof (induction "is" arbitrary: n b)
  case (Cons i "is")
  have "balancer_ok (move_one i hi lo b)" if "hash_table b ! i = int hi"
    using move_one_ok [OF Cons.prems(1) _ that Cons.prems(3-7)] Cons.prems(2) by simp
  then show ?case
    using Cons.IH [of "move_one i hi lo b" "n - 1"] Cons.IH [of b n] Cons.prems by (simp add: move_hashes_one del: move_hashes.simps)
qed simp

text \<open>How many entries move: all \<open>n\<close>, when the high server has that many among the positions visited.\<close>

lemma move_hashes_count:
  assumes "distinct is" and "set is \<subseteq> {..<length (hash_table b)}" and "hi \<noteq> lo"
    and "0 \<le> n" and "nat n \<le> length (filter (\<lambda>i. hash_table b ! i = int hi) is)"
  shows "count_list (hash_table (move_hashes n hi lo is b)) (int j) + (if j = hi then nat n else 0)
    = count_list (hash_table b) (int j) + (if j = lo then nat n else 0)"
  using assms
proof (induction "is" arbitrary: n b)
  case (Cons i "is")
  show ?case
  proof (cases "0 < n \<and> hash_table b ! i = int hi")
    case True
    let ?b = "move_one i hi lo b"
    have i: "i < length (hash_table b)" "i \<notin> set is" using Cons.prems(1,2) by auto
    have rest: "filter (\<lambda>k. hash_table ?b ! k = int hi) is = filter (\<lambda>k. hash_table b ! k = int hi) is"
      by (rule filter_cong) (use i in \<open>auto simp: nth_list_update\<close>)
    have ih: "count_list (hash_table (move_hashes (n - 1) hi lo is ?b)) (int j) + (if j = hi then nat (n - 1) else 0)
        = count_list (hash_table ?b) (int j) + (if j = lo then nat (n - 1) else 0)"
      by (rule Cons.IH) (use Cons.prems True i rest in auto)
    have "count_list (hash_table ?b) (int j) + (if j = hi then 1 else 0) = count_list (hash_table b) (int j) + (if j = lo then 1 else 0)"
      using count_list_update [OF i(1), of "int lo" "int j"] True by (auto split: if_splits)
    then show ?thesis
      using ih True Cons.prems(3) by (auto simp: move_hashes_one nat_diff_distrib simp del: move_hashes.simps split: if_splits)
  next
    case False
    then show ?thesis using Cons by (cases "n \<le> 0") (auto simp: move_hashes_one simp del: move_hashes.simps)
  qed
qed simp

lemma rebalance_hash_cases:
  assumes q: "sorts_by_load qsort" and ok: "balancer_ok b"
  obtains (same) "rebalance_hash qsort b = b"
      "length (rebalance_subjects b) \<le> 1 \<or> (\<forall>i j. rebalancer b i \<longrightarrow> rebalancer b j \<longrightarrow>
         srv_e_load (members b ! i) - srv_e_load (members b ! j) < hash_rebalance_threshold b)"
  | (moved) hi lo where "hi \<noteq> lo" "rebalancer b hi" "rebalancer b lo"
      "\<forall>i. rebalancer b i \<longrightarrow> srv_e_load (members b ! lo) \<le> srv_e_load (members b ! i)
         \<and> srv_e_load (members b ! i) \<le> srv_e_load (members b ! hi)"
      "srv_e_load (members b ! hi) - srv_e_load (members b ! lo) \<ge> hash_rebalance_threshold b"
      "rebalance_hash qsort b = move_hashes (c_div (int (unat (srv_hash_table_usage (members b ! hi))) * hash_rebalance_size b) 100)
         hi lo [0..<HASHTABLESIZE] b"
proof (cases "length (rebalance_subjects b) \<le> 1")
  case True
  then show ?thesis using same by (simp add: rebalance_hash_def Let_def)
next
  case False
  let ?srt = "qsort (rebalance_subjects b)"
  let ?lo = "srv_id (?srt ! 0)" and ?hi = "srv_id (?srt ! (length (rebalance_subjects b) - 1))"
  have "1 < length (rebalance_subjects b)" using False by simp
  note e = rebalance_ends [OF q ok this]
  show ?thesis
  proof (cases "srv_e_load (members b ! ?hi) - srv_e_load (members b ! ?lo) \<ge> hash_rebalance_threshold b")
    case True
    show ?thesis
      by (rule moved [of ?hi ?lo]) (use e True False in \<open>simp_all add: rebalance_hash_def Let_def\<close>)
  next
    case le: False
    have "srv_e_load (members b ! i) - srv_e_load (members b ! j) < hash_rebalance_threshold b"
      if "rebalancer b i" "rebalancer b j" for i j
      using e(4) [OF that(2)] e(5) [OF that(1)] le by linarith
    then show ?thesis by (intro same) (use False le in \<open>simp_all add: rebalance_hash_def Let_def\<close>)
  qed
qed

lemma rebalancer_used:
  assumes "balancer_ok b" and "rebalancer b i"
  shows "i < MAXSERVERS" and "srv_status (members b ! i) \<noteq> SERVER_STATE_FREE"
  using assms table_okD(2) by (fastforce simp: balancer_ok_def rebalancer_def)+

lemma rebalance_shared:
  assumes q: "sorts_by_load qsort"
  shows "shared_op (rebalance_hash qsort)"
proof
  fix b
  have "keeps b (rebalance_hash qsort b)" if ok: "balancer_ok b"
  proof (cases rule: rebalance_hash_cases [OF q ok])
    case (2 hi lo)
    note u = rebalancer_used [OF ok 2(2)] rebalancer_used [OF ok 2(3)]
    have "set [0..<HASHTABLESIZE] \<subseteq> {..<HASHTABLESIZE}" by auto
    from move_hashes_ok [OF ok this 2(1) u] show ?thesis unfolding 2(6) by (simp add: keeps_def)
  qed simp
  moreover have "session_limit (move_hashes n hi lo is b) = session_limit b" for n hi lo "is" b
    by (induction n hi lo "is" b rule: move_hashes.induct) (simp_all add: set_table_def)
  then have "session_limit (rebalance_hash qsort b) = session_limit b"
    by (simp add: rebalance_hash_def Let_def)
  ultimately show "keeps b (rebalance_hash qsort b)" by (auto simp: keeps_def)
qed

text \<open>The contract of \<open>qsort\<close> is met by the library's stable sort.\<close>

lemma sort_key_sorts_by_load: "sorts_by_load (sort_key srv_e_load)"
proof -
  have "sorted_wrt (\<lambda>x y. cmp_member_load x y \<le> 0) (sort_key srv_e_load xs)" for xs
  proof -
    have "sorted_wrt (\<lambda>x y. srv_e_load x \<le> srv_e_load y) (sort_key srv_e_load xs)"
      using sorted_sort_key [of srv_e_load xs] by (simp add: sorted_map)
    then show ?thesis by (rule sorted_wrt_mono_rel [rotated]) (simp add: cmp_member_load_def)
  qed
  then show ?thesis by (simp add: sorts_by_load_def)
qed

interpretation sorted_rebalance: shared_op "rebalance_hash (sort_key srv_e_load)"
  by (rule rebalance_shared [OF sort_key_sorts_by_load])

section \<open>A round keeps the server process safe\<close>

lemma keeps_monitor_snmp_round:
  assumes q: "sorts_by_load qsort" and r: "monitor_snmp_round qsort env j b = Inr (j', b')"
  shows "keeps b b'"
proof (cases "snmp_status b = SNMP_ENABLED \<and> snmp_community_pw b \<noteq> None")
  case False
  then show ?thesis using r by (auto simp: monitor_snmp_round_def)
next
  case True
  then obtain b1 where 1: "calc_effective_load (snmp_all (me_snmp env) (me_clone_snmp env) b) = Inr b1"
    using r by (auto simp: monitor_snmp_round_def res_bind_eq_Inr)
  define b2 where "b2 = (if hash_rebalance_interval b1 < int (unat (monitor_interval b1))
    then b1\<lparr>hash_rebalance_interval := int (unat (monitor_interval b1))\<rparr> else b1)"
  have "b' = b1 \<or> b' = b2 \<or> b' = rebalance_hash qsort b2"
    using r 1 True by (auto simp: monitor_snmp_round_def Let_def b2_def split: if_splits)
  moreover have "keeps b1 b2" by (auto simp: b2_def intro: keeps_cong)
  moreover have "keeps b2 (rebalance_hash qsort b2)" by (rule shared_op.keeps_op [OF rebalance_shared [OF q]])
  ultimately have "keeps b1 b'" using keeps_trans by auto
  then show ?thesis using keeps_trans [OF keeps_trans [OF snmp_checks.keeps_op keeps_calc_effective_load [OF 1]]] by blast
qed

lemma keeps_monitor_round:
  assumes q: "sorts_by_load qsort" and r: "monitor_round use_snmp qsort env j b = Inr (j', b')"
  shows "keeps b b'"
proof -
  define b0 where "b0 = b\<lparr>connection_rejected_log_suppress := False\<rparr>"
  define b1 where "b1 = check_clones (me_clone_probe env) (check_members (me_probe env) (handle_delete_servers b0))"
  have 0: "keeps b b0" by (rule keeps_cong) (simp_all add: b0_def)
  have 1: "keeps b0 b1" unfolding b1_def
    using keeps_trans deletion.keeps_op member_checks.keeps_op clone_checks.keeps_op by blast
  have "b' = b0 \<or> b' = b1 \<or> monitor_snmp_round qsort env j b1 = Inr (j', b')"
    using r by (auto simp: monitor_round_def Let_def b0_def [symmetric] b1_def [symmetric] split: if_splits)
  then show ?thesis using 0 1 keeps_monitor_snmp_round [OF q] keeps_trans by metis
qed

end
