(* ===== verification/Selection.thy ===== *)
theory Selection
  imports Algorithms
begin

text \<open>
  Properties of server selection: what each balancing algorithm promises, the URI hashing, the
  stickiness of the hash table, and the inputs on which the URI parser of the source fails.
\<close>

section \<open>A sample selection state\<close>

text \<open>Three enabled members with 5, 2 and 7 connections, after a successful scan.\<close>

definition sample_server :: "nat \<Rightarrow> int \<Rightarrow> SERVER" where
  "sample_server i conns =
     (new_server ''web'' SERVER_STATE_ENABLED STANDBY_STATE_FALSE 80 0 500 (Fin 4))
       \<lparr>srv_id := i, srv_c := conns, srv_load := Fin 1\<rparr>"

definition sample_members :: "SERVER list" where
  "sample_members = empty_table[0 := sample_server 0 5, 1 := sample_server 1 2, 2 := sample_server 2 7]"

definition sample_sel :: SEL where
  "sample_sel = \<lparr>balancer = sample_balancer\<lparr>nmembers := 3, members := sample_members\<rparr>,
     next_member = 0, next_clone = 0, available_members = [0, 1, 2], available_clones = [],
     use_clone = False, using_member_standby = False, using_clone_standby = False\<rparr>"

lemma sample_server_simps [simp]:
  "srv_status (sample_server i k) = SERVER_STATE_ENABLED" "srv_id (sample_server i k) = i"
  "srv_c (sample_server i k) = k" "srv_maxc (sample_server i k) = 500"
  "srv_standby_state (sample_server i k) = STANDBY_STATE_FALSE" "srv_e_load (sample_server i k) = 0"
  "srv_hash_table_usage (sample_server i k) = 0" "srv_load (sample_server i k) = Fin 1"
  by (simp_all add: sample_server_def new_server_def zero_server_def)

lemma sample_members_nth:
  "i < MAXSERVERS \<Longrightarrow> sample_members ! i = (if i = 0 then sample_server 0 5 else if i = 1 then sample_server 1 2
     else if i = 2 then sample_server 2 7 else zero_server)"
  by (simp add: sample_members_def nth_list_update)

lemma sample_members_ok: "length sample_members = MAXSERVERS" "table_ok sample_members 3"
  by (simp_all add: sample_members_def table_ok_def nth_list_update)

lemma less_3_cases: "(\<forall>i<(3::nat). P i) \<longleftrightarrow> P 0 \<and> P 1 \<and> P 2"
  by (auto simp: numeral_3_eq_3 less_Suc_eq numeral_2_eq_2)

lemma sample_eligible: "eligible OVERLOAD_MODE_RELAXED sample_members 3 = {0, 1, 2}"
proof -
  have "{i. i < 3 \<and> servable OVERLOAD_MODE_RELAXED (sample_members ! i)
      \<and> srv_standby_state (sample_members ! i) \<noteq> STANDBY_STATE_TRUE} = {0, 1, 2}"
    by (auto simp: sample_members_nth servable_def)
  then show ?thesis by (simp add: eligible_def Let_def)
qed

lemma sample_sel_simps [simp]:
  "balancer sample_sel = sample_balancer\<lparr>nmembers := 3, members := sample_members\<rparr>"
  "next_member sample_sel = 0" "available_members sample_sel = [0, 1, 2]" "next_clone sample_sel = 0"
  "use_clone sample_sel = False" "using_member_standby sample_sel = False"
  by (simp_all add: sample_sel_def)

lemma sample_balancer_simps [simp]:
  "clones sample_balancer = empty_table" "nclones sample_balancer = 0"
  "overload_mode sample_balancer = OVERLOAD_MODE_RELAXED"
  "hash_table sample_balancer = replicate HASHTABLESIZE HASH_VAL_FREE"
  "clone_mode sample_balancer = CLONE_MODE_OFF" "session_weight sample_balancer = Fin (1 / 10)"
  by (simp_all add: sample_balancer_def)

lemma sample_sel_ready: "sel_ready sample_sel"
  using sample_eligible sample_members_ok
  by (simp add: sel_ready_def less_3_cases sample_members_nth servable_def)

lemma sample_sel_ok: "balancer_ok (balancer sample_sel)"
  by (simp add: balancer_ok_def hash_ok_def sample_members_ok sample_members_nth count_list_replicate)

section \<open>Available servers\<close>

text \<open>
  C14. \<open>get_available_servers\<close> implements the documented rule: it fails exactly when no member can take
  a connection; otherwise \<open>available_members\<close> lists the eligible members (the non-standby ones, or the
  standby ones when there are no others) without repetition, and \<open>next_member\<close> is one of them. When
  cloning is used, the clone lists satisfy the same rule and \<open>next_clone\<close> can take a connection.
\<close>

theorem get_available_servers_correct:
  assumes "table_ok (members (balancer g)) (nmembers (balancer g))"
    and "table_ok (clones (balancer g)) (nclones (balancer g))"
    and "next_member g < MAXSERVERS" and "next_clone g < MAXSERVERS"
  shows "if eligible (overload_mode (balancer g)) (members (balancer g)) (nmembers (balancer g)) = {}
     then fst (get_available_servers g) = - 1
     else fst (get_available_servers g) = 0 \<and> sel_ready (snd (get_available_servers g))"
proof -
  have "fst (get_available_servers g) = - 1 \<or> fst (get_available_servers g) = 0"
    by (simp add: get_available_servers_def Let_def)
  then show ?thesis using get_available_servers_outcome [OF assms] by auto
qed

theorem get_available_servers_correct_witness:
  "fst (get_available_servers sample_sel) = 0 \<and> sel_ready (snd (get_available_servers sample_sel))"
proof -
  have "table_ok (clones (balancer sample_sel)) 0" using sample_sel_ok by (simp add: balancer_ok_def)
  then show ?thesis
    using get_available_servers_correct [of sample_sel] sample_members_ok(2) sample_eligible by simp
qed

section \<open>Round robin\<close>

lemma set_rr_server_position:
  assumes "sel_ready g" and "j < length (available_members g)" and "next_member g = available_members g ! j"
  shows "next_member (set_rr_server g) = available_members g ! ((j + 1) mod length (available_members g))"
  using rr_loop_step [OF sel_readyD(3) [OF assms(1)] assms(2) sel_ready_ids(1) [OF assms(1)], of 0] assms(3)
  by simp

lemma set_rr_server_iterate:
  fixes g :: "'a SEL_scheme"
  assumes "sel_ready g" and "j < length (available_members g)" and "next_member g = available_members g ! j"
  shows "sel_ready ((set_rr_server ^^ k) g) \<and> available_members ((set_rr_server ^^ k) g) = available_members g
    \<and> next_member ((set_rr_server ^^ k) g) = available_members g ! ((j + k) mod length (available_members g))"
proof (induction k)
  case 0
  then show ?case using assms by simp
next
  case (Suc k)
  let ?h = "(set_rr_server ^^ k) g" and ?n = "length (available_members g)"
  have "(j + k) mod ?n < ?n" using assms(2) by (intro mod_less_divisor) auto
  then have "next_member (set_rr_server ?h) = available_members g ! (((j + k) mod ?n + 1) mod ?n)"
    using set_rr_server_position [of ?h "(j + k) mod ?n"] Suc by simp
  then show ?case using Suc rr.keeps_ready [of ?h] by (simp add: mod_Suc_eq del: set_rr_server_simps(6))
qed

lemma mset_rotate_eq: "mset (rotate n xs) = mset xs"
proof -
  let ?k = "n mod length xs"
  have "mset (rotate n xs) = mset (take ?k xs @ drop ?k xs)"
    by (simp only: rotate_drop_take mset_append add.commute)
  then show ?thesis by simp
qed



section \<open>Least connections and least load\<close>

text \<open>
  C16. Least connections picks an available member, and no available member has fewer connections.
\<close>

theorem least_connections_minimal:
  assumes "sel_ready g"
  shows "next_member (set_lc_server g) \<in> set (available_members g)
    \<and> (\<forall>a \<in> set (available_members g).
         srv_c (members (balancer g) ! next_member (set_lc_server g)) \<le> srv_c (members (balancer g) ! a))"
proof -
  have "\<not> lc_less (members (balancer g) ! a) (members (balancer g) ! next_member (set_lc_server g))"
    if "a \<in> set (available_members g)" for a
    using lc.scan_min_least [OF sel_ready_ids(1) [OF assms], where a = a] that by simp
  then show ?thesis using lcs.picks_member [OF assms] by (auto simp: lc_less_def not_less)
qed

theorem least_connections_minimal_witness:
  "next_member (set_lc_server sample_sel) \<in> set (available_members sample_sel)
    \<and> srv_c (members (balancer sample_sel) ! next_member (set_lc_server sample_sel)) \<le> srv_c (members (balancer sample_sel) ! 1)
    \<and> srv_c (members (balancer sample_sel) ! next_member (set_lc_server sample_sel)) \<le> srv_c (members (balancer sample_sel) ! 2)"
  using least_connections_minimal [OF sample_sel_ready] by simp

text \<open>
  C17. Least load picks an available member, and no available member has a smaller load plus session
  weight, computed in \<open>float\<close> as the code does, provided none of these sums is a NaN.
\<close>

theorem least_load_minimal:
  assumes "sel_ready g"
    and "\<forall>a \<in> set (available_members g). ll_weight (session_weight (balancer g)) (members (balancer g) ! a) \<noteq> NaN"
  shows "next_member (set_ll_server g) \<in> set (available_members g)
    \<and> (\<forall>a \<in> set (available_members g).
         f_le (ll_weight (session_weight (balancer g)) (members (balancer g) ! next_member (set_ll_server g)))
              (ll_weight (session_weight (balancer g)) (members (balancer g) ! a)))"
proof -
  let ?w = "session_weight (balancer g)" and ?m = "members (balancer g)"
  have "\<not> ll_less ?w (?m ! a) (?m ! next_member (set_ll_server g))" if "a \<in> set (available_members g)" for a
    using ll.scan_min_least [OF sel_ready_ids(1) [OF assms(1)], where a = a] that assms(2)
      sel_readyD(4) [OF assms(1)] by auto
  then show ?thesis
    using lls.picks_member [OF assms(1)] assms(2) by (simp add: ll_less_def f_le_lt_iff)
qed

lemma sample_ll_weight: "ll_weight (Fin (1 / 10)) (sample_server i k) \<noteq> NaN"
proof (cases "f_of_int k")
  case (Fin x)
  then show ?thesis by (cases "to_float (x / 10)") (auto simp: ll_weight_def to_float_not_NaN)
next
  case (Inf t)
  then show ?thesis by (simp add: ll_weight_def)
next
  case NaN
  then show ?thesis by (simp add: f_of_int_def)
qed

theorem least_load_minimal_witness:
  "next_member (set_ll_server sample_sel) \<in> set (available_members sample_sel)
    \<and> f_le (ll_weight (session_weight (balancer sample_sel))
              (members (balancer sample_sel) ! next_member (set_ll_server sample_sel)))
           (ll_weight (session_weight (balancer sample_sel)) (members (balancer sample_sel) ! 2))"
proof -
  have two: "2 \<in> set (available_members sample_sel)" by simp
  have "\<forall>a\<in>set (available_members sample_sel). ll_weight (session_weight (balancer sample_sel)) (members (balancer sample_sel) ! a) \<noteq> NaN"
    by (simp add: sample_members_nth sample_ll_weight)
  from least_load_minimal [OF sample_sel_ready this] two show ?thesis by blast
qed

section \<open>URI hashing\<close>

lemma djb_loop_append: "djb_loop h (xs @ [x]) = 33 * djb_loop h xs + scast x"
proof (induction xs arbitrary: h)
  case Nil
  have "push_bit 5 h = 32 * h" for h :: "32 word" by (simp add: push_bit_eq_mult)
  then show ?case by simp
qed simp

lemma djb_loop_poly:
  "djb_loop h xs = h * 33 ^ length xs + (\<Sum>i<length xs. scast (xs ! i) * 33 ^ (length xs - 1 - i))"
proof (induction xs rule: rev_induct)
  case (snoc x xs)
  have "33 * (\<Sum>i<length xs. scast (xs ! i) * 33 ^ (length xs - 1 - i))
      = (\<Sum>i<length xs. scast ((xs @ [x]) ! i) * (33 :: 32 word) ^ (length xs - i))"
    unfolding sum_distrib_left
  proof (rule sum.cong)
    fix i assume "i \<in> {..<length xs}"
    then have "length xs - i = Suc (length xs - 1 - i)" and "(xs @ [x]) ! i = xs ! i"
      by (simp_all add: nth_append)
    then show "33 * (scast (xs ! i) * 33 ^ (length xs - 1 - i))
        = scast ((xs @ [x]) ! i) * (33 :: 32 word) ^ (length xs - i)" by (simp add: algebra_simps)
  qed simp
  then show ?case using snoc by (simp add: djb_loop_append algebra_simps)
qed simp

text \<open>
  C30. \<open>DJBHash\<close> is the polynomial hash of Bernstein modulo \<open>2 ^ 16\<close>: 5381 times \<open>33 ^ n\<close> plus the
  sign-extended characters weighted by powers of 33.
\<close>

theorem DJBHash_polynomial:
  "DJBHash str = ucast (5381 * 33 ^ length str
     + (\<Sum>i<length str. scast (str ! i) * (33 :: 32 word) ^ (length str - 1 - i)))"
  by (simp add: DJBHash_def djb_loop_poly)

lemma uri_key_query:
  assumes "p \<noteq> []" and "63 \<notin> set p"
  shows "uri_key (p @ 63 # q) = Inr p"
proof -
  have "dropWhile (\<lambda>b. b = 63) (p @ 63 # q) = p @ 63 # q" using assms by (cases p) auto
  moreover have "takeWhile (\<lambda>b. b \<noteq> 63) (p @ 63 # q) = p" using assms(2) by (induction p) auto
  ultimately show ?thesis by (simp add: uri_key_def strtok_buf_def Let_def)
qed

text \<open>
  The static algorithm looks at the path only: two requests for the same path with different
  query strings, and the request for the bare path, go to the same member and clone.
\<close>

theorem static_ignores_query:
  assumes "p \<noteq> []" and "63 \<notin> set p"
    and "request_uri buf1 = Inr (Some (p @ 63 # q))"
    and "request_uri buf2 = Inr (Some p) \<or> request_uri buf2 = Inr (Some (p @ 63 # q'))"
  shows "set_static_server buf1 g = set_static_server buf2 g"
proof -
  have "uri_key p = Inr p" using assms(2) by (simp add: uri_key_def)
  then show ?thesis
    using assms(3,4) uri_key_query [OF assms(1,2)] by (auto simp: set_static_server_def)
qed

lemma takeWhile_prefix: "(\<And>x. x \<in> set xs \<Longrightarrow> P x) \<Longrightarrow> takeWhile P (xs @ ys) = xs @ takeWhile P ys"
  by (induction xs) auto

lemma dropWhile_prefix: "(\<And>x. x \<in> set xs \<Longrightarrow> P x) \<Longrightarrow> dropWhile P (xs @ ys) = dropWhile P ys"
  by (induction xs) auto

lemma request_line_prefix:
  assumes "length xs \<le> URI_LINE_LEN" and "10 \<notin> set xs"
  shows "\<exists>ys. request_line (xs @ rest) = xs @ ys"
proof -
  have tk: "take URI_LINE_LEN (xs @ rest) = xs @ take (URI_LINE_LEN - length xs) rest" using assms(1) by simp
  have "takeWhile (\<lambda>b. b \<noteq> 10) (take URI_LINE_LEN (xs @ rest))
      = xs @ takeWhile (\<lambda>b. b \<noteq> 10) (take (URI_LINE_LEN - length xs) rest)"
    unfolding tk by (rule takeWhile_prefix) (use assms(2) in auto)
  then show ?thesis unfolding request_line_def Let_def by (auto simp del: replicate.simps)
qed

lemma request_uri_prefix:
  assumes len: "length verb + length uri + 2 \<le> URI_LINE_LEN" and uri: "uri \<noteq> []"
    and chars: "set verb \<inter> {0, 10, 32} = {}" "set uri \<inter> {0, 10, 32} = {}"
  shows "request_uri (verb @ 32 # uri @ 32 # rest) = Inr (Some uri)"
proof -
  let ?pre = "verb @ 32 # uri @ [32]"
  obtain ys where ys: "request_line (?pre @ rest) = ?pre @ ys"
    using request_line_prefix [of ?pre rest] len chars by auto
  let ?z = "takeWhile (\<lambda>b. b \<noteq> 0) ys"
  have s: "takeWhile (\<lambda>b. b \<noteq> 0) (?pre @ ys) = ?pre @ ?z"
    by (rule takeWhile_prefix) (use chars in auto)
  have "dropWhile (\<lambda>b. b \<noteq> 32) (verb @ 32 # uri @ 32 # ?z) = dropWhile (\<lambda>b. b \<noteq> 32) (32 # uri @ 32 # ?z)"
    by (rule dropWhile_prefix) (use chars(1) in auto)
  then have d: "dropWhile (\<lambda>b. b \<noteq> 32) (?pre @ ?z) = 32 # uri @ 32 # ?z" by simp
  have start: "strchr_buf 32 (?pre @ ys) = Inr (Some (32 # uri @ 32 # ?z))"
    using s d by (simp add: strchr_buf_def Let_def)
  have "dropWhile (\<lambda>b. b = 32) (32 # uri @ 32 # ?z) = uri @ 32 # ?z"
    using uri chars(2) by (cases uri) auto
  moreover have "takeWhile (\<lambda>b. b \<noteq> 32) (uri @ 32 # ?z) = uri @ takeWhile (\<lambda>b. b \<noteq> 32) (32 # ?z)"
    by (rule takeWhile_prefix) (use chars(2) in auto)
  ultimately have "strtok_buf t 32 (32 # uri @ 32 # ?z) = Inr (Some uri)" for t
    by (simp add: strtok_buf_def Let_def)
  then show ?thesis using start ys by (simp add: request_uri_def Let_def)
qed

text \<open>
  C31. The URI parser: for a client buffer that starts with a request line \<open>VERB URI ...\<close> whose verb and
  URI fit into the 200 bytes that are looked at and contain no space, newline or NUL, the parser
  returns the URI.
\<close>

theorem request_uri_parses:
  assumes len: "length verb + length uri + 2 \<le> URI_LINE_LEN" and uri: "uri \<noteq> []"
    and chars: "set verb \<inter> {0, 10, 32} = {}" "set uri \<inter> {0, 10, 32} = {}"
  shows "request_uri (verb @ 32 # uri @ 32 # rest) = Inr (Some uri)"
  by (rule request_uri_prefix [OF len uri chars])

text \<open>A client buffer holding the request \<open>verb uri HTTP/1.0\<close>, zero filled.\<close>

definition request_buffer :: "byte list \<Rightarrow> byte list" where
  "request_buffer uri = [71, 69, 84] @ 32 # uri @ 32 # [72, 84, 84, 80, 47, 49, 46, 48, 13, 10]
     @ replicate (4081 - length uri) 0"

theorem request_uri_parses_witness:
  "request_uri ([71, 69, 84] @ 32 # [47, 97, 63, 98] @ 32 # replicate 4086 0) = Inr (Some [47, 97, 63, 98])"
  by (rule request_uri_parses) simp_all

lemma request_buffer_uri:
  assumes "length uri \<le> 190" "uri \<noteq> []" "set uri \<inter> {0, 10, 32} = {}"
  shows "request_uri (request_buffer uri) = Inr (Some uri)"
  unfolding request_buffer_def by (rule request_uri_prefix) (use assms in simp_all)

theorem static_ignores_query_witness:
  "set_static_server (request_buffer [47, 97, 63, 98]) sample_sel = set_static_server (request_buffer [47, 97]) sample_sel"
proof (rule static_ignores_query)
  show "request_uri (request_buffer [47, 97, 63, 98]) = Inr (Some ([47, 97] @ 63 # [98]))"
    by (simp add: request_buffer_uri)
  show "request_uri (request_buffer [47, 97]) = Inr (Some [47, 97])
      \<or> request_uri (request_buffer [47, 97]) = Inr (Some ([47, 97] @ 63 # []))"
    by (simp add: request_buffer_uri)
qed simp_all

text \<open>
  A request whose URI consists of question marks only (for example \<open>GET ? HTTP/1.0\<close>) makes both
  URI algorithms take the length of a null pointer.
\<close>

theorem query_only_uri_faults:
  assumes "request_uri buf = Inr (Some uri)" and "set uri = {63}"
  shows "set_hash_server buf g = Inl Null_deref \<and> set_static_server buf g = Inl Null_deref"
proof -
  have "dropWhile (\<lambda>b. b = 63) uri = []" using assms(2) by simp
  then have "uri_key uri = Inl Null_deref" using assms(2) by (simp add: uri_key_def strtok_buf_def)
  then show ?thesis
    using assms(1) by (simp_all add: set_hash_server_def set_static_server_def)
qed

theorem query_only_uri_faults_witness:
  "set_hash_server (request_buffer [63]) sample_sel = Inl Null_deref
     \<and> set_static_server (request_buffer [63]) sample_sel = Inl Null_deref"
  using query_only_uri_faults [of "request_buffer [63]" "[63]" sample_sel] by (simp add: request_buffer_uri)

text \<open>
  C38. A request whose first 200 bytes contain no space, newline or NUL makes the URI parser read past
  the end of its 200-byte line buffer, which is then not NUL terminated.
\<close>

theorem long_request_out_of_bounds:
  assumes "URI_LINE_LEN \<le> length buf" and "set (take URI_LINE_LEN buf) \<inter> {0, 10, 32} = {}"
  shows "set_hash_server buf g = Inl Out_of_bounds \<and> set_static_server buf g = Inl Out_of_bounds"
proof -
  have p: "takeWhile (\<lambda>b. b \<noteq> 10) (take URI_LINE_LEN buf) = take URI_LINE_LEN buf"
    using assms(2) by (auto simp: takeWhile_eq_all_conv)
  then have l: "request_line buf = take URI_LINE_LEN buf"
    using assms(1) unfolding request_line_def p Let_def by simp
  have s: "takeWhile (\<lambda>b. b \<noteq> 0) (take URI_LINE_LEN buf) = take URI_LINE_LEN buf"
    using assms(2) by (auto simp: takeWhile_eq_all_conv)
  have "request_uri buf = Inl Out_of_bounds"
    using assms(2) unfolding request_uri_def l strchr_buf_def Let_def s by auto
  then show ?thesis
    by (simp_all add: set_hash_server_def set_static_server_def)
qed

theorem long_request_out_of_bounds_witness:
  "set_hash_server (replicate 4096 65) sample_sel = Inl Out_of_bounds
     \<and> set_static_server (replicate 4096 65) sample_sel = Inl Out_of_bounds"
  using long_request_out_of_bounds [of "replicate 4096 65" sample_sel] by simp

section \<open>Every algorithm chooses an eligible member\<close>

lemma pick_clone_by_hash_ready:
  assumes "sel_ready g" and "pick_clone_by_hash h g = Inr g'"
  shows "sel_ready g'"
proof (cases "use_clone g")
  case True
  then have ne: "available_clones g \<noteq> []"
    and g': "g' = g\<lparr>next_clone := available_clones g ! (h mod length (available_clones g))\<rparr>"
    using assms(2) by (auto simp: pick_clone_by_hash_def split: if_splits)
  have "available_clones g ! (h mod length (available_clones g)) \<in> set (available_clones g)"
    using ne by (intro nth_mem mod_less_divisor) auto
  then have "next_clone g' \<in> eligible (overload_mode (balancer g)) (clones (balancer g)) (nclones (balancer g))"
    using sel_readyD(7) [OF assms(1) True] g' by simp
  then show ?thesis
    using assms(1) eligibleD unfolding sel_ready_def g' by fastforce
qed (use assms in \<open>auto simp: pick_clone_by_hash_def\<close>)

lemma sel_ready_move:
  assumes "sel_ready g" and "m \<in> set (available_members g)"
  shows "sel_ready (g\<lparr>next_member := m\<rparr>)"
  using assms unfolding sel_ready_def by simp

lemma standby_candidate_available:
  assumes rdy: "sel_ready g" and k: "k < MAXSERVERS"
    and v: "servable (overload_mode (balancer g)) (members (balancer g) ! k)"
    and sb: "srv_standby_state (members (balancer g) ! k) = STANDBY_STATE_TRUE \<longrightarrow> using_member_standby g"
  shows "k \<in> set (available_members g)" and "srv_id (members (balancer g) ! k) = k"
proof -
  have "k \<in> eligible (overload_mode (balancer g)) (members (balancer g)) (nmembers (balancer g))"
    by (rule current_eligible [OF sel_readyD(1) [OF rdy] k v])
      (use sb sel_readyD(8) [OF rdy] in \<open>auto simp: scan_first_empty\<close>)
  then show av: "k \<in> set (available_members g)" using sel_readyD(6) [OF rdy] by simp
  show "srv_id (members (balancer g) ! k) = k" by (rule sel_ready_ids(1) [OF rdy av])
qed

lemma static_available:
  assumes "sel_ready g" and "set_static_server buf g = Inr g'"
  shows "next_member g' \<in> set (available_members g)"
proof -
  have "available_members g ! (h mod length (available_members g)) \<in> set (available_members g)" for h
    using sel_readyD(4) [OF assms(1)] by (intro nth_mem mod_less_divisor) auto
  then show ?thesis
    using assms(2) lcs.picks_member [OF assms(1)]
    by (auto simp: set_static_server_def res_bind_eq_Inr Let_def dest!: pick_clone_by_hash_frame(2)
        simp del: set_lc_server_simps(6) split: option.splits if_splits)
qed

lemma hash_available:
  assumes rdy: "sel_ready g" and ok: "balancer_ok (balancer g)" and res: "set_hash_server buf g = Inr g'"
  shows "next_member g' \<in> set (available_members g)"
proof -
  obtain u where u: "request_uri buf = Inr u" using res by (auto simp: set_hash_server_def)
  show ?thesis
  proof (cases u)
    case None
    then show ?thesis using res u lcs.picks_member [OF rdy]
      by (auto simp: set_hash_server_def simp del: set_lc_server_simps(6))
  next
    case (Some uri)
    obtain key where key: "uri_key uri = Inr key" using res u Some by (auto simp: set_hash_server_def)
    have h: "uri_hash key < HASHTABLESIZE" using uri_hash_bound [of key] by simp
    note eq = set_hash_server_key [OF u [unfolded Some] key, of g, unfolded Let_def]
    show ?thesis
      using res hash_entry_used(3) [OF ok h] standby_candidate_available [OF rdy, of "nat (hash_table (balancer g) ! uri_hash key)"]
        lcs.picks_member [OF rdy] unfolding eq
      by (auto dest!: pick_clone_by_hash_frame(2) simp del: set_lc_server_simps(6) split: if_splits)
  qed
qed

text \<open>
  C12. Selection is safe for all five algorithms: whenever the scan succeeds and the configured algorithm
  returns, the member it chose is eligible, that is, enabled, below its connection limit, not
  overloaded in strict mode, and a standby only if every other usable member is one too.
\<close>

theorem selection_picks_eligible:
  assumes ok: "balancer_ok (balancer g)" and nm: "next_member g < MAXSERVERS" and nc: "next_clone g < MAXSERVERS"
    and scan: "get_available_servers g = (0, g1)" and alg: "run_algorithm buf g1 = Inr g2"
  shows "next_member g2 \<in> eligible (overload_mode (balancer g)) (members (balancer g)) (nmembers (balancer g))"
proof -
  have t: "table_ok (members (balancer g)) (nmembers (balancer g))" "table_ok (clones (balancer g)) (nclones (balancer g))"
    using ok by (auto simp: balancer_ok_def)
  have rdy: "sel_ready g1" using get_available_servers_outcome(2) [OF t nm nc] scan by simp
  have b: "balancer g1 = balancer g"
    using arg_cong [OF scan, of "\<lambda>x. balancer (snd x)"] by (auto simp: get_available_servers_def Let_def split: if_splits)
  have "next_member g2 \<in> set (available_members g1)"
  proof (cases "algorithm (balancer g1)")
    case ALGORITHM_HASH
    then show ?thesis using alg hash_available [OF rdy] ok b by (simp add: run_algorithm_def)
  next
    case ALGORITHM_STATIC
    then show ?thesis using alg static_available [OF rdy] by (simp add: run_algorithm_def)
  qed (use alg rr.picks_member [OF rdy] lcs.picks_member [OF rdy] lls.picks_member [OF rdy]
        in \<open>auto simp: run_algorithm_def\<close>)
  then show ?thesis using sel_readyD(6) [OF rdy] b by simp
qed

lemma scan_sample:
  "get_available_servers sample_sel = (0, sample_sel)"
proof -
  have "scan_available OVERLOAD_MODE_RELAXED False sample_members [0..<3] = [0, 1, 2]"
    by (simp add: scan_available_filter servable_def sample_members_nth upt_rec)
  then show ?thesis
    by (simp add: get_available_servers_def Let_def scan_twice_def verify_server_def sample_members_nth)
      (simp add: sample_sel_def)
qed

theorem selection_picks_eligible_witness:
  "next_member (set_lc_server sample_sel) \<in> eligible OVERLOAD_MODE_RELAXED sample_members 3"
proof -
  have "run_algorithm [] sample_sel = Inr (set_lc_server sample_sel)"
    by (simp add: run_algorithm_def sample_balancer_def)
  from selection_picks_eligible [OF sample_sel_ok _ _ scan_sample this] show ?thesis
    by (simp del: set_lc_server_simps(6))
qed

section \<open>The hash table\<close>

text \<open>
  C18. The URI hash algorithm keeps the hash table and its accounting consistent: every entry is free or
  names a server in use, and each server's 16-bit usage counter equals the number of entries that
  name it, with no wrap-around.
\<close>

theorem set_hash_server_accounting:
  assumes "sel_ready g" and "balancer_ok (balancer g)" and "set_hash_server buf g = Inr g'"
  shows "balancer_ok (balancer g')"
  by (rule set_hash_server_ok [OF assms])

text \<open>The first request on the sample state: a hash miss that assigns the entry.\<close>

lemma sample_lc: "next_member (set_lc_server sample_sel) = 1"
  by (simp add: sample_members_nth lc_less_def)

lemma uri_key_plain: "63 \<notin> set uri \<Longrightarrow> uri_key uri = Inr uri"
  by (simp add: uri_key_def)

lemma sample_hash_request:
  "set_hash_server (request_buffer [47]) sample_sel =
     Inr ((set_lc_server sample_sel)\<lparr>balancer :=
       set_table (uri_hash [47]) 1 (upd_member 1 usage_inc (balancer sample_sel))\<rparr>)"
proof -
  have u: "request_uri (request_buffer [47]) = Inr (Some [47])" by (simp add: request_buffer_uri)
  have k: "uri_key [47] = Inr [47]" by (simp add: uri_key_plain)
  have "hash_table (balancer sample_sel) ! uri_hash [47] = HASH_VAL_FREE"
    using uri_hash_bound [of "[47]"] by simp
  then show ?thesis
    unfolding set_hash_server_key [OF u k] Let_def sample_lc by simp
qed

theorem set_hash_server_accounting_witness:
  "balancer_ok (set_table (uri_hash [47]) 1 (upd_member 1 usage_inc (balancer sample_sel)))"
  using set_hash_server_accounting [OF sample_sel_ready sample_sel_ok sample_hash_request] by simp

lemma set_hash_server_enters:
  assumes rdy: "sel_ready g" and ok: "balancer_ok (balancer g)"
    and u: "request_uri buf = Inr (Some uri)" "uri_key uri = Inr key"
    and r: "set_hash_server buf g = Inr g'"
  shows "hash_table (balancer g') ! uri_hash key = int (next_member g')"
proof -
  have b: "uri_hash key < HASHTABLESIZE" using uri_hash_bound [of key] by simp
  have len: "uri_hash key < length (hash_table (balancer g))"
    using b hash_okD(1) ok by (simp add: balancer_ok_def)
  note eq = set_hash_server_key [OF u, of g, unfolded Let_def]
  let ?k = "nat (hash_table (balancer g) ! uri_hash key)" and ?b = "balancer g"
  show ?thesis
  proof (cases "hash_table ?b ! uri_hash key = HASH_VAL_FREE")
    case True
    then show ?thesis using r len unfolding eq by (auto simp del: set_lc_server_simps(6))
  next
    case used: False
    note k = hash_entry_used [OF ok b used]
    show ?thesis
    proof (cases "servable (overload_mode ?b) (members ?b ! ?k)
        \<and> (srv_standby_state (members ?b ! ?k) = STANDBY_STATE_TRUE \<longrightarrow> using_member_standby g)")
      case True
      then have "srv_id (members ?b ! ?k) = ?k"
        using standby_candidate_available(2) [OF rdy k(3)] by blast
      then have "pick_clone_by_hash (uri_hash key) (g\<lparr>next_member := ?k\<rparr>) = Inr g'"
        using r used True unfolding eq by simp
      then show ?thesis using pick_clone_by_hash_frame k(1) by fastforce
    next
      case False
      then have "g' = (set_lc_server g)\<lparr>balancer := set_table (uri_hash key) (next_member (set_lc_server g))
          (upd_member (next_member (set_lc_server g)) usage_inc (upd_member ?k usage_dec ?b))\<rparr>"
        using r used unfolding eq by (simp only: if_False sum.inject)
      then show ?thesis using len by (simp del: set_lc_server_simps(6))
    qed
  qed
qed

text \<open>
  C19. The hash table is sticky. A request with a URI key enters its choice into the table, and a later
  request with the same key, on any later state in which the entry is unchanged and that member
  can still be used, goes to the same member and leaves the table alone.
\<close>

theorem hash_affinity:
  assumes rdy: "sel_ready g" and ok: "balancer_ok (balancer g)"
    and u: "request_uri buf = Inr (Some uri)" "uri_key uri = Inr key"
    and r: "set_hash_server buf g = Inr g'"
    and u2: "request_uri buf2 = Inr (Some uri2)" "uri_key uri2 = Inr key"
    and rdy2: "sel_ready h" and ok2: "balancer_ok (balancer h)"
    and same: "hash_table (balancer h) ! uri_hash key = hash_table (balancer g') ! uri_hash key"
    and usable: "servable (overload_mode (balancer h)) (members (balancer h) ! next_member g')"
      "srv_standby_state (members (balancer h) ! next_member g') = STANDBY_STATE_TRUE \<longrightarrow> using_member_standby h"
    and r2: "set_hash_server buf2 h = Inr h'"
  shows "next_member h' = next_member g' \<and> balancer h' = balancer h"
proof -
  have b: "uri_hash key < HASHTABLESIZE" using uri_hash_bound [of key] by simp
  have "hash_table (balancer g') ! uri_hash key = int (next_member g')"
    by (rule set_hash_server_enters [OF rdy ok u r])
  then have v: "hash_table (balancer h) ! uri_hash key = int (next_member g')" using same by simp
  have k: "next_member g' < MAXSERVERS" using hash_entry_used(3) [OF ok2 b] v by simp
  have id: "srv_id (members (balancer h) ! next_member g') = next_member g'"
    by (rule standby_candidate_available(2) [OF rdy2 k usable])
  note eq2 = set_hash_server_key [OF u2, of h, unfolded Let_def v]
  have "pick_clone_by_hash (uri_hash key) (h\<lparr>next_member := next_member g'\<rparr>) = Inr h'"
    using r2 usable id unfolding eq2 by simp
  then show ?thesis using pick_clone_by_hash_frame by fastforce
qed

text \<open>The state after the first request, seen by the second one.\<close>

definition sample_hashed :: SEL where
  "sample_hashed = sample_sel\<lparr>balancer :=
     set_table (uri_hash [47]) 1 (upd_member 1 usage_inc (balancer sample_sel))\<rparr>"

lemma sample_hashed_members:
  "members (balancer sample_hashed) = upd_server 1 usage_inc sample_members"
  by (simp add: sample_hashed_def)

lemma sample_hashed_ready: "sel_ready sample_hashed" "balancer_ok (balancer sample_hashed)"
proof -
  have srv: "servable ov (upd_server 1 usage_inc sample_members ! i) = servable ov (sample_members ! i)"
    "srv_standby_state (upd_server 1 usage_inc sample_members ! i) = srv_standby_state (sample_members ! i)" for i ov
    using sample_members_ok(1) by (simp_all add: servable_def usage_inc_def)
  have "eligible ov (upd_server 1 usage_inc sample_members) n = eligible ov sample_members n" for ov n
    by (simp only: eligible_def srv)
  moreover have "table_ok (upd_server 1 usage_inc sample_members) 3"
    by (rule table_ok_usage(1) [OF sample_members_ok(2)]) (simp_all add: sample_members_nth)
  ultimately show "sel_ready sample_hashed"
    using sample_sel_ready by (auto simp: sel_ready_def sample_hashed_def srv [unfolded One_nat_def])
  show "balancer_ok (balancer sample_hashed)"
    unfolding sample_hashed_def
    using set_hash_server_ok [OF sample_sel_ready sample_sel_ok sample_hash_request] by simp
qed

lemma sample_hashed_request:
  "set_hash_server (request_buffer [47]) sample_hashed = Inr (sample_hashed\<lparr>next_member := 1\<rparr>)"
proof -
  have u: "request_uri (request_buffer [47]) = Inr (Some [47])" by (simp add: request_buffer_uri)
  have k: "uri_key [47] = Inr [47]" by (simp add: uri_key_plain)
  have "hash_table (balancer sample_hashed) ! uri_hash [47] = 1"
    using uri_hash_bound [of "[47]"] by (simp add: sample_hashed_def)
  then show ?thesis
    unfolding set_hash_server_key [OF u k] Let_def sample_hashed_members
    using sample_members_ok(1)
    by (simp add: sample_members_nth servable_def usage_inc_def pick_clone_by_hash_def)
      (simp add: sample_hashed_def)
qed

theorem hash_affinity_witness:
  "next_member (sample_hashed\<lparr>next_member := 1\<rparr>) = next_member (set_lc_server sample_sel)"
proof -
  have u: "request_uri (request_buffer [47]) = Inr (Some [47])" by (simp add: request_buffer_uri)
  have k: "uri_key [47] = Inr [47]" by (simp add: uri_key_plain)
  have "servable OVERLOAD_MODE_RELAXED (upd_server 1 usage_inc sample_members ! 1)"
    using sample_members_ok(1) by (simp add: sample_members_nth servable_def usage_inc_def)
  then show ?thesis
    using hash_affinity [OF sample_sel_ready sample_sel_ok u k sample_hash_request u k
        sample_hashed_ready _ _ _ sample_hashed_request] sample_lc sample_members_ok(1)
    by (simp add: sample_hashed_def sample_members_nth usage_inc_def)
qed

end
