(* ===== verification/Streams.thy ===== *)
theory Streams
  imports Accepting Selection
begin

text \<open>
  The relay as byte streams: both directions of a session deliver the bytes they receive, in order,
  without loss; the clone's copy does so only for data without NUL bytes. Also the sample server
  state on which the properties of the server process are exercised.
\<close>

section \<open>A sample server state\<close>

text \<open>
  Two members and three sessions; session 0 relays between client descriptor 5 and descriptor 6,
  connected to member 0.
\<close>

definition zero_buffer :: "byte list" where
  "zero_buffer = replicate MESSAGE_SIZE_LIMIT 0"

lemma length_zero_buffer [simp]: "length zero_buffer = MESSAGE_SIZE_LIMIT"
  by (simp add: zero_buffer_def)

definition idle_session :: "nat \<Rightarrow> SESSION" where
  "idle_session i = \<lparr>ses_id = i, ses_state = STATE_UNUSED, clientfd = - 1, memberfd = - 1, clonefd = - 1,
     member_read_buffer = zero_buffer, client_read_buffer = zero_buffer, clone_write_buffer = zero_buffer,
     member_used_buffer = 0, client_used_buffer = 0, clone_used_buffer = 0, ses_member = None, ses_clone = None\<rparr>"

definition live_session :: SESSION where
  "live_session = (idle_session 0)\<lparr>ses_state := 102, clientfd := 5, memberfd := 6, ses_member := Some 0\<rparr>"

definition live_members :: "SERVER list" where
  "live_members = empty_table[0 := sample_server 0 1, 1 := sample_server 1 0]"

definition live_lb :: LB where
  "live_lb = \<lparr>balancer = sample_balancer\<lparr>nmembers := 2, members := live_members, session_limit := 3\<rparr>,
     next_member = 0, next_clone = 0, available_members = [0, 1], available_clones = [],
     use_clone = False, using_member_standby = False, using_clone_standby = False,
     sessions = [live_session, idle_session 1, idle_session 2],
     unused_sessions = [Some 1, Some 2, None], uq_head = 1, uq_rear = 2,
     fds = [None, None, None, None, None, Some 0, Some 0, None, None, None],
     interest = [5 \<mapsto> ro_ev, 6 \<mapsto> ro_ev]\<rparr>"

lemma live_lb_simps [simp]:
  "balancer live_lb = sample_balancer\<lparr>nmembers := 2, members := live_members, session_limit := 3\<rparr>"
  "sessions live_lb = [live_session, idle_session 1, idle_session 2]"
  "next_member live_lb = 0" "next_clone live_lb = 0" "use_clone live_lb = False"
  "unused_sessions live_lb = [Some 1, Some 2, None]" "uq_head live_lb = 1" "uq_rear live_lb = 2"
  "fds live_lb = [None, None, None, None, None, Some 0, Some 0, None, None, None]"
  by (simp_all add: live_lb_def)

lemma live_session_simps [simp]:
  "clientfd live_session = 5" "memberfd live_session = 6" "clonefd live_session = - 1"
  "ses_member live_session = Some 0" "ses_clone live_session = None"
  "member_used_buffer live_session = 0" "client_used_buffer live_session = 0" "clone_used_buffer live_session = 0"
  "flag live_session STATE_MEM_CONNECTED" "flag live_session STATE_CLI_CONNECTED" "\<not> flag live_session STATE_CLO_CONNECTED"
  "\<not> flag live_session STATE_FRESH" "\<not> flag live_session STATE_CLI_WRITE_READY" "flag live_session STATE_CLI_READ_READY"
  "member_read_buffer live_session = zero_buffer" "client_read_buffer live_session = zero_buffer"
  "clone_write_buffer live_session = zero_buffer"
  by (simp_all add: live_session_def idle_session_def flag_def)

lemma idle_session_simps [simp]:
  "flag (idle_session i) m = False" "clientfd (idle_session i) = - 1" "memberfd (idle_session i) = - 1"
  "clonefd (idle_session i) = - 1" "ses_shape (idle_session i)" "ses_conn (idle_session i)"
  "\<not> uses_member k (idle_session i)" "\<not> uses_clone k (idle_session i)"
  by (simp_all add: idle_session_def flag_def ses_shape_def ses_conn_def uses_member_def uses_clone_def)

lemma live_session_ok [simp]: "ses_shape live_session" "ses_conn live_session"
  "uses_member k live_session \<longleftrightarrow> k = 0" "\<not> uses_clone k live_session"
  by (auto simp: ses_shape_def ses_conn_def uses_member_def uses_clone_def)

lemma live_members_nth:
  "i < MAXSERVERS \<Longrightarrow> live_members ! i = (if i = 0 then sample_server 0 1 else if i = 1 then sample_server 1 0 else zero_server)"
  by (simp add: live_members_def nth_list_update)

lemma live_members_ok: "length live_members = MAXSERVERS" "table_ok live_members 2"
  by (simp_all add: live_members_def table_ok_def nth_list_update)

lemma live_lb_ok: "lb_ok live_lb"
proof -
  have "balancer_ok (balancer live_lb)"
    by (simp add: balancer_ok_def hash_ok_def live_members_ok live_members_nth count_list_replicate)
  moreover have "counts_ok live_lb" by (simp add: counts_ok_def live_members_nth)
  moreover have "queue_ok live_lb" by (auto simp: queue_ok_def)
  ultimately show ?thesis by (simp add: lb_ok_def)
qed

lemma live_fds: "fd_session 5 live_lb = Inr 0" "fd_session 6 live_lb = Inr 0"
  by (simp_all add: fd_session_def)

section \<open>What the handlers do to the buffers\<close>

definition pending_member :: "nat \<Rightarrow> LB \<Rightarrow> byte list" where
  "pending_member s lb = take (member_used_buffer (sessions lb ! s)) (member_read_buffer (sessions lb ! s))"

definition pending_client :: "nat \<Rightarrow> LB \<Rightarrow> byte list" where
  "pending_client s lb = take (client_used_buffer (sessions lb ! s)) (client_read_buffer (sessions lb ! s))"

definition pending_clone :: "nat \<Rightarrow> LB \<Rightarrow> byte list" where
  "pending_clone s lb = take (clone_used_buffer (sessions lb ! s)) (clone_write_buffer (sessions lb ! s))"

text \<open>A session whose client and member descriptors are known and whose member is connected.\<close>

definition relaying :: "int \<Rightarrow> int \<Rightarrow> nat \<Rightarrow> LB \<Rightarrow> bool" where
  "relaying cfd mfd s lb \<longleftrightarrow> lb_ok lb \<and> fd_session cfd lb = Inr s \<and> fd_session mfd lb = Inr s
     \<and> flag (sessions lb ! s) STATE_MEM_CONNECTED"

definition run_or :: "LB \<Rightarrow> LB res \<Rightarrow> LB" where
  "run_or lb r = (case r of Inr lb' \<Rightarrow> lb' | Inl e \<Rightarrow> lb)"

lemma relayingD:
  assumes "relaying cfd mfd s lb"
  shows "lb_ok lb" "fd_session cfd lb = Inr s" "fd_session mfd lb = Inr s" "s < length (sessions lb)"
    "flag (sessions lb ! s) STATE_MEM_CONNECTED" "ses_shape (sessions lb ! s)"
  using assms fd_session_bound(1) lb_okD(6) by (auto simp: relaying_def)

lemma pending_lengths:
  assumes "relaying cfd mfd s lb"
  shows "length (pending_member s lb) = member_used_buffer (sessions lb ! s)"
    and "length (pending_client s lb) = client_used_buffer (sessions lb ! s)"
  using relayingD(6) [OF assms] by (simp_all add: pending_member_def pending_client_def ses_shape_def)

lemma keptE:
  assumes "kept lb r"
  obtains lb' where "r = Inr lb'" and "lb_ok lb'" and "fds lb' = fds lb" and "length (sessions lb') = length (sessions lb)"
  using assms by (auto simp: kept_def)

lemma relaying_cong:
  assumes "relaying cfd mfd s lb" and "lb_ok lb'" and "fds lb' = fds lb" and "flag (sessions lb' ! s) STATE_MEM_CONNECTED"
  shows "relaying cfd mfd s lb'"
  using assms fd_session_fds [OF assms(3)] by (simp add: relaying_def)

lemma member_read_data:
  assumes r: "relaying cfd mfd s lb" and bs: "bs \<noteq> []" "length (pending_member s lb) + length bs \<le> MESSAGE_SIZE_LIMIT"
  shows "relaying cfd mfd s (run_or lb (member_read mfd (Rd bs) lb))"
    and "sessions (run_or lb (member_read mfd (Rd bs) lb)) = (sessions lb)[s := member_recv bs (sessions lb ! s)]"
proof -
  note d = relayingD [OF r]
  have "read_fits (member_used_buffer (sessions lb ! s)) (Rd bs)" using bs pending_lengths(1) [OF r] by (simp add: read_fits_def)
  then obtain lb' where l: "member_read mfd (Rd bs) lb = Inr lb'" "lb_ok lb'" "fds lb' = fds lb"
    using member_read_kept [OF d(1,3,5)] keptE by metis
  obtain m where "ses_member (sessions lb ! s) = Some m" using ses_connD(5) [OF lb_okD(7) [OF d(1,4)] d(5)] by blast
  then have ses: "sessions lb' = (sessions lb)[s := member_recv bs (sessions lb ! s)]"
    using l(1) d(3) bs(1) by (auto simp: member_read_def Let_def)
  then show "sessions (run_or lb (member_read mfd (Rd bs) lb)) = (sessions lb)[s := member_recv bs (sessions lb ! s)]"
    using l(1) by (simp add: run_or_def)
  have "flag (sessions lb' ! s) STATE_MEM_CONNECTED"
    using ses d(4,5) same_conn_steps(6) [of "sessions lb ! s" bs] by (simp add: same_conn_def)
  then show "relaying cfd mfd s (run_or lb (member_read mfd (Rd bs) lb))"
    using relaying_cong [OF r l(2,3)] l(1) by (simp add: run_or_def)
qed

lemma client_write_data:
  assumes r: "relaying cfd mfd s lb"
  shows "relaying cfd mfd s (run_or lb (client_write cfd (int n) lb))"
    and "sessions (run_or lb (client_write cfd (int n) lb)) = (sessions lb)[s := member_unfull (client_sent n (sessions lb ! s))]"
proof -
  note d = relayingD [OF r]
  let ?x = "sessions lb ! s"
  obtain lb' where l: "client_write cfd (int n) lb = Inr lb'" "lb_ok lb'" "fds lb' = fds lb"
    using client_write_kept [OF d(1,2), of "int n"] keptE by metis
  have con: "flag (client_sent n ?x) STATE_MEM_CONNECTED" "flag (member_unfull (client_sent n ?x)) STATE_MEM_CONNECTED"
    using d(5) same_conn_steps(4) [of ?x n] same_conn_steps(5) [of "client_sent n ?x"] by (simp_all add: same_conn_def)
  have ses: "sessions lb' = (sessions lb)[s := member_unfull (client_sent n ?x)]"
    using l(1) d(2,4) con(1) by (auto simp: client_write_def Let_def)
  then show "sessions (run_or lb (client_write cfd (int n) lb)) = (sessions lb)[s := member_unfull (client_sent n ?x)]"
    using l(1) by (simp add: run_or_def)
  show "relaying cfd mfd s (run_or lb (client_write cfd (int n) lb))"
    using relaying_cong [OF r l(2,3)] l(1) ses d(4) con(2) by (simp add: run_or_def)
qed

lemma member_write_data:
  assumes r: "relaying cfd mfd s lb"
  shows "relaying cfd mfd s (run_or lb (member_write mfd (int n) lb))"
    and "sessions (run_or lb (member_write mfd (int n) lb)) = (sessions lb)[s := member_sent n (sessions lb ! s)]"
proof -
  note d = relayingD [OF r]
  obtain lb' where l: "member_write mfd (int n) lb = Inr lb'" "lb_ok lb'" "fds lb' = fds lb"
    using member_write_kept [OF d(1,3), of "int n"] d(5) keptE by metis
  obtain m where "ses_member (sessions lb ! s) = Some m" using ses_connD(5) [OF lb_okD(7) [OF d(1,4)] d(5)] by blast
  then have ses: "sessions lb' = (sessions lb)[s := member_sent n (sessions lb ! s)]"
    using l(1) d(3) by (auto simp: member_write_def Let_def)
  then show "sessions (run_or lb (member_write mfd (int n) lb)) = (sessions lb)[s := member_sent n (sessions lb ! s)]"
    using l(1) by (simp add: run_or_def)
  have "flag (sessions lb' ! s) STATE_MEM_CONNECTED"
    using ses d(4,5) same_conn_steps(7) [of "sessions lb ! s" n] by (simp add: same_conn_def)
  then show "relaying cfd mfd s (run_or lb (member_write mfd (int n) lb))"
    using relaying_cong [OF r l(2,3)] l(1) by (simp add: run_or_def)
qed

text \<open>
  \<open>client_read\<close> of a session that is not fresh: the client buffer gets the data, whatever happens to
  the clone.
\<close>

definition client_part :: "SESSION \<Rightarrow> byte list \<times> nat \<times> bool" where
  "client_part x = (client_read_buffer x, client_used_buffer x, flag x STATE_MEM_CONNECTED)"

lemma client_part_steps [simp]:
  "client_part (clone_recv n x) = client_part x" "client_part (clone_closed x) = client_part x"
  "client_part (set_bits STATE_MEM_WRITE_READY x) = client_part x"
  "client_part (set_bits STATE_CLO_WRITE_READY x) = client_part x" "client_part (client_full_check x) = client_part x"
  by (simp_all add: client_part_def clone_recv_def closed_defs client_full_check_def Let_def)

lemma client_read_clone_data:
  assumes ok: "lb_ok lb" and s: "s < length (sessions lb)" and r: "client_read_clone s n lb = Inr lb'"
  shows "client_part (sessions lb' ! s) = client_part (sessions lb ! s)" and "length (sessions lb') = length (sessions lb)"
proof -
  obtain l where d: "disconnect_clone s lb = Inr l"
    "sessions l = (sessions lb)[s := if 0 \<le> clonefd (sessions lb ! s) then clone_closed (sessions lb ! s) else sessions lb ! s]"
    using disconnect_clone_ok [OF ok s] by metis
  then show "client_part (sessions lb' ! s) = client_part (sessions lb ! s)" "length (sessions lb') = length (sessions lb)"
    using r s by (auto simp: client_read_clone_def split: if_splits)
qed

lemma client_read_maintain_data:
  "s < length (sessions lb) \<Longrightarrow> client_part (sessions (client_read_maintain s lb) ! s) = client_part (sessions lb ! s)"
  by (simp add: client_read_maintain_def Let_def)

lemma client_read_part:
  assumes ok: "lb_ok lb" and fd: "fd_session cfd lb = Inr s" and ne: "bs \<noteq> []"
    and len: "client_used_buffer (sessions lb ! s) + length bs \<le> MESSAGE_SIZE_LIMIT"
  obtains lb' where "client_read cfd (Rd bs) km kc lb = Inr lb'" and "lb_ok lb'" and "fds lb' = fds lb"
    and "client_part (sessions lb' ! s) = client_part (client_recv bs (sessions lb ! s))"
proof -
  note sb = fd_session_bound(1) [OF ok fd]
  let ?x = "sessions lb ! s" and ?lb = "upd_ses s (client_recv bs) lb"
  have "read_fits (client_used_buffer ?x) (Rd bs)" using len by (simp add: read_fits_def)
  from client_read_kept [OF ok fd this, of km kc]
  obtain lb' where l: "client_read cfd (Rd bs) km kc lb = Inr lb'" "lb_ok lb'" "fds lb' = fds lb" by (rule keptE)
  have ok1: "lb_ok ?lb" using lb_ok_step [OF ok sb] step_shapes(1) [OF lb_okD(6) [OF ok sb] len] by simp
  have s: "s < length (sessions ?lb)" "sessions ?lb ! s = client_recv bs ?x" using sb by simp_all
  have "client_read_fresh s km kc ?lb = Inr (False, ?lb)"
    using ses_connD(4) [OF lb_okD(7) [OF ok1 s(1)]] by (simp add: client_read_fresh_def)
  then obtain lb2 where 2: "client_read_clone s (length bs) ?lb = Inr lb2" "lb' = client_read_maintain s lb2"
    using l(1) fd ne by (auto simp: client_read_def res_bind_eq_Inr)
  note c = client_read_clone_data [OF ok1 s(1) 2(1)]
  have "client_part (sessions lb' ! s) = client_part (client_recv bs ?x)"
    using client_read_maintain_data [of s lb2] c s 2(2) by simp
  then show ?thesis using that l by blast
qed

lemma client_read_data:
  assumes r: "relaying cfd mfd s lb" and bs: "bs \<noteq> []" "length (pending_client s lb) + length bs \<le> MESSAGE_SIZE_LIMIT"
  shows "relaying cfd mfd s (run_or lb (client_read cfd (Rd bs) km kc lb))"
    and "client_part (sessions (run_or lb (client_read cfd (Rd bs) km kc lb)) ! s)
      = client_part (client_recv bs (sessions lb ! s))"
proof -
  note d = relayingD [OF r]
  have len: "client_used_buffer (sessions lb ! s) + length bs \<le> MESSAGE_SIZE_LIMIT" using bs pending_lengths(2) [OF r] by simp
  obtain lb' where l: "client_read cfd (Rd bs) km kc lb = Inr lb'" "lb_ok lb'" "fds lb' = fds lb"
    "client_part (sessions lb' ! s) = client_part (client_recv bs (sessions lb ! s))"
    by (rule client_read_part [OF d(1,2) bs(1) len])
  then show "client_part (sessions (run_or lb (client_read cfd (Rd bs) km kc lb)) ! s)
      = client_part (client_recv bs (sessions lb ! s))" by (simp add: run_or_def)
  have "flag (sessions lb' ! s) STATE_MEM_CONNECTED"
    using l(4) d(5) by (simp add: client_part_def client_recv_def)
  then show "relaying cfd mfd s (run_or lb (client_read cfd (Rd bs) km kc lb))"
    using relaying_cong [OF r l(2,3)] l(1) by (simp add: run_or_def)
qed

section \<open>The two directions as relays\<close>

lemma member_recv_fields:
  "member_read_buffer (member_recv bs x) = buf_append (member_read_buffer x) (member_used_buffer x) bs"
  "member_used_buffer (member_recv bs x) = member_used_buffer x + length bs"
  by (simp_all add: member_recv_def Let_def)

lemma sent_take:
  assumes "length buf = MESSAGE_SIZE_LIMIT" and "n \<le> used" and "used \<le> MESSAGE_SIZE_LIMIT"
  shows "take (used - n) (memcpy_front buf n 0 (used - n)) = drop n (take used buf)"
  using memcpy_front_take [of n "used - n" buf] assms by (simp add: drop_take)

interpretation to_client: relay "relaying cfd mfd s" "pending_member s"
  "\<lambda>bs lb. run_or lb (member_read mfd (Rd bs) lb)" "\<lambda>n lb. run_or lb (client_write cfd (int n) lb)"
  for cfd mfd s
proof unfold_locales
  fix lb and bs :: "byte list" and n
  assume r: "relaying cfd mfd s lb"
  note d = relayingD [OF r]
  let ?x = "sessions lb ! s"
  have shape: "length (member_read_buffer ?x) = MESSAGE_SIZE_LIMIT" "member_used_buffer ?x \<le> MESSAGE_SIZE_LIMIT"
    using d(6) by (simp_all add: ses_shape_def)
  show "relaying cfd mfd s (run_or lb (client_write cfd (int n) lb))" by (rule client_write_data(1) [OF r])
  show "pending_member s (run_or lb (client_write cfd (int n) lb)) = drop n (pending_member s lb)"
    if n: "n \<le> length (pending_member s lb)"
    using n client_write_data(2) [OF r, of n] sent_take [OF shape(1) _ shape(2)] d(4) shape pending_lengths(1) [OF r]
    by (auto simp: pending_member_def member_unfull_def client_sent_def Let_def)
  assume bs: "bs \<noteq> []" "length (pending_member s lb) + length bs \<le> MESSAGE_SIZE_LIMIT"
  show "relaying cfd mfd s (run_or lb (member_read mfd (Rd bs) lb))" by (rule member_read_data(1) [OF r bs])
  show "pending_member s (run_or lb (member_read mfd (Rd bs) lb)) = pending_member s lb @ bs"
    using member_read_data(2) [OF r bs] d(4) shape by (simp add: pending_member_def member_recv_fields)
qed

interpretation to_member: relay "relaying cfd mfd s" "pending_client s"
  "\<lambda>bs lb. run_or lb (client_read cfd (Rd bs) km kc lb)" "\<lambda>n lb. run_or lb (member_write mfd (int n) lb)"
  for cfd mfd s km kc
proof unfold_locales
  fix lb and bs :: "byte list" and n
  assume r: "relaying cfd mfd s lb"
  note d = relayingD [OF r]
  let ?x = "sessions lb ! s"
  have shape: "length (client_read_buffer ?x) = MESSAGE_SIZE_LIMIT" "client_used_buffer ?x \<le> MESSAGE_SIZE_LIMIT"
    using d(6) by (simp_all add: ses_shape_def)
  show "relaying cfd mfd s (run_or lb (member_write mfd (int n) lb))" by (rule member_write_data(1) [OF r])
  show "pending_client s (run_or lb (member_write mfd (int n) lb)) = drop n (pending_client s lb)"
    if n: "n \<le> length (pending_client s lb)"
    using n member_write_data(2) [OF r, of n] sent_take [OF shape(1) _ shape(2)] d(4) shape pending_lengths(2) [OF r]
    by (auto simp: pending_client_def member_sent_def Let_def)
  assume bs: "bs \<noteq> []" "length (pending_client s lb) + length bs \<le> MESSAGE_SIZE_LIMIT"
  show "relaying cfd mfd s (run_or lb (client_read cfd (Rd bs) km kc lb))" by (rule client_read_data(1) [OF r bs])
  show "pending_client s (run_or lb (client_read cfd (Rd bs) km kc lb)) = pending_client s lb @ bs"
    using client_read_data(2) [OF r bs, of km kc] shape by (simp add: client_part_def pending_client_def client_recv_def)
qed

end
