(* ===== verification/Init.thy ===== *)
theory Init
  imports Accepting
begin

text \<open>
  Start-up, init.c: the default balancer, the descriptor table, the session array and the queue of
  unused sessions. Outcomes of \<open>malloc\<close>, \<open>setrlimit\<close> and \<open>getrlimit\<close> are arguments; a failure that is
  logged with \<open>OCTOPUS_LOG_EXIT\<close> ends the process with status -1.
\<close>

section \<open>The default balancer\<close>

definition OCTOPUS_VERSION :: string where "OCTOPUS_VERSION = ''1.14''"

text \<open>
  \<open>initialize_balancer\<close>. \<open>snmp\<close> is the compile-time switch \<open>USE_SNMP\<close>, \<open>temporary_debug_level\<close> the
  command-line debug level; \<open>atof(''0.1'')\<close> is rounded to \<open>float\<close> when it is stored.
\<close>

definition initialize_balancer :: "bool \<Rightarrow> bool \<Rightarrow> int \<Rightarrow> BALANCER res" where
  "initialize_balancer malloc_ok snmp temporary_debug_level =
     (if \<not> malloc_ok then Inl (Process_exit (- 1))
      else Inr \<lparr>hash_table = replicate HASHTABLESIZE HASH_VAL_FREE, nmembers = 0, nclones = 0,
        monitor_interval = 5, alive = 1, algorithm = ALGORITHM_LC, clone_mode = CLONE_MODE_OFF,
        overload_mode = OVERLOAD_MODE_RELAXED, members = replicate MAXSERVERS zero_server,
        clones = replicate MAXSERVERS zero_server, snmp_community_pw = None,
        snmp_status = (if snmp then SNMP_DISABLED else SNMP_NOT_INCLUDED),
        binding_port = 1080, binding_ip = 0, member_outbound_ip = 0, clone_outbound_ip = 0,
        connect_timeout = 5, monitor_pid = 0, master_pid = 0, shmid = - 1, foreground = FOREGROUND_OFF,
        log_file_open = False, log_file_path = None, session_weight = to_float (1 / 10),
        hash_rebalance_threshold = 30, hash_rebalance_size = 5, hash_rebalance_interval = 30,
        use_member_outbound_ip = 0, use_clone_outbound_ip = 0, shm_run_dir = None, shm_run_file = None, shm_run_file_fullname = [],
        default_maxc = 500, default_maxl = Fin 4, version = OCTOPUS_VERSION, fd_limit = 0, session_limit = 0,
        use_syslog = 0, shm_perms = 420, overall_load = (if snmp then - 1 else 0),
        connection_rejected_log_suppress = False, debug_level = temporary_debug_level\<rparr>)"

section \<open>Descriptors\<close>

text \<open>
  \<open>initialize_fds\<close>: whatever was requested with \<open>setrlimit\<close>, the limit is the one \<open>getrlimit\<close> reports
  (0 when it fails), and the table has that many entries, all NULL.
\<close>

definition initialize_fds :: "int option \<Rightarrow> bool \<Rightarrow> LB \<Rightarrow> LB res" where
  "initialize_fds getrlimit malloc_ok lb =
     (let limit = (case getrlimit of Some rlim_cur \<Rightarrow> int_of_long rlim_cur | None \<Rightarrow> 0);
          lb = upd_bal (\<lambda>b. b\<lparr>fd_limit := limit\<rparr>) lb
      in if \<not> malloc_ok \<or> limit < 0 then Inl (Process_exit (- 1))
         else Inr (lb\<lparr>fds := replicate (nat limit) None\<rparr>))"

section \<open>Sessions\<close>

definition blank_session :: "nat \<Rightarrow> SESSION" where
  "blank_session i = \<lparr>ses_id = i, ses_state = STATE_UNUSED, clientfd = - 1, memberfd = - 1, clonefd = - 1,
     member_read_buffer = replicate MESSAGE_SIZE_LIMIT 0, client_read_buffer = replicate MESSAGE_SIZE_LIMIT 0,
     clone_write_buffer = replicate MESSAGE_SIZE_LIMIT 0, member_used_buffer = 0, client_used_buffer = 0,
     clone_used_buffer = 0, ses_member = None, ses_clone = None\<rparr>"

text \<open>The fill loop of \<open>initialize_unused_session\<close> over the positions \<open>is\<close>.\<close>

fun unused_fill :: "SESSION list \<Rightarrow> int \<Rightarrow> nat list \<Rightarrow> nat option list \<times> int \<Rightarrow> nat option list \<times> int" where
  "unused_fill ss limit [] (arr, rear) = (arr, rear)"
| "unused_fill ss limit (i # is) (arr, rear) =
     (if ses_state (ss ! i) = STATE_UNUSED
      then unused_fill ss limit is (arr[nat rear := Some i], (rear + 1) mod limit)
      else unused_fill ss limit is (arr, rear))"

definition initialize_unused_session :: "bool \<Rightarrow> LB \<Rightarrow> LB res" where
  "initialize_unused_session malloc_ok lb =
     (if \<not> malloc_ok then Inl (Process_exit (- 1))
      else
        (let limit = session_limit (balancer lb);
             (arr, rear) = unused_fill (sessions lb) limit [0..<nat limit] (replicate (nat limit) None, 0)
         in Inr (lb\<lparr>unused_sessions := arr, uq_head := 0, uq_rear := rear\<rparr>)))"

text \<open>
  \<open>initialize_sessions\<close>: three descriptors per session and four for the process bound the number of
  sessions. A negative limit makes the size passed to \<open>malloc\<close> exceed every object size, so it fails.
\<close>

definition supportable_sessions :: "BALANCER \<Rightarrow> int" where
  "supportable_sessions b = c_div (fd_limit b - 4) 3"

definition session_limit_of :: "BALANCER \<Rightarrow> int" where
  "session_limit_of b =
     (if session_limit b = 0 then supportable_sessions b
      else if session_limit b > supportable_sessions b then supportable_sessions b
      else session_limit b)"

definition initialize_sessions :: "bool \<Rightarrow> bool \<Rightarrow> LB \<Rightarrow> LB res" where
  "initialize_sessions malloc_ok malloc_ok2 lb =
     (let limit = session_limit_of (balancer lb);
          lb = upd_bal (\<lambda>b. b\<lparr>session_limit := limit\<rparr>) lb
      in if \<not> malloc_ok \<or> limit < 0 then Inl (Process_exit (- 1))
         else initialize_unused_session malloc_ok2 (lb\<lparr>sessions := map blank_session [0..<nat limit]\<rparr>))"

section \<open>The state after start-up\<close>

lemma initialize_balancer_ok:
  assumes "initialize_balancer m snmp d = Inr b"
  shows "balancer_ok b"
proof -
  have "members b = replicate MAXSERVERS zero_server" "clones b = replicate MAXSERVERS zero_server"
    "nmembers b = 0" "nclones b = 0" "hash_table b = replicate HASHTABLESIZE HASH_VAL_FREE"
    using assms by (auto simp: initialize_balancer_def split: if_splits)
  then show ?thesis
    by (simp add: balancer_ok_def table_ok_def hash_ok_def count_list_replicate)
qed

lemma blank_session_simps [simp]:
  "ses_state (blank_session i) = 0" "flag (blank_session i) m = False" "ses_shape (blank_session i)"
  "ses_conn (blank_session i)" "\<not> uses_member k (blank_session i)" "\<not> uses_clone k (blank_session i)"
  "memberfd (blank_session i) = - 1" "clonefd (blank_session i) = - 1" "clientfd (blank_session i) = - 1"
  by (simp_all add: blank_session_def flag_def ses_shape_def ses_conn_def uses_member_def uses_clone_def
     )

text \<open>
  Filling the queue with every session brings \<open>rear\<close> back to 0, where \<open>head\<close> is.
\<close>

lemma unused_fill_step:
  assumes "i \<le> n" and "length arr = n" and "0 < n" and "\<And>j. j < n \<Longrightarrow> ses_state (ss ! j) = STATE_UNUSED"
    and "\<And>j. j < i \<Longrightarrow> arr ! j = Some j"
  shows "unused_fill ss (int n) [i..<n] (arr, int i mod int n) = (map Some [0..<n], 0)"
  using assms
proof (induction "n - i" arbitrary: i arr)
  case 0
  then have "arr = map Some [0..<n]" by (intro nth_equalityI) auto
  with 0 show ?case by simp
next
  case (Suc d)
  then have i: "i < n" by simp
  have "(int i mod int n + 1) mod int n = int (Suc i) mod int n" by (simp add: mod_simps add.commute)
  moreover have "unused_fill ss (int n) [Suc i..<n] (arr[i := Some i], int (Suc i) mod int n) = (map Some [0..<n], 0)"
    by (rule Suc.hyps(1)) (use Suc i in \<open>auto simp: nth_list_update less_Suc_eq\<close>)
  ultimately show ?case using i Suc.prems by (simp add: upt_conv_Cons)
qed

lemma initialize_sessions_eq:
  assumes "0 < session_limit_of (balancer lb)"
  shows "initialize_sessions True True lb =
    Inr (lb\<lparr>balancer := (balancer lb)\<lparr>session_limit := session_limit_of (balancer lb)\<rparr>,
      sessions := map blank_session [0..<nat (session_limit_of (balancer lb))],
      unused_sessions := map Some [0..<nat (session_limit_of (balancer lb))], uq_head := 0, uq_rear := 0\<rparr>)"
proof -
  let ?n = "nat (session_limit_of (balancer lb))"
  have "unused_fill (map blank_session [0..<?n]) (int ?n) [0..<?n] (replicate ?n None, int 0 mod int ?n) = (map Some [0..<?n], 0)"
    by (rule unused_fill_step) (use assms in auto)
  then show ?thesis
    using assms by (simp add: initialize_sessions_def initialize_unused_session_def Let_def upd_bal_def)
qed

end
