(* ===== verification/Server_Props.thy ===== *)
theory Server_Props
  imports Streams Init
begin

text \<open>
  Properties of the server process: events keep the invariant and do not fault, sessions are connected
  to eligible servers, both relay directions are lossless; and the places where the source does not
  do what it means to: the queue of unused sessions, fresh sessions, full buffers, repeated deletion,
  failed epoll registrations.
\<close>

section \<open>Events on established sessions\<close>

text \<open>
  C2. An event on an established session is handled without a fault and keeps the invariant of the
  server process: buffers within bounds, connection bits that agree with descriptors, and connection
  counts that equal the number of sessions connected to each server. The only assumptions are that
  \<open>read\<close> and \<open>write\<close> respect the counts they are given and fail on closed descriptors.
\<close>

theorem session_event_safe:
  assumes "lb_ok lb" and "ev_fd ev \<noteq> listenerfd" and "fd_session (ev_fd ev) lb = Inr s" and "io_contract ev s lb"
  shows "\<exists>lb'. handle_event listenerfd ev lb = Inr lb' \<and> lb_ok lb'"
  using handle_event_kept [OF assms] by (auto simp: kept_def)

definition no_sock :: SOCK where
  "no_sock = \<lparr>sk_socket = - 1, sk_nonblock = False, sk_nodelay = False, sk_sndbuf = False, sk_rcvbuf = False,
     sk_reuseaddr = False, sk_keepalive = False, sk_bind = False, sk_connect = False, sk_epoll_add = False\<rparr>"

definition good_sock :: "int \<Rightarrow> SOCK" where
  "good_sock fd = \<lparr>sk_socket = fd, sk_nonblock = True, sk_nodelay = True, sk_sndbuf = True, sk_rcvbuf = True,
     sk_reuseaddr = True, sk_keepalive = True, sk_bind = True, sk_connect = True, sk_epoll_add = True\<rparr>"

definition good_accept :: "int \<Rightarrow> ACCEPT" where
  "good_accept fd = \<lparr>ac_fd = fd, ac_nonblock = True, ac_nodelay = True, ac_epoll_add = True\<rparr>"

definition plain_event :: "int \<Rightarrow> io_read \<Rightarrow> int \<Rightarrow> EVENT" where
  "plain_event fd rd w = \<lparr>ev_fd = fd, ev_in = True, ev_out = True, ev_err = False, ev_hup = False, ev_read = rd,
     ev_write = w, ev_accept = good_accept 7, ev_msock = good_sock 8, ev_csock = no_sock\<rparr>"

theorem session_event_safe_witness:
  "\<exists>lb'. handle_event 3 (plain_event 5 (Rd [71, 69, 84]) 0) live_lb = Inr lb' \<and> lb_ok lb'"
  by (rule session_event_safe [OF live_lb_ok, where s = 0])
    (simp_all add: plain_event_def live_fds io_contract_def read_fits_def)

text \<open>
  The server process as a state machine: one step handles one epoll event, under the contract of the
  system calls.
\<close>

definition accept_contract :: "EVENT \<Rightarrow> LB \<Rightarrow> bool" where
  "accept_contract ev lb \<longleftrightarrow> ac_fd (ev_accept ev) < int (length (fds lb)) \<and>
     env_ok (ev_msock ev) lb \<and> env_ok (ev_csock ev) lb"

inductive server_step :: "int \<Rightarrow> LB \<Rightarrow> LB \<Rightarrow> bool" for listenerfd where
  session_event: "ev_fd ev \<noteq> listenerfd \<Longrightarrow> fd_session (ev_fd ev) lb = Inr s \<Longrightarrow> io_contract ev s lb \<Longrightarrow>
    handle_event listenerfd ev lb = Inr lb' \<Longrightarrow> server_step listenerfd lb lb'"
| listener_event: "ev_fd ev = listenerfd \<Longrightarrow> accept_contract ev lb \<Longrightarrow>
    handle_event listenerfd ev lb = Inr lb' \<Longrightarrow> server_step listenerfd lb lb'"

inductive_cases server_stepE: "server_step listenerfd lb lb'"

lemma server_step_ok:
  assumes "server_step l lb lb'" and "lb_ok lb"
  shows "lb_ok lb'"
  using assms
proof cases
  case (session_event ev s)
  then show ?thesis using handle_event_kept [OF assms(2) session_event(1-3)] by (auto simp: kept_def)
next
  case (listener_event ev)
  show ?thesis
  proof (cases "ev_in ev \<and> 0 \<le> ac_fd (ev_accept ev) \<and> ac_nonblock (ev_accept ev) \<and> ac_nodelay (ev_accept ev)")
    case False
    then show ?thesis
      using listener_event assms(2) by (auto simp: handle_event_def accept_client_def Let_def split: if_splits)
  next
    case True
    then have acc: "accept_client (ev_accept ev) (ev_msock ev) (ev_csock ev) lb = Inr lb'"
      using listener_event by (simp add: handle_event_def)
    obtain p lb1 where new: "get_new_session lb = Inr (p, lb1)"
      using acc True by (auto simp: accept_client_def Let_def res_bind_eq_Inr)
    have pre: "ac_fd (ev_accept ev) < int (length (fds lb))" "env_ok (ev_msock ev) lb" "env_ok (ev_csock ev) lb"
      using listener_event(2) by (auto simp: accept_contract_def)
    obtain lb2 where "accept_client (ev_accept ev) (ev_msock ev) (ev_csock ev) lb = Inr lb2" "lb_ok lb2"
      by (rule accept_client_ok [OF assms(2) pre(1) new pre(2,3)])
    then show ?thesis using acc by simp
  qed
qed

text \<open>
  The invariant of the server process holds in every state that any sequence of events leads to,
  accepted connections included, from a state where it holds. So, at every moment, the count \<open>c\<close> that
  the balancing algorithms and the connection limits rely on is the number of sessions connected to
  that server.
\<close>

theorem server_run_ok:
  assumes "(server_step l)\<^sup>*\<^sup>* lb lb'" and "lb_ok lb"
  shows "lb_ok lb' \<and> (\<forall>i<MAXSERVERS.
    srv_c (members (balancer lb') ! i) = int (length (filter (uses_member i) (sessions lb'))))"
proof -
  have "lb_ok lb'" using assms by (induction rule: rtranclp_induct) (auto intro: server_step_ok)
  then show ?thesis using lb_okD(5) by (auto simp: counts_ok_def)
qed

theorem server_run_ok_witness:
  "\<exists>lb'. (server_step 3)\<^sup>*\<^sup>* live_lb lb' \<and> lb' \<noteq> live_lb \<and> lb_ok lb' \<and> (\<forall>i<MAXSERVERS.
    srv_c (members (balancer lb') ! i) = int (length (filter (uses_member i) (sessions lb'))))"
proof -
  let ?ev = "(plain_event 5 (Rd []) 0)\<lparr>ev_out := False\<rparr>"
  obtain lb' where lb': "delete_session 0 live_lb = Inr lb'" "sessions lb' = (sessions live_lb)[0 := session_gone (sessions live_lb ! 0)]"
    by (rule delete_session_ok [OF live_lb_ok, of 0]) simp
  have "handle_event 3 ?ev live_lb = Inr lb'"
    using lb'(1) by (simp add: plain_event_def handle_event_def io_event_def client_read_def live_fds)
  then have "server_step 3 live_lb lb'"
    by (intro server_step.session_event [where s = 0])
      (simp_all add: plain_event_def live_fds io_contract_def read_fits_def)
  then have run: "(server_step 3)\<^sup>*\<^sup>* live_lb lb'" by simp
  have "flag (sessions lb' ! 0) STATE_MEM_CONNECTED = False" using lb'(2) by (simp add: session_gone_def Let_def)
  then have "lb' \<noteq> live_lb" by auto
  then show ?thesis using run server_run_ok [OF run live_lb_ok] by blast
qed

section \<open>Choosing a server\<close>



section \<open>Byte streams\<close>

text \<open>
  From member to client no byte is lost, repeated or reordered: over any interleaving of reads
  from the member and writes to the client that the system calls allow, partial writes and buffer
  moves included, the bytes written to the client followed by those still buffered are the bytes
  buffered at the start followed by those read.
\<close>

theorem member_to_client_stream:
  assumes "relaying cfd mfd s lb"
    and "relay_allowed (pending_member s) (\<lambda>bs lb. run_or lb (member_read mfd (Rd bs) lb))
      (\<lambda>n lb. run_or lb (client_write cfd (int n) lb)) ops lb"
    and "relay_run (pending_member s) (\<lambda>bs lb. run_or lb (member_read mfd (Rd bs) lb))
      (\<lambda>n lb. run_or lb (client_write cfd (int n) lb)) ops lb = (out, lb')"
  shows "out @ pending_member s lb' = pending_member s lb @ relay_input ops \<and> lb_ok lb'"
  using to_client.stream [OF assms(1,2)] assms(3) by (simp add: relaying_def)

lemma live_relaying: "relaying 5 6 0 live_lb"
  by (simp add: relaying_def live_lb_ok live_fds)

theorem member_to_client_stream_witness:
  "\<exists>lb'. relay_run (pending_member 0) (\<lambda>bs lb. run_or lb (member_read 6 (Rd bs) lb))
      (\<lambda>n lb. run_or lb (client_write 5 (int n) lb)) [Recv [1, 2, 3], Send 2] live_lb = ([1, 2], lb')
    \<and> [1, 2] @ pending_member 0 lb' = pending_member 0 live_lb @ [1, 2, 3] \<and> lb_ok lb'"
proof -
  let ?r = "\<lambda>bs lb. run_or lb (member_read 6 (Rd bs) lb)" and ?w = "\<lambda>n lb. run_or lb (client_write 5 (int n) lb)"
  let ?ops = "[Recv [1, 2, 3], Send 2]"
  have p: "pending_member 0 live_lb = []" by (simp add: pending_member_def)
  then have q: "pending_member 0 (?r [1, 2, 3] live_lb) = [1, 2, 3]"
    using to_client.recv_pending [OF live_relaying, of "[1, 2, 3]"] by simp
  have "relay_allowed (pending_member 0) ?r ?w ?ops live_lb" using p q by simp
  moreover have "relay_run (pending_member 0) ?r ?w ?ops live_lb = ([1, 2], ?w 2 (?r [1, 2, 3] live_lb))" using q by simp
  ultimately show ?thesis using member_to_client_stream [OF live_relaying, of ?ops "[1, 2]"] by simp
qed

text \<open>
  From client to member the same holds, with the clone's copy made (or the clone dropped) at every
  read.
\<close>

theorem client_to_member_stream:
  assumes "relaying cfd mfd s lb"
    and "relay_allowed (pending_client s) (\<lambda>bs lb. run_or lb (client_read cfd (Rd bs) km kc lb))
      (\<lambda>n lb. run_or lb (member_write mfd (int n) lb)) ops lb"
    and "relay_run (pending_client s) (\<lambda>bs lb. run_or lb (client_read cfd (Rd bs) km kc lb))
      (\<lambda>n lb. run_or lb (member_write mfd (int n) lb)) ops lb = (out, lb')"
  shows "out @ pending_client s lb' = pending_client s lb @ relay_input ops \<and> lb_ok lb'"
  using to_member.stream [OF assms(1,2)] assms(3) by (simp add: relaying_def)

theorem client_to_member_stream_witness:
  "\<exists>lb'. relay_run (pending_client 0) (\<lambda>bs lb. run_or lb (client_read 5 (Rd bs) no_sock no_sock lb))
      (\<lambda>n lb. run_or lb (member_write 6 (int n) lb)) [Recv [1, 2, 3], Send 2] live_lb = ([1, 2], lb')
    \<and> [1, 2] @ pending_client 0 lb' = pending_client 0 live_lb @ [1, 2, 3] \<and> lb_ok lb'"
proof -
  let ?r = "\<lambda>bs lb. run_or lb (client_read 5 (Rd bs) no_sock no_sock lb)" and ?w = "\<lambda>n lb. run_or lb (member_write 6 (int n) lb)"
  let ?ops = "[Recv [1, 2, 3], Send 2]"
  have p: "pending_client 0 live_lb = []" by (simp add: pending_client_def)
  then have q: "pending_client 0 (?r [1, 2, 3] live_lb) = [1, 2, 3]"
    using to_member.recv_pending [OF live_relaying, of "[1, 2, 3]" no_sock no_sock] by simp
  have "relay_allowed (pending_client 0) ?r ?w ?ops live_lb" using p q by simp
  moreover have "relay_run (pending_client 0) ?r ?w ?ops live_lb = ([1, 2], ?w 2 (?r [1, 2, 3] live_lb))" using q by simp
  ultimately show ?thesis using client_to_member_stream [OF live_relaying, of no_sock no_sock ?ops "[1, 2]"] by simp
qed

text \<open>
  The clone's copy of the client's data is made with \<open>strncpy\<close>: the clone gets the data up to the
  first NUL byte and then NULs, so the copy is exact for data without NUL bytes only.
\<close>

theorem clone_copy_stops_at_NUL:
  assumes ok: "lb_ok lb" and fd: "fd_session cfd lb = Inr s" and con: "flag (sessions lb ! s) STATE_CLO_CONNECTED"
    and bs: "bs \<noteq> []" "client_used_buffer (sessions lb ! s) + length bs \<le> MESSAGE_SIZE_LIMIT"
      "clone_used_buffer (sessions lb ! s) + length bs \<le> MESSAGE_SIZE_LIMIT"
  shows "\<exists>lb'. client_read cfd (Rd bs) km kc lb = Inr lb' \<and>
    pending_clone s lb' = pending_clone s lb @ takeWhile (\<lambda>b. b \<noteq> 0) bs
      @ replicate (length bs - length (takeWhile (\<lambda>b. b \<noteq> 0) bs)) 0"
proof -
  note s = fd_session_bound(1) [OF ok fd]
  let ?x = "sessions lb ! s" and ?lb = "upd_ses s (client_recv bs) lb"
  have shp: "length (client_read_buffer ?x) = MESSAGE_SIZE_LIMIT" "length (clone_write_buffer ?x) = MESSAGE_SIZE_LIMIT"
    using lb_okD(6) [OF ok s] by (simp_all add: ses_shape_def)
  have x1: "sessions ?lb ! s = client_recv bs ?x" using s by simp
  have f: "flag (client_recv bs ?x) STATE_CLO_CONNECTED" "\<not> flag (client_recv bs ?x) STATE_FRESH"
    using con ses_connD(4) [OF lb_okD(7) [OF ok s]] by (simp_all add: client_recv_def)
  have copied: "take (length bs) (drop (client_used_buffer ?x) (buf_append (client_read_buffer ?x) (client_used_buffer ?x) bs)) = bs"
    using bs(2) shp(1) by (simp add: buf_append_def)
  let ?lb2 = "upd_ses s (clone_recv (length bs)) ?lb"
  have "client_read_fresh s km kc ?lb = Inr (False, ?lb)" using f x1 by (simp add: client_read_fresh_def)
  moreover have "client_read_clone s (length bs) ?lb = Inr ?lb2"
    using f(1) x1 bs(3) by (auto simp: client_read_clone_def client_recv_def)
  ultimately have "client_read cfd (Rd bs) km kc lb = Inr (client_read_maintain s ?lb2)"
    using fd bs(1) by (simp add: client_read_def)
  moreover have "pending_clone s (client_read_maintain s ?lb2) = pending_clone s ?lb2"
    using s by (simp add: pending_clone_def client_read_maintain_def Let_def client_full_check_def)
  moreover have "pending_clone s ?lb2 = pending_clone s lb @ strncpy_bytes bs"
    using s shp copied take_buf_append [of "clone_used_buffer ?x" "clone_write_buffer ?x" "strncpy_bytes bs"] bs(3)
    by (simp add: pending_clone_def clone_recv_def client_recv_def)
  ultimately show ?thesis by (auto simp: strncpy_bytes_def Let_def)
qed

text \<open>The live session with a clone on descriptor 9.\<close>

definition cloned_session :: SESSION where
  "cloned_session = live_session\<lparr>ses_state := 110, clonefd := 9, ses_clone := Some 0\<rparr>"

definition cloned_lb :: LB where
  "cloned_lb = upd_bal (\<lambda>b. b\<lparr>nclones := 1, clones := empty_table[0 := sample_server 0 1]\<rparr>)
     (upd_ses 0 (\<lambda>x. cloned_session) live_lb)"

lemma cloned_lb_ok: "lb_ok cloned_lb" "fd_session 5 cloned_lb = Inr 0" "sessions cloned_lb ! 0 = cloned_session"
  "flag cloned_session STATE_CLO_CONNECTED"
proof -
  have f: "flag cloned_session STATE_MEM_CONNECTED" "flag cloned_session STATE_CLI_CONNECTED"
    "flag cloned_session STATE_CLO_CONNECTED" "\<not> flag cloned_session STATE_FRESH"
    by (simp_all add: cloned_session_def flag_def)
  then show "flag cloned_session STATE_CLO_CONNECTED" by simp
  have x: "ses_shape cloned_session" "ses_conn cloned_session" "uses_member i cloned_session \<longleftrightarrow> i = 0"
    "uses_clone i cloned_session \<longleftrightarrow> i = 0" for i
    using f by (auto simp: ses_shape_def ses_conn_def uses_member_def uses_clone_def) (auto simp: cloned_session_def)
  have t: "table_ok (empty_table[0 := sample_server 0 1]) 1" by (simp add: table_ok_def nth_list_update)
  have "balancer_ok (balancer cloned_lb)"
    using lb_okD(1) [OF live_lb_ok] t by (simp add: balancer_ok_def hash_ok_def cloned_lb_def)
  moreover have "counts_ok cloned_lb" using x by (simp add: counts_ok_def cloned_lb_def live_members_nth nth_list_update)
  moreover have "queue_ok cloned_lb" by (auto simp: queue_ok_def cloned_lb_def)
  ultimately show "lb_ok cloned_lb" using x by (simp add: lb_ok_def cloned_lb_def)
  show "fd_session 5 cloned_lb = Inr 0" by (simp add: cloned_lb_def live_fds)
  show "sessions cloned_lb ! 0 = cloned_session" by (simp add: cloned_lb_def)
qed

theorem clone_copy_stops_at_NUL_witness:
  "\<exists>lb'. client_read 5 (Rd [65, 0, 66]) no_sock no_sock cloned_lb = Inr lb' \<and> pending_clone 0 lb' = [65, 0, 0]"
proof -
  have u: "client_used_buffer cloned_session = 0" "clone_used_buffer cloned_session = 0" by (simp_all add: cloned_session_def)
  then have "pending_clone 0 cloned_lb = []" by (simp add: pending_clone_def cloned_lb_ok)
  then show ?thesis
    using clone_copy_stops_at_NUL [OF cloned_lb_ok(1,2), of "[65, 0, 66]" no_sock no_sock] cloned_lb_ok(3,4) u by simp
qed

section \<open>Start-up\<close>

lemma accept_empty_queue:
  assumes "uq_head lb = uq_rear lb" and "accept_client a km kc lb = Inr lb'"
  shows "sessions lb' = sessions lb \<and> uq_head lb' = uq_head lb \<and> uq_rear lb' = uq_rear lb"
proof -
  have "get_new_session lb = Inr (None, lb)" using assms(1) by (simp add: get_new_session_def)
  then show ?thesis
    using assms(2) by (auto simp: accept_client_def set_fd_session_def Let_def split: if_splits)
qed

lemma listener_events_empty_queue:
  assumes "uq_head lb = uq_rear lb" and "\<forall>ev \<in> set evs. ev_fd ev = l" and "handle_events l evs lb = Inr lb'"
  shows "sessions lb' = sessions lb \<and> uq_head lb' = uq_rear lb'"
  using assms
proof (induction evs arbitrary: lb)
  case (Cons ev evs)
  then obtain lb1 where 1: "handle_event l ev lb = Inr lb1" "handle_events l evs lb1 = Inr lb'"
    by (auto simp: res_bind_eq_Inr)
  have "sessions lb1 = sessions lb \<and> uq_head lb1 = uq_rear lb1"
  proof (cases "ev_in ev")
    case True
    then have "accept_client (ev_accept ev) (ev_msock ev) (ev_csock ev) lb = Inr lb1"
      using 1(1) Cons.prems(2) by (simp add: handle_event_def)
    then show ?thesis using accept_empty_queue [OF Cons.prems(1)] Cons.prems(1) by metis
  next
    case False
    then show ?thesis using 1(1) Cons.prems(1,2) by (simp add: handle_event_def)
  qed
  with Cons.IH [of lb1] Cons.prems(2) 1(2) show ?case by simp
qed simp

text \<open>
  C32. A freshly started server serves nobody: \<open>initialize_sessions\<close> fills the queue of unused sessions
  until \<open>rear\<close> has come round to \<open>head\<close>, which is how \<open>get_new_session\<close> recognises an empty queue, so
  whatever connection requests arrive, every session stays unused.
\<close>

theorem startup_serves_nobody:
  assumes "0 < session_limit_of (balancer lb)" and "initialize_sessions True True lb = Inr lb0"
    and "\<forall>ev \<in> set evs. ev_fd ev = listenerfd" and "handle_events listenerfd evs lb0 = Inr lb'"
  shows "sessions lb' = map blank_session [0..<nat (session_limit_of (balancer lb))] \<and> get_new_session lb' = Inr (None, lb')"
proof -
  have 0: "sessions lb0 = map blank_session [0..<nat (session_limit_of (balancer lb))]" "uq_head lb0 = uq_rear lb0"
    using assms(2) initialize_sessions_eq [OF assms(1)] by auto
  then show ?thesis
    using listener_events_empty_queue [OF 0(2) assms(3,4)] by (simp add: get_new_session_def)
qed

definition start_lb :: LB where
  "start_lb = live_lb\<lparr>balancer := sample_balancer\<lparr>fd_limit := 10\<rparr>, fds := replicate 10 None\<rparr>"

theorem startup_serves_nobody_witness:
  "\<exists>lb0 lb'. initialize_sessions True True start_lb = Inr lb0 \<and>
     handle_events 3 [plain_event 3 Rd_err 0] lb0 = Inr lb' \<and>
     sessions lb' = map blank_session [0..<2] \<and> get_new_session lb' = Inr (None, lb')"
proof -
  have lim: "session_limit_of (balancer start_lb) = 2"
    by (simp add: start_lb_def session_limit_of_def supportable_sessions_def c_div_def sample_balancer_def)
  then obtain lb0 where 0: "initialize_sessions True True start_lb = Inr lb0" "uq_head lb0 = uq_rear lb0" "fds lb0 = fds start_lb"
    using initialize_sessions_eq [of start_lb] by auto
  obtain lb' where "handle_events 3 [plain_event 3 Rd_err 0] lb0 = Inr lb'"
    using 0(2,3) by (simp add: plain_event_def handle_event_def accept_client_def good_accept_def get_new_session_def
        set_fd_session_def start_lb_def)
  with startup_serves_nobody [of start_lb lb0 "[plain_event 3 Rd_err 0]" 3] 0(1) lim show ?thesis
    by (auto simp: plain_event_def)
qed

section \<open>Where the source does not do what it means to\<close>


text \<open>A session as accepting a client under the HASH algorithm leaves it.\<close>

definition waiting_lb :: LB where
  "waiting_lb = upd_bal (\<lambda>b. b\<lparr>algorithm := ALGORITHM_HASH\<rparr>) (live_lb\<lparr>sessions :=
     [live_session, (idle_session 1)\<lparr>ses_state := 68, clientfd := 7\<rparr>, idle_session 2],
     fds := (fds live_lb)[7 := Some 1]\<rparr>)"

lemma waiting_lb_ok: "lb_ok waiting_lb" "fd_session 7 waiting_lb = Inr 1"
    "\<not> flag (sessions waiting_lb ! 1) STATE_MEM_CONNECTED" "client_used_buffer (sessions waiting_lb ! 1) = 0"
proof -
  let ?x = "(idle_session 1)\<lparr>ses_state := 68, clientfd := 7\<rparr>"
  have f: "\<not> flag ?x STATE_MEM_CONNECTED" "\<not> flag ?x STATE_CLO_CONNECTED" "\<not> flag ?x STATE_FRESH" "flag ?x STATE_CLI_CONNECTED"
    by (simp_all add: flag_def)
  then have x: "ses_shape ?x" "ses_conn ?x" "\<not> uses_member i ?x" "\<not> uses_clone i ?x" for i
    by (simp_all add: ses_shape_def ses_conn_def uses_member_def uses_clone_def) (simp_all add: idle_session_def)
  have "balancer_ok ((balancer live_lb)\<lparr>algorithm := ALGORITHM_HASH\<rparr>)"
    using lb_okD(1) [OF live_lb_ok] by (simp add: balancer_ok_def hash_ok_def)
  moreover have "counts_ok waiting_lb" using x by (simp add: counts_ok_def waiting_lb_def live_members_nth)
  moreover have "queue_ok waiting_lb" by (auto simp: queue_ok_def waiting_lb_def)
  ultimately show "lb_ok waiting_lb" using x by (simp add: lb_ok_def waiting_lb_def)
  show "fd_session 7 waiting_lb = Inr 1" by (simp add: fd_session_def waiting_lb_def)
  show "\<not> flag (sessions waiting_lb ! 1) STATE_MEM_CONNECTED" using f by (simp add: waiting_lb_def)
  show "client_used_buffer (sessions waiting_lb ! 1) = 0" by (simp add: waiting_lb_def idle_session_def)
qed


lemma epoll_mod_interest:
  "interest (epoll_mod fd ev lb) fd' = (if fd' = fd \<and> interest lb fd \<noteq> None then Some ev else interest lb fd')"
  by (simp add: epoll_mod_def)

text \<open>
  C34. After a write to the member, the member is polled for reading again even when the buffer for its
  data is full. The next \<open>read\<close> then has room for zero bytes, can only deliver none, and the handler
  takes that for the end of the stream and disconnects a member that may still have data to send.
\<close>

theorem full_buffer_loses_member:
  assumes r: "relaying cfd mfd s lb" and m: "memberfd (sessions lb ! s) = mfd"
    and full: "member_used_buffer (sessions lb ! s) = MESSAGE_SIZE_LIMIT" "flag (sessions lb ! s) STATE_CLI_WRITE_READY"
    and reg: "interest lb mfd \<noteq> None" and w: "member_write mfd (int n) lb = Inr lb'"
    and fits: "read_fits (member_used_buffer (sessions lb' ! s)) (Rd bs)"
  shows "interest lb' mfd \<in> {Some ro_ev, Some rw_ev} \<and> bs = [] \<and>
    (\<exists>lb2. member_read mfd (Rd bs) lb' = Inr lb2 \<and> \<not> flag (sessions lb2 ! s) STATE_MEM_CONNECTED)"
proof -
  note d = relayingD [OF r]
  let ?x = "sessions lb ! s"
  have ses: "sessions lb' = (sessions lb)[s := member_sent n ?x]" and r': "relaying cfd mfd s lb'"
    using member_write_data [OF r, of n] w by (simp_all add: run_or_def)
  note d' = relayingD [OF r']
  have x': "sessions lb' ! s = member_sent n ?x" using ses d(4) by simp
  have f: "flag (member_sent n ?x) STATE_MEM_READ_READY" "flag (member_sent n ?x) STATE_CLI_WRITE_READY"
    "memberfd (member_sent n ?x) = mfd" "member_used_buffer (member_sent n ?x) = MESSAGE_SIZE_LIMIT"
    using full m by (simp_all add: member_sent_def Let_def)
  obtain k where k: "ses_member ?x = Some k" using ses_connD(5) [OF lb_okD(7) [OF d(1,4)] d(5)] by blast
  have "interest lb' mfd \<in> {Some ro_ev, Some rw_ev}"
    using w d(3,4) k f(1,3) reg
    by (auto simp: member_write_def Let_def maintain_member_def interest_of_def epoll_mod_interest)
  moreover have b: "bs = []" using fits x' f(4) by (simp add: read_fits_def)
  moreover have "\<exists>lb2. disconnect_member s lb' = Inr lb2 \<and> \<not> flag (sessions lb2 ! s) STATE_MEM_CONNECTED"
  proof -
    obtain lb2 where "disconnect_member s lb' = Inr lb2"
      "sessions lb2 = (sessions lb')[s := if 0 \<le> memberfd (sessions lb' ! s) then member_closed (sessions lb' ! s) else sessions lb' ! s]"
      by (rule disconnect_member_ok [OF d'(1,4)])
    moreover have "0 \<le> memberfd (sessions lb' ! s)" using x' f(3) fd_session_bound(2) [OF d'(1,3)] by simp
    ultimately show ?thesis using d'(4) by (simp add: member_closed_def)
  qed
  ultimately show ?thesis using d'(3) x' f(2) by (simp add: member_read_def Let_def)
qed

text \<open>The live session with a full member buffer and ten bytes from the client.\<close>

definition full_session :: SESSION where
  "full_session = live_session\<lparr>ses_state := 2630, member_used_buffer := MESSAGE_SIZE_LIMIT, client_used_buffer := 10\<rparr>"

definition full_lb :: LB where
  "full_lb = upd_ses 0 (\<lambda>x. full_session) live_lb"

lemma full_session_simps [simp]:
  "memberfd full_session = 6" "member_used_buffer full_session = MESSAGE_SIZE_LIMIT" "ses_member full_session = Some 0"
  "flag full_session STATE_MEM_CONNECTED" "flag full_session STATE_CLI_WRITE_READY"
  by (simp_all add: full_session_def flag_def)

lemma full_relaying: "relaying 5 6 0 full_lb" "sessions full_lb ! 0 = full_session"
proof -
  have "same_conn live_session full_session" by (simp add: same_conn_def full_session_def) (simp add: flag_def)
  moreover have "ses_shape full_session" by (simp add: ses_shape_def full_session_def)
  ultimately have "lb_ok full_lb" unfolding full_lb_def by (intro lb_ok_step [OF live_lb_ok]) simp_all
  then show "relaying 5 6 0 full_lb" by (simp add: relaying_def full_lb_def live_fds)
  show "sessions full_lb ! 0 = full_session" by (simp add: full_lb_def)
qed

theorem full_buffer_loses_member_witness:
  "\<exists>lb' lb2. member_write 6 3 full_lb = Inr lb' \<and> interest lb' 6 \<in> {Some ro_ev, Some rw_ev}
     \<and> member_read 6 (Rd []) lb' = Inr lb2 \<and> \<not> flag (sessions lb2 ! 0) STATE_MEM_CONNECTED"
proof -
  note d = relayingD [OF full_relaying(1)]
  have "kept full_lb (member_write 6 3 full_lb)" by (rule member_write_kept [OF d(1,3)]) (rule d(5))
  then obtain lb' where w: "member_write 6 (int 3) full_lb = Inr lb'" by (auto simp: kept_def)
  have u: "member_used_buffer (sessions lb' ! 0) = MESSAGE_SIZE_LIMIT"
    using member_write_data(2) [OF full_relaying(1), of 3] w full_relaying(2) d(4)
    by (simp add: run_or_def member_sent_def Let_def)
  have "interest full_lb 6 \<noteq> None" by (simp add: full_lb_def live_lb_def)
  with full_buffer_loses_member [OF full_relaying(1) _ _ _ _ w, of "[]"] u full_relaying(2) w show ?thesis
    by (auto simp: read_fits_def)
qed

text \<open>
  C35. A client event with both input and output readiness whose read finds the end of the stream runs
  the write handler on the descriptor just closed; the failed write deletes the session a second
  time, and the session is in the queue of unused sessions twice.
\<close>

theorem eof_enqueues_session_twice:
  assumes ok: "lb_ok lb" and fd: "fd_session (ev_fd ev) lb = Inr s" "clientfd (sessions lb ! s) = ev_fd ev"
    and l: "ev_fd ev \<noteq> listenerfd" and two: "2 \<le> session_limit (balancer lb)"
    and ev: "ev_in ev" "ev_out ev" "\<not> ev_err ev" "\<not> ev_hup ev" "ev_read ev = Rd []" "ev_write ev = - 1"
  shows "\<exists>lb' i j. handle_event listenerfd ev lb = Inr lb' \<and> i \<noteq> j \<and> i < length (unused_sessions lb')
    \<and> j < length (unused_sessions lb') \<and> unused_sessions lb' ! i = Some s \<and> unused_sessions lb' ! j = Some s"
proof -
  let ?L = "session_limit (balancer lb)"
  note s = fd_session_bound(1) [OF ok fd(1)]
  obtain lb1 where 1: "delete_session s lb = Inr lb1" "lb_ok lb1" "fds lb1 = fds lb"
    "sessions lb1 = (sessions lb)[s := session_gone (sessions lb ! s)]" "uq_rear lb1 = (uq_rear lb + 1) mod ?L"
    "unused_sessions lb1 = (unused_sessions lb)[nat (uq_rear lb1) := Some s]"
    by (rule delete_session_ok [OF ok s])
  have s1: "s < length (sessions lb1)" using s 1(4) by simp
  obtain lb2 where 2: "delete_session s lb1 = Inr lb2" "lb_ok lb2"
    "uq_rear lb2 = (uq_rear lb1 + 1) mod session_limit (balancer lb1)"
    "unused_sessions lb2 = (unused_sessions lb1)[nat (uq_rear lb2) := Some s]"
    by (rule delete_session_ok [OF 1(2) s1])
  have q: "queue_ok lb" "queue_ok lb1" "queue_ok lb2" using lb_okD(4) ok 1(2) 2(2) by auto
  then have L: "session_limit (balancer lb1) = ?L" using 1(4) by (simp add: queue_ok_def)
  have bounds: "0 \<le> uq_rear lb1" "uq_rear lb1 < ?L" "0 \<le> uq_rear lb2" "uq_rear lb2 < ?L" "int (length (unused_sessions lb)) = ?L"
    using q L 2(3) by (auto simp: queue_ok_def)
  have ne: "uq_rear lb2 \<noteq> uq_rear lb1"
  proof (cases "uq_rear lb1 + 1 = ?L")
    case True
    then show ?thesis using 2(3) L two by simp
  next
    case False
    then show ?thesis using 2(3) L bounds by simp
  qed
  have "handle_event listenerfd ev lb = Inr lb2"
    using fd l ev 1(1,3) 2(1) fd_session_fds [OF 1(3)]
    by (simp add: handle_event_def io_event_def client_read_def client_write_def)
  moreover have "unused_sessions lb2 ! nat (uq_rear lb1) = Some s" "unused_sessions lb2 ! nat (uq_rear lb2) = Some s"
    "nat (uq_rear lb1) < length (unused_sessions lb2)" "nat (uq_rear lb2) < length (unused_sessions lb2)"
    using 1(6) 2(4) bounds by (auto simp: nth_list_update)
  moreover have "nat (uq_rear lb1) \<noteq> nat (uq_rear lb2)" using ne bounds by simp
  ultimately show ?thesis by blast
qed

theorem eof_enqueues_session_twice_witness:
  "\<exists>lb' i j. handle_event 3 (plain_event 5 (Rd []) (- 1)) live_lb = Inr lb' \<and> i \<noteq> j \<and> i < length (unused_sessions lb')
    \<and> j < length (unused_sessions lb') \<and> unused_sessions lb' ! i = Some 0 \<and> unused_sessions lb' ! j = Some 0"
  by (rule eof_enqueues_session_twice [OF live_lb_ok]) (simp_all add: plain_event_def live_fds)

text \<open>
  When registering the new member descriptor with epoll fails, \<open>connect_server\<close> reports failure with
  \<open>memberfd\<close> already set but \<open>STATE_MEM_CONNECTED\<close> not, so that \<open>delete_session\<close> neither closes nor
  clears the descriptor; from then on every session started in that slot skips the connection to a
  member and reports success without one.
\<close>

theorem epoll_failure_strands_session:
  assumes ok: "lb_ok lb" and s: "s < length (sessions lb)" "memberfd (sessions lb ! s) = - 1"
    and k: "member_sock_ok km" "\<not> sk_epoll_add km" "sk_socket km < int (length (fds lb))"
    and c: "\<not> flag (sessions lb ! s) STATE_CLO_CONNECTED" "\<not> use_clone lb"
  shows "\<exists>lb1 lb2. connect_server s km kc lb = Inr (- 1, lb1) \<and> delete_session s (reject_log lb1) = Inr lb2
    \<and> memberfd (sessions lb2 ! s) = sk_socket km \<and> \<not> flag (sessions lb2 ! s) STATE_MEM_CONNECTED
    \<and> (\<forall>km' kc'. connect_server s km' kc' lb2 = Inr (0, lb2))"
proof -
  let ?x = "sessions lb ! s"
  define y where "y = ?x\<lparr>ses_member := Some (next_member lb), memberfd := sk_socket km\<rparr>"
  have nm: "\<not> flag y STATE_MEM_CONNECTED" "\<not> flag y STATE_CLO_CONNECTED"
    using ses_connD(2) [OF lb_okD(7) [OF ok s(1)]] s(2) c(1) by (simp_all add: y_def)
  define lb1 where "lb1 = reject_log ((upd_ses s (\<lambda>x. x\<lparr>ses_member := Some (next_member lb), memberfd := sk_socket km\<rparr>)
    (warn_unless (sk_reuseaddr km) (warn_unless (sk_nodelay km) lb)))\<lparr>fds := (fds lb)[nat (sk_socket km) := Some s]\<rparr>)"
  have "connect_member s km lb = Inr (- 1, lb1)"
    using s k by (simp add: connect_member_def member_sock_ok_def Let_def set_fd_session_def lb1_def upd_ses_def)
  then have 1: "connect_server s km kc lb = Inr (- 1, lb1)" "sessions lb1 = (sessions lb)[s := y]"
    "use_clone lb1 = use_clone lb" "unused_sessions lb1 = unused_sessions lb" "uq_rear lb1 = uq_rear lb"
    "session_limit (balancer lb1) = session_limit (balancer lb)"
    using s by (simp_all add: connect_server_def lb1_def y_def)
  define lb3 where "lb3 = (if flag y STATE_CLI_CONNECTED then disconnect_client s (reject_log lb1) else reject_log lb1)"
  define z where "z = (if flag y STATE_CLI_CONNECTED \<and> 0 \<le> clientfd y then client_closed y else y)"
  have 3: "sessions lb3 = (sessions lb)[s := z]" "use_clone lb3 = use_clone lb" "uq_rear lb3 = uq_rear lb"
    "unused_sessions lb3 = unused_sessions lb" "session_limit (balancer lb3) = session_limit (balancer lb)"
    using 1 s(1) by (auto simp: lb3_def z_def disconnect_client_def client_closed_def Let_def)
  have z: "\<not> flag z STATE_MEM_CONNECTED" "\<not> flag z STATE_CLO_CONNECTED" "memberfd z = sk_socket km"
    using nm by (simp_all add: z_def client_closed_def) (simp_all add: y_def)
  have q: "queue_ok lb" by (rule lb_okD(4) [OF ok])
  have r: "0 \<le> (uq_rear lb + 1) mod session_limit (balancer lb)"
    "(uq_rear lb + 1) mod session_limit (balancer lb) < int (length (unused_sessions lb))"
    using q by (auto simp: queue_ok_def)
  have "\<exists>lb2. delete_session s (reject_log lb1) = Inr lb2 \<and> sessions lb2 = (sessions lb)[s := session_reset z] \<and> use_clone lb2 = use_clone lb"
    using 3 z s(1) 1(2) q r
    by (simp add: delete_session_def Let_def lb3_def [symmetric] add_unused_session_def not_less [symmetric])
      (auto simp: queue_ok_def not_less)
  then obtain lb2 where 2: "delete_session s (reject_log lb1) = Inr lb2" "sessions lb2 = (sessions lb)[s := session_reset z]"
    "use_clone lb2 = use_clone lb" by blast
  moreover have "sk_socket km \<noteq> - 1" using k(1) by (simp add: member_sock_ok_def)
  ultimately show ?thesis using 1(1) s(1) z(3) c(2) by (auto simp: connect_server_def)
qed

theorem epoll_failure_strands_session_witness:
  "\<exists>lb1 lb2. connect_server 1 ((good_sock 8)\<lparr>sk_epoll_add := False\<rparr>) no_sock live_lb = Inr (- 1, lb1)
    \<and> delete_session 1 (reject_log lb1) = Inr lb2
    \<and> memberfd (sessions lb2 ! 1) = 8 \<and> \<not> flag (sessions lb2 ! 1) STATE_MEM_CONNECTED
    \<and> (\<forall>km' kc'. connect_server 1 km' kc' lb2 = Inr (0, lb2))"
  using epoll_failure_strands_session [OF live_lb_ok, of 1 "(good_sock 8)\<lparr>sk_epoll_add := False\<rparr>" no_sock]
  by (simp add: good_sock_def member_sock_ok_def)

end
