(* ===== verification/Monitor_Props.thy ===== *)
theory Monitor_Props
  imports Monitor Server_Props
begin

text \<open>
  Properties of the monitor process: what deletion frees, how a probe decides about a server, that the
  effective load is a percentage, and how many hash entries a rebalancing moves.
\<close>

section \<open>Deleted servers\<close>

definition deletable :: "SERVER \<Rightarrow> bool" where
  "deletable s \<longleftrightarrow> srv_status s = SERVER_STATE_DELETED \<and> srv_c s = 0"

definition delete_members_upto :: "nat \<Rightarrow> BALANCER \<Rightarrow> BALANCER" where
  "delete_members_upto k b = fold (\<lambda>i b. if i < nmembers b then delete_member_at i b else b) [0..<k] b"

definition delete_clones_upto :: "nat \<Rightarrow> BALANCER \<Rightarrow> BALANCER" where
  "delete_clones_upto k b = fold (\<lambda>i b. if i < nclones b then delete_clone_at i b else b) [0..<k] b"

lemma handle_delete_servers_eq:
  "handle_delete_servers b = delete_clones_upto (nclones (delete_members_upto (nmembers b) b)) (delete_members_upto (nmembers b) b)"
  by (simp add: handle_delete_servers_def delete_members_upto_def delete_clones_upto_def Let_def)

lemma upto_Suc:
  "delete_members_upto (Suc k) b = (let b' = delete_members_upto k b in if k < nmembers b' then delete_member_at k b' else b')"
  "delete_clones_upto (Suc k) b = (let b' = delete_clones_upto k b in if k < nclones b' then delete_clone_at k b' else b')"
  by (simp_all add: delete_members_upto_def delete_clones_upto_def Let_def)

lemma delete_members_upto_spec:
  assumes "k \<le> nmembers b" and "nmembers b \<le> length (members b)"
  shows "nmembers (delete_members_upto k b) =
      (if 0 < k \<and> k = nmembers b \<and> deletable (members b ! (k - 1)) then nmembers b - 1 else nmembers b)
    \<and> clones (delete_members_upto k b) = clones b \<and> nclones (delete_members_upto k b) = nclones b
    \<and> length (members (delete_members_upto k b)) = length (members b)
    \<and> (\<forall>j. members (delete_members_upto k b) ! j = (if j < k \<and> deletable (members b ! j) then zero_server else members b ! j))
    \<and> hash_table (delete_members_upto k b) =
        map (\<lambda>v. if \<exists>j<k. v = int j \<and> deletable (members b ! j) then HASH_VAL_FREE else v) (hash_table b)"
  using assms(1)
proof (induction k)
  case 0
  then show ?case by (simp add: delete_members_upto_def)
next
  case (Suc k)
  let ?b = "delete_members_upto k b"
  have k: "k < nmembers b" "k < length (members b)" using Suc.prems assms(2) by auto
  note ih = Suc.IH [OF Suc_leD [OF Suc.prems]]
  have n: "nmembers ?b = nmembers b" using ih k by simp
  have mk: "members ?b ! k = members b ! k" using ih by simp
  show ?case
  proof (cases "deletable (members b ! k)")
    case True
    then have eq: "delete_members_upto (Suc k) b = member_deleted k ?b"
      using n mk k ih delete_member_at_eq [of k ?b] by (simp add: upto_Suc Let_def deletable_def)
    have "hash_table (member_deleted k ?b) = map (\<lambda>v. if \<exists>j<Suc k. v = int j \<and> deletable (members b ! j) then HASH_VAL_FREE else v) (hash_table b)"
      using True ih by (auto simp: member_deleted_def free_hashes_def less_Suc_eq)
    then show ?thesis using ih k n True unfolding eq by (auto simp: member_deleted_def nth_list_update less_Suc_eq)
  next
    case False
    then have eq: "delete_members_upto (Suc k) b = ?b"
      using n mk k ih delete_member_at_eq [of k ?b] by (auto simp: upto_Suc Let_def deletable_def)
    have "(\<exists>j<Suc k. v = int j \<and> deletable (members b ! j)) = (\<exists>j<k. v = int j \<and> deletable (members b ! j))" for v
      using False less_Suc_eq by auto
    then show ?thesis using ih n False unfolding eq by (auto simp: less_Suc_eq)
  qed
qed

lemma delete_clones_upto_spec:
  assumes "k \<le> nclones b" and "nclones b \<le> length (clones b)"
  shows "nclones (delete_clones_upto k b) =
      (if 0 < k \<and> k = nclones b \<and> deletable (clones b ! (k - 1)) then nclones b - 1 else nclones b)
    \<and> members (delete_clones_upto k b) = members b \<and> nmembers (delete_clones_upto k b) = nmembers b
    \<and> hash_table (delete_clones_upto k b) = hash_table b \<and> length (clones (delete_clones_upto k b)) = length (clones b)
    \<and> (\<forall>j. clones (delete_clones_upto k b) ! j = (if j < k \<and> deletable (clones b ! j) then zero_server else clones b ! j))"
  using assms(1)
proof (induction k)
  case 0
  then show ?case by (simp add: delete_clones_upto_def)
next
  case (Suc k)
  let ?b = "delete_clones_upto k b"
  have k: "k < nclones b" "k < length (clones b)" using Suc.prems assms(2) by auto
  note ih = Suc.IH [OF Suc_leD [OF Suc.prems]]
  have n: "nclones ?b = nclones b" using ih k by simp
  have ck: "clones ?b ! k = clones b ! k" using ih by simp
  have eq: "delete_clones_upto (Suc k) b = (if deletable (clones b ! k) then clone_deleted k ?b else ?b)"
    using n ck k ih delete_clone_at_eq [of k ?b] by (auto simp: upto_Suc Let_def deletable_def)
  show ?case using ih k n unfolding eq by (auto simp: clone_deleted_def nth_list_update less_Suc_eq)
qed

lemma handle_delete_servers_spec:
  assumes "balancer_ok b"
  shows "members (handle_delete_servers b) ! i = (if i < nmembers b \<and> deletable (members b ! i) then zero_server else members b ! i)"
    and "clones (handle_delete_servers b) ! i = (if i < nclones b \<and> deletable (clones b ! i) then zero_server else clones b ! i)"
    and "hash_table (handle_delete_servers b) = map (\<lambda>v. if \<exists>i<nmembers b. v = int i \<and> deletable (members b ! i)
         then HASH_VAL_FREE else v) (hash_table b)"
    and "nmembers (handle_delete_servers b) = (if 0 < nmembers b \<and> deletable (members b ! (nmembers b - 1)) then nmembers b - 1 else nmembers b)"
    and "nclones (handle_delete_servers b) = (if 0 < nclones b \<and> deletable (clones b ! (nclones b - 1)) then nclones b - 1 else nclones b)"
proof -
  have tm: "table_ok (members b) (nmembers b)" and tc: "table_ok (clones b) (nclones b)"
    using assms by (simp_all add: balancer_ok_def)
  define b1 where "b1 = delete_members_upto (nmembers b) b"
  have len: "nmembers b \<le> length (members b)" "nclones b \<le> length (clones b)"
    using table_okD(1,2) [OF tm] table_okD(1,2) [OF tc] by simp_all
  note m = delete_members_upto_spec [OF order_refl len(1), folded b1_def]
  have "nclones b1 \<le> length (clones b1)" using m len by simp
  note c = delete_clones_upto_spec [OF order_refl this]
  have eq: "handle_delete_servers b = delete_clones_upto (nclones b1) b1" by (simp add: handle_delete_servers_eq b1_def)
  show "members (handle_delete_servers b) ! i = (if i < nmembers b \<and> deletable (members b ! i) then zero_server else members b ! i)"
    "clones (handle_delete_servers b) ! i = (if i < nclones b \<and> deletable (clones b ! i) then zero_server else clones b ! i)"
    "hash_table (handle_delete_servers b) = map (\<lambda>v. if \<exists>i<nmembers b. v = int i \<and> deletable (members b ! i)
         then HASH_VAL_FREE else v) (hash_table b)"
    "nmembers (handle_delete_servers b) = (if 0 < nmembers b \<and> deletable (members b ! (nmembers b - 1)) then nmembers b - 1 else nmembers b)"
    "nclones (handle_delete_servers b) = (if 0 < nclones b \<and> deletable (clones b ! (nclones b - 1)) then nclones b - 1 else nclones b)"
    using m c unfolding eq by simp_all
qed

text \<open>
  C21. Deletion, on the balancer that the server process is working on: the servers marked deleted that
  have no connection are zeroed, with every hash table entry that refers to them; every other server and
  entry is as before; no session was connected to a server that has been freed, and the server
  process's invariant is kept.
\<close>

theorem handle_delete_servers_correct:
  assumes ok: "lb_ok lb" and b: "b = balancer lb"
  shows "lb_ok (upd_bal handle_delete_servers lb)
    \<and> (\<forall>i<MAXSERVERS. members (handle_delete_servers b) ! i =
         (if i < nmembers b \<and> deletable (members b ! i) then zero_server else members b ! i))
    \<and> (\<forall>i<MAXSERVERS. clones (handle_delete_servers b) ! i =
         (if i < nclones b \<and> deletable (clones b ! i) then zero_server else clones b ! i))
    \<and> hash_table (handle_delete_servers b) = map (\<lambda>v. if \<exists>i<nmembers b. v = int i \<and> deletable (members b ! i)
         then HASH_VAL_FREE else v) (hash_table b)
    \<and> (\<forall>i s. i < nmembers b \<longrightarrow> deletable (members b ! i) \<longrightarrow> s < length (sessions lb) \<longrightarrow> \<not> uses_member i (sessions lb ! s))"
proof -
  have bok: "balancer_ok b" using ok lb_okD(1) b by blast
  then have len: "nmembers b \<le> MAXSERVERS" using table_okD(2) by (auto simp: balancer_ok_def)
  note spec = handle_delete_servers_spec [OF bok]
  have "\<not> uses_member i (sessions lb ! s)"
    if "i < nmembers b" "deletable (members b ! i)" "s < length (sessions lb)" for i s
    using deletion.member_freed_unused [OF ok, of i s] that len b spec(1) by simp
  then show ?thesis using deletion.server_kept [OF ok] spec by simp
qed

lemma lb_ok_keeps:
  assumes "keeps (balancer lb) b'" and "lb_ok lb"
  shows "lb_ok (lb\<lparr>balancer := b'\<rparr>)"
  using assms by (simp add: keeps_def lb_ok_def queue_ok_def counts_ok_def)

definition leaving_lb :: LB where
  "leaving_lb = upd_bal (upd_member 1 (\<lambda>x. x\<lparr>srv_status := SERVER_STATE_DELETED\<rparr>)) live_lb"

lemma leaving_lb_ok: "lb_ok leaving_lb"
proof -
  have "keeps (balancer live_lb) (upd_member 1 (\<lambda>x. x\<lparr>srv_status := SERVER_STATE_DELETED\<rparr>) (balancer live_lb))"
    by (rule keeps_upd_member) (simp_all add: live_members_nth sample_server_def)
  then show ?thesis using lb_ok_keeps [OF _ live_lb_ok] by (simp add: leaving_lb_def upd_bal_def)
qed

theorem handle_delete_servers_correct_witness:
  "members (handle_delete_servers (balancer leaving_lb)) ! 1 = zero_server
    \<and> members (handle_delete_servers (balancer leaving_lb)) ! 0 = sample_server 0 1"
proof -
  have m: "nmembers (balancer leaving_lb) = 2" "members (balancer leaving_lb) ! 0 = sample_server 0 1"
    "members (balancer leaving_lb) ! 1 = (sample_server 1 0)\<lparr>srv_status := SERVER_STATE_DELETED\<rparr>"
    using live_members_ok by (simp_all add: leaving_lb_def live_members_nth)
  then show ?thesis
    using handle_delete_servers_correct [OF leaving_lb_ok refl] by (simp add: deletable_def sample_server_def)
qed

section \<open>Health checks\<close>

lemma check_server_state_slot:
  "members (snd (check_server_state p (members b ! i) (upd_member i) b)) =
     upd_server i (\<lambda>s. if srv_status s \<in> {SERVER_STATE_ENABLED, SERVER_STATE_FAILED} \<and> pb_socket p \<and> pb_nonblock p
       \<and> pb_nodelay p \<and> pb_connect p then probe_server p s else s) (members b)"
  "nmembers (snd (check_server_state p (members b ! i) (upd_member i) b)) = nmembers b"
  "clones (snd (check_server_state p (members b ! i) (upd_member i) b)) = clones b"
  "hash_table (snd (check_server_state p (members b ! i) (upd_member i) b)) = hash_table b"
  "nclones (snd (check_server_state p (members b ! i) (upd_member i) b)) = nclones b"
  by (auto simp: check_server_state_def upd_server_def)

lemma probe_server_spec:
  "probe_server p s = (if 1 \<le> pb_select p \<and> \<not> (pb_readable p \<and> pb_read p = - 1) \<and> \<not> pb_err p
     then s\<lparr>srv_status := SERVER_STATE_ENABLED\<rparr>
     else s\<lparr>srv_status := SERVER_STATE_FAILED, srv_load := SNMP_LOAD_NOT_INIT, srv_e_load := 0\<rparr>)"
  by (auto simp: probe_server_def Let_def)

definition member_probed :: "PROBE \<Rightarrow> SERVER \<Rightarrow> SERVER" where
  "member_probed p s =
     (if srv_status s \<in> {SERVER_STATE_ENABLED, SERVER_STATE_FAILED} \<and> pb_socket p \<and> pb_nonblock p
         \<and> pb_nodelay p \<and> pb_connect p then probe_server p s else s)"

definition check_members_upto :: "nat \<Rightarrow> (nat \<Rightarrow> PROBE) \<Rightarrow> BALANCER \<Rightarrow> BALANCER" where
  "check_members_upto k ps b = fold (\<lambda>i b. snd (check_server_state (ps i) (members b ! i) (upd_member i) b)) [0..<k] b"

lemma check_members_upto_Suc:
  "check_members_upto (Suc k) ps b = snd (check_server_state (ps k) (members (check_members_upto k ps b) ! k) (upd_member k) (check_members_upto k ps b))"
  by (simp add: check_members_upto_def)

lemma check_members_upto_frame:
  "length (members (check_members_upto k ps b)) = length (members b)" "nmembers (check_members_upto k ps b) = nmembers b"
  "clones (check_members_upto k ps b) = clones b" "hash_table (check_members_upto k ps b) = hash_table b"
  "nclones (check_members_upto k ps b) = nclones b"
  by (induction k) (simp_all add: check_members_upto_Suc check_server_state_slot, simp_all add: check_members_upto_def)

lemma check_members_upto_nth:
  assumes "k \<le> length (members b)"
  shows "members (check_members_upto k ps b) ! j = (if j < k then member_probed (ps j) (members b ! j) else members b ! j)"
  using assms
proof (induction k arbitrary: j)
  case (Suc k)
  let ?m = "members (check_members_upto k ps b)"
  have "k < length ?m" "?m ! k = members b ! k" using Suc by (simp_all add: check_members_upto_frame)
  moreover have "members (check_members_upto (Suc k) ps b) = ?m[k := member_probed (ps k) (?m ! k)]"
    unfolding check_members_upto_Suc check_server_state_slot(1) by (simp add: upd_server_def member_probed_def)
  ultimately show ?case using Suc by (auto simp: nth_list_update less_Suc_eq)
qed (simp add: check_members_upto_def)

lemma check_members_nth:
  assumes "balancer_ok b"
  shows "members (check_members ps b) ! j = (if j < nmembers b then member_probed (ps j) (members b ! j) else members b ! j)"
proof -
  have "nmembers b \<le> length (members b)" using assms table_okD(1,2) by (fastforce simp: balancer_ok_def)
  from check_members_upto_nth [OF this] show ?thesis unfolding check_members_upto_def check_members_def .
qed

text \<open>
  C22. A round of health checks decides about each member by its own probe only. A member that is
  enabled or failed, and to which a connection could be started, ends enabled when \<open>select\<close> reported
  the socket in time, the one-byte read did not fail and the socket has no exception, and otherwise
  failed with its load unknown. Every other member, all clones and the hash table are unchanged.
\<close>

theorem check_members_correct:
  assumes "balancer_ok b" and "i < MAXSERVERS" and "s = members b ! i" and "p = ps i"
  shows "members (check_members ps b) ! i =
      (if i < nmembers b \<and> srv_status s \<in> {SERVER_STATE_ENABLED, SERVER_STATE_FAILED}
          \<and> pb_socket p \<and> pb_nonblock p \<and> pb_nodelay p \<and> pb_connect p
       then (if 1 \<le> pb_select p \<and> \<not> (pb_readable p \<and> pb_read p = - 1) \<and> \<not> pb_err p
             then s\<lparr>srv_status := SERVER_STATE_ENABLED\<rparr>
             else s\<lparr>srv_status := SERVER_STATE_FAILED, srv_load := SNMP_LOAD_NOT_INIT, srv_e_load := 0\<rparr>)
       else s)
    \<and> clones (check_members ps b) = clones b \<and> hash_table (check_members ps b) = hash_table b
    \<and> nmembers (check_members ps b) = nmembers b"
proof -
  have eq: "check_members ps b = check_members_upto (nmembers b) ps b" by (simp add: check_members_def check_members_upto_def)
  have "members (check_members ps b) ! i = (if i < nmembers b then member_probed p s else s)"
    unfolding assms(3,4) by (rule check_members_nth [OF assms(1)])
  then show ?thesis using check_members_upto_frame [of "nmembers b" ps b]
    unfolding eq member_probed_def probe_server_spec by auto
qed

definition good_probe :: PROBE where
  "good_probe = \<lparr>pb_socket = True, pb_nonblock = True, pb_nodelay = True, pb_connect = True, pb_select = 1,
     pb_readable = False, pb_read = 0, pb_err = False\<rparr>"

theorem check_members_correct_witness:
  "srv_status (members (check_members (\<lambda>i. if i = 0 then good_probe\<lparr>pb_select := 0\<rparr> else good_probe) (balancer live_lb)) ! 0)
     = SERVER_STATE_FAILED"
  using check_members_correct [OF lb_okD(1) [OF live_lb_ok], of 0 _ _ "\<lambda>i. if i = 0 then good_probe\<lparr>pb_select := 0\<rparr> else good_probe"]
  by (simp add: good_probe_def live_members_nth sample_server_def)

text \<open>
  C36. A member whose connection attempts fail at once (any error but EINPROGRESS, such as a refused
  connection on the local host or an unreachable network) is never marked as failed: however many
  rounds of health checks find it so, it stays enabled.
\<close>

theorem refused_member_stays_enabled:
  assumes "balancer_ok b" and "i < MAXSERVERS" and "srv_status (members b ! i) = SERVER_STATE_ENABLED"
    and "\<forall>ps\<in>set pss. \<not> pb_connect (ps i)"
  shows "srv_status (members (fold check_members pss b) ! i) = SERVER_STATE_ENABLED"
  using assms
proof (induction pss arbitrary: b)
  case (Cons ps pss)
  have "members (check_members ps b) ! i = members b ! i"
    using Cons.prems(4) by (simp add: check_members_nth [OF Cons.prems(1)] member_probed_def)
  moreover have "balancer_ok (check_members ps b)"
    using member_checks.keeps_op [of b ps] Cons.prems(1) by (simp add: keeps_def)
  ultimately show ?case using Cons.IH [of "check_members ps b"] Cons.prems by simp
qed simp

theorem refused_member_stays_enabled_witness:
  "srv_status (members (fold check_members (replicate 3 (\<lambda>i. good_probe\<lparr>pb_connect := False\<rparr>)) (balancer live_lb)) ! 0)
     = SERVER_STATE_ENABLED"
  by (rule refused_member_stays_enabled [OF lb_okD(1) [OF live_lb_ok]])
    (simp_all add: live_members_nth sample_server_def)

section \<open>Effective load\<close>

text \<open>Loads as the SNMP agents and the configuration deliver them: finite, below the limit.\<close>

definition load_ok :: "SERVER \<Rightarrow> bool" where
  "load_ok s \<longleftrightarrow> (case (srv_load s, srv_maxl s) of (Fin l, Fin m) \<Rightarrow> l \<le> m \<and> 0 < m \<and> m \<le> 2 ^ 100 | _ \<Rightarrow> False)"

lemma load_okE:
  assumes "load_ok s"
  obtains l m where "srv_load s = Fin l" "srv_maxl s = Fin m" "l \<le> m" "0 < m" "m \<le> 2 ^ 100"
  using assms by (auto simp: load_ok_def split: c_float.splits)

definition percent :: "int \<Rightarrow> bool" where
  "percent e \<longleftrightarrow> 0 \<le> e \<and> e \<le> 100"

lemma f_add_sums:
  assumes "0 \<le> L" "L \<le> M" "M \<le> of_nat k * 2 ^ 100" and "0 \<le> l" "l \<le> m" "m \<le> 2 ^ 100" and "Suc k < 2 ^ 24"
  obtains L' M' where "f_add (Fin L) (Fin l) = Fin L'" "f_add (Fin M) (Fin m) = Fin M'"
    "0 \<le> L'" "L' \<le> M'" "M' \<le> of_nat (Suc k) * 2 ^ 100"
proof -
  have b: "M + m \<le> of_nat (Suc k) * 2 ^ 100" using assms by (simp add: algebra_simps)
  obtain L' where L: "to_float (L + l) = Fin L'" "0 \<le> L'" "L' = round_val 24 (- 126) (L + l)"
    by (rule to_float_multiple [of "L + l" "Suc k"]) (use assms b in simp_all)
  obtain M' where M: "to_float (M + m) = Fin M'" "M' \<le> of_nat (Suc k) * 2 ^ 100" "M' = round_val 24 (- 126) (M + m)"
    by (rule to_float_multiple [of "M + m" "Suc k"]) (use assms b in simp_all)
  have "L' \<le> M'" unfolding L(3) M(3) by (rule round_val_mono) (use assms in simp_all)
  then show thesis using that L M by simp
qed

lemma overall_load_upd [simp]:
  "overall_load (upd_member i f b) = overall_load b" "overall_load (upd_clone i f b) = overall_load b"
  by (simp_all add: upd_member_def upd_clone_def)

lemma member_loads_total:
  assumes "\<forall>i\<in>set is. i < length (members b) \<and> load_ok (members b ! i)" and "distinct is"
    and "0 \<le> L" "L \<le> M" "M \<le> of_nat k * 2 ^ 100" and "k + length is < 2 ^ 24"
  shows "\<exists>L' M' b'. member_loads is (Fin L, Fin M, b) = Inr (Fin L', Fin M', b') \<and> 0 \<le> L' \<and> L' \<le> M'
    \<and> clones b' = clones b \<and> nclones b' = nclones b \<and> overall_load b' = overall_load b
    \<and> (\<forall>j. j \<in> set is \<longrightarrow> percent (srv_e_load (members b' ! j)))
    \<and> (\<forall>j. j \<notin> set is \<longrightarrow> members b' ! j = members b ! j)"
  using assms
proof (induction "is" arbitrary: L M k b)
  case (Cons i "is")
  have i: "i < length (members b)" "i \<notin> set is" using Cons.prems by auto
  obtain l m where lm: "srv_load (members b ! i) = Fin l" "srv_maxl (members b ! i) = Fin m" "l \<le> m" "0 < m" "m \<le> 2 ^ 100"
    using Cons.prems(1) by (auto elim: load_okE)
  have step: "\<exists>L' M' b'. member_loads is (Fin K, Fin N, upd_member i (\<lambda>x. x\<lparr>srv_e_load := e\<rparr>) b) = Inr (Fin L', Fin M', b') \<and> 0 \<le> L' \<and> L' \<le> M'
    \<and> clones b' = clones b \<and> nclones b' = nclones b \<and> overall_load b' = overall_load b
    \<and> (\<forall>j. j \<in> set (i # is) \<longrightarrow> percent (srv_e_load (members b' ! j)))
    \<and> (\<forall>j. j \<notin> set (i # is) \<longrightarrow> members b' ! j = members b ! j)"
    if e: "percent e" and K: "0 \<le> K" "K \<le> N" "N \<le> of_nat k' * 2 ^ 100" "k' + length is < 2 ^ 24" for e K N k'
  proof -
    let ?b = "upd_member i (\<lambda>x. x\<lparr>srv_e_load := e\<rparr>) b"
    have "\<forall>j\<in>set is. j < length (members ?b) \<and> load_ok (members ?b ! j)"
      using Cons.prems(1) i by auto
    from Cons.IH [OF this _ K] Cons.prems(2) obtain L' M' b' where
      b': "member_loads is (Fin K, Fin N, ?b) = Inr (Fin L', Fin M', b')" "0 \<le> L'" "L' \<le> M'"
        "clones b' = clones b" "nclones b' = nclones b" "overall_load b' = overall_load b"
        "\<forall>j. j \<in> set is \<longrightarrow> percent (srv_e_load (members b' ! j))"
        "\<forall>j. j \<notin> set is \<longrightarrow> members b' ! j = members ?b ! j" by auto
    have "percent (srv_e_load (members b' ! i))" using b'(8) i e by simp
    moreover have "\<forall>j. j \<notin> set (i # is) \<longrightarrow> members b' ! j = members b ! j" using b'(8) by (auto simp: upd_server_def)
    ultimately show ?thesis using b' by auto
  qed
  show ?case
  proof (cases "l \<le> 0")
    case True
    then show ?thesis using step [of 0 L M k] Cons.prems lm by (simp add: Let_def percent_def)
  next
    case False
    obtain e where e: "f_to_int (load_percent (Fin l) (Fin m)) = Inr e" "percent e"
      using load_percent_bounds [of l m] False lm by (auto simp: percent_def)
    obtain L' M' where s: "f_add (Fin L) (Fin l) = Fin L'" "f_add (Fin M) (Fin m) = Fin M'"
      "0 \<le> L'" "L' \<le> M'" "M' \<le> of_nat (Suc k) * 2 ^ 100"
      by (rule f_add_sums [of L M k l m]) (use Cons.prems lm False in simp_all)
    show ?thesis using step [OF e(2) s(3,4,5)] Cons.prems(6) lm False e(1) s(1,2)
      by (simp add: Let_def del: f_add.simps)
  qed
qed auto

lemma clone_loads_total:
  assumes "\<forall>i\<in>set is. i < length (clones b) \<and> load_ok (clones b ! i)" and "distinct is"
  shows "\<exists>b'. clone_loads is b = Inr b' \<and> members b' = members b \<and> overall_load b' = overall_load b
    \<and> (\<forall>j. j \<in> set is \<longrightarrow> percent (srv_e_load (clones b' ! j)))
    \<and> (\<forall>j. j \<notin> set is \<longrightarrow> clones b' ! j = clones b ! j)"
  using assms
proof (induction "is" arbitrary: b)
  case (Cons i "is")
  have i: "i < length (clones b)" "i \<notin> set is" using Cons.prems by auto
  obtain l m where lm: "srv_load (clones b ! i) = Fin l" "srv_maxl (clones b ! i) = Fin m" "l \<le> m" "0 < m" "m \<le> 2 ^ 100"
    using Cons.prems(1) by (auto elim: load_okE)
  have step: "\<exists>b'. clone_loads is (upd_clone i (\<lambda>x. x\<lparr>srv_e_load := e\<rparr>) b) = Inr b' \<and> members b' = members b
    \<and> overall_load b' = overall_load b
    \<and> (\<forall>j. j \<in> set (i # is) \<longrightarrow> percent (srv_e_load (clones b' ! j)))
    \<and> (\<forall>j. j \<notin> set (i # is) \<longrightarrow> clones b' ! j = clones b ! j)" if e: "percent e" for e
  proof -
    let ?b = "upd_clone i (\<lambda>x. x\<lparr>srv_e_load := e\<rparr>) b"
    have "\<forall>j\<in>set is. j < length (clones ?b) \<and> load_ok (clones ?b ! j)" using Cons.prems(1) i by auto
    from Cons.IH [OF this] Cons.prems(2) obtain b' where
      b': "clone_loads is ?b = Inr b'" "members b' = members b" "overall_load b' = overall_load b"
        "\<forall>j. j \<in> set is \<longrightarrow> percent (srv_e_load (clones b' ! j))"
        "\<forall>j. j \<notin> set is \<longrightarrow> clones b' ! j = clones ?b ! j" by auto
    have "percent (srv_e_load (clones b' ! i))" using b'(5) i e by simp
    moreover have "\<forall>j. j \<notin> set (i # is) \<longrightarrow> clones b' ! j = clones b ! j" using b'(5) by (auto simp: upd_server_def)
    ultimately show ?thesis using b' by auto
  qed
  show ?case
  proof (cases "l < 0")
    case True
    then show ?thesis using step [of 0] lm by (simp add: Let_def percent_def)
  next
    case False
    then show ?thesis using load_percent_bounds [of l m] step lm by (force simp: Let_def percent_def)
  qed
qed auto


definition loaded_balancer :: "c_float \<Rightarrow> BALANCER" where
  "loaded_balancer l = upd_member 0 (\<lambda>x. x\<lparr>srv_load := l, srv_maxl := Fin 20\<rparr>)
     (upd_member 1 (\<lambda>x. x\<lparr>srv_load := Fin 1, srv_maxl := Fin 20\<rparr>) (balancer live_lb))"

lemma loaded_balancer_ok: "balancer_ok (loaded_balancer l)"
proof -
  have "keeps (balancer live_lb) (upd_member 1 (\<lambda>x. x\<lparr>srv_load := Fin 1, srv_maxl := Fin 20\<rparr>) (balancer live_lb))"
    by (rule keeps_upd_member) (simp_all add: live_members_nth sample_server_def)
  moreover have "keeps (upd_member 1 (\<lambda>x. x\<lparr>srv_load := Fin 1, srv_maxl := Fin 20\<rparr>) (balancer live_lb)) (loaded_balancer l)"
    unfolding loaded_balancer_def
    by (rule keeps_upd_member) (simp_all add: live_members_nth sample_server_def upd_server_def)
  ultimately show ?thesis using lb_okD(1) [OF live_lb_ok] by (simp add: keeps_def)
qed


section \<open>Rebalancing\<close>

lemma count_list_filter: "count_list xs v = length (filter (\<lambda>i. xs ! i = v) [0..<length xs])"
proof -
  have "count_list xs v = length (filter (\<lambda>x. x = v) xs)" by (induction xs) auto
  also have "\<dots> = length (filter (\<lambda>x. x = v) (map (\<lambda>i. xs ! i) [0..<length xs]))" by (simp only: map_nth)
  also have "\<dots> = length (filter (\<lambda>i. xs ! i = v) [0..<length xs])" by (simp only: filter_map o_def length_map)
  finally show ?thesis .
qed

lemma few_rebalancers:
  assumes "length (rebalance_subjects b) \<le> 1" and "rebalancer b i" and "rebalancer b j"
  shows "i = j"
proof (rule ccontr)
  assume "i \<noteq> j"
  have "{i, j} \<subseteq> set (filter (rebalancer b) [0..<nmembers b])" using assms(2,3) by (auto simp: rebalancer_def)
  then have "card {i, j} \<le> card (set (filter (rebalancer b) [0..<nmembers b]))" by (intro card_mono) auto
  also have "\<dots> \<le> length (filter (rebalancer b) [0..<nmembers b])" by (rule card_length)
  also have "\<dots> \<le> 1" using assms(1) by (simp add: rebalance_subjects_map)
  finally show False using \<open>i \<noteq> j\<close> by simp
qed


definition hot_balancer :: BALANCER where
  "hot_balancer = (balancer live_lb)\<lparr>hash_table := replicate 40 0 @ replicate (HASHTABLESIZE - 40) HASH_VAL_FREE,
     members := live_members[0 := (sample_server 0 1)\<lparr>srv_e_load := 90, srv_hash_table_usage := 40\<rparr>]\<rparr>"

lemma hot_balancer_simps:
  "members hot_balancer ! 0 = (sample_server 0 1)\<lparr>srv_e_load := 90, srv_hash_table_usage := 40\<rparr>"
  "members hot_balancer ! 1 = sample_server 1 0" "nmembers hot_balancer = 2"
  "hash_rebalance_size hot_balancer = 5" "hash_rebalance_threshold hot_balancer = 30"
  "count_list (hash_table hot_balancer) 0 = 40" "count_list (hash_table hot_balancer) 1 = 0"
  using live_members_ok by (simp_all add: hot_balancer_def live_members_nth sample_balancer_def count_list_replicate)

lemma hot_balancer_ok: "balancer_ok hot_balancer"
proof -
  have "table_ok (members hot_balancer) 2"
    unfolding hot_balancer_def by (simp add: table_ok_def live_members_ok live_members_nth nth_list_update sample_server_def)
  moreover have "hash_ok hot_balancer"
    unfolding hot_balancer_def hash_ok_def
    by (simp add: live_members_ok live_members_nth nth_list_update count_list_replicate sample_server_def)
  moreover have "table_ok (clones hot_balancer) (nclones hot_balancer)"
    using lb_okD(1) [OF live_lb_ok] by (simp add: balancer_ok_def hot_balancer_def)
  ultimately show ?thesis by (simp add: balancer_ok_def hot_balancer_simps)
qed


end
