(* ===== verification/Duplex.thy ===== *)
theory Duplex
  imports Server_Props
begin

text \<open>
  Both directions of a session at once. The handlers of a relaying session are one family of
  operations; each direction is a channel on which some of them put bytes and some take bytes. The
  locale \<open>channel\<close> has the stream law and a progress law, and is interpreted for the two directions of
  the same runs. The invariant \<open>duplex_ok\<close> adds to \<open>relaying\<close> that a descriptor with bytes waiting for it is
  polled for writability, so that the event loop learns when they can be sent.
\<close>

section \<open>Channels\<close>

text \<open>
  \<open>got op\<close> are the bytes that \<open>op\<close> puts on the channel, \<open>gave op\<close> the number of bytes it takes off;
  \<open>channel_run\<close> collects the bytes taken.
\<close>

fun channel_run :: "('op \<Rightarrow> 's \<Rightarrow> 's) \<Rightarrow> ('s \<Rightarrow> byte list) \<Rightarrow> ('op \<Rightarrow> nat) \<Rightarrow> 'op list \<Rightarrow> 's \<Rightarrow> byte list \<times> 's" where
  "channel_run step pend gave [] s = ([], s)"
| "channel_run step pend gave (op # ops) s =
     (let (out, s') = channel_run step pend gave ops (step op s) in (take (gave op) (pend s) @ out, s'))"

fun all_legal :: "('op \<Rightarrow> 's \<Rightarrow> bool) \<Rightarrow> ('op \<Rightarrow> 's \<Rightarrow> 's) \<Rightarrow> 'op list \<Rightarrow> 's \<Rightarrow> bool" where
  "all_legal legal step [] s = True"
| "all_legal legal step (op # ops) s = (legal op s \<and> all_legal legal step ops (step op s))"

lemma snd_channel_run: "snd (channel_run step pend gave ops s) = fold step ops s"
  by (induction ops arbitrary: s) (simp_all add: case_prod_beta Let_def)

locale channel =
  fixes ok :: "'s \<Rightarrow> bool" and legal :: "'op \<Rightarrow> 's \<Rightarrow> bool" and step :: "'op \<Rightarrow> 's \<Rightarrow> 's"
    and pend :: "'s \<Rightarrow> byte list" and got :: "'op \<Rightarrow> byte list" and gave :: "'op \<Rightarrow> nat" and writes :: "'op \<Rightarrow> bool"
  assumes step_ok: "ok s \<Longrightarrow> legal op s \<Longrightarrow> ok (step op s)"
    and step_pend: "ok s \<Longrightarrow> legal op s \<Longrightarrow> pend (step op s) = drop (gave op) (pend s) @ got op"
    and write_progress: "ok s \<Longrightarrow> legal op s \<Longrightarrow> writes op \<Longrightarrow> pend s \<noteq> [] \<Longrightarrow> 0 < gave op"
begin

lemma run_ok: "ok s \<Longrightarrow> all_legal legal step ops s \<Longrightarrow> ok (fold step ops s)"
  by (induction ops arbitrary: s) (simp_all add: step_ok)

lemma run_stream:
  assumes "ok s" and "all_legal legal step ops s"
  shows "fst (channel_run step pend gave ops s) @ pend (fold step ops s) = pend s @ concat (map got ops)"
  using assms
proof (induction ops arbitrary: s)
  case (Cons op ops)
  then have "fst (channel_run step pend gave ops (step op s)) @ pend (fold step ops (step op s))
      = (drop (gave op) (pend s) @ got op) @ concat (map got ops)"
    using step_ok [of s op] step_pend [of s op] by simp
  then show ?case by (simp add: case_prod_beta Let_def)
qed simp

lemma run_progress:
  assumes "ok s" and "all_legal legal step ops s"
  shows "min (length (filter writes ops)) (length (pend s)) \<le> length (fst (channel_run step pend gave ops s))"
  using assms
proof (induction ops arbitrary: s)
  case (Cons op ops)
  then have ih: "min (length (filter writes ops)) (length (pend (step op s)))
      \<le> length (fst (channel_run step pend gave ops (step op s)))" and l: "legal op s"
    using step_ok [of s op] by auto
  have len: "length (pend s) - gave op \<le> length (pend (step op s))" using step_pend [OF Cons.prems(1) l] by simp
  have w: "0 < gave op" if "writes op" "pend s \<noteq> []" using write_progress [OF Cons.prems(1) l that] .
  have "length (fst (channel_run step pend gave (op # ops) s))
      = min (length (pend s)) (gave op) + length (fst (channel_run step pend gave ops (step op s)))"
    by (simp add: case_prod_beta Let_def)
  with ih len w show ?case by (cases "pend s = []") (auto simp: min_def split: if_splits)
qed simp

text \<open>After as many writes as there were bytes waiting, those bytes are out.\<close>

lemma run_delivers:
  assumes "ok s" and "all_legal legal step ops s" and "length (pend s) \<le> length (filter writes ops)"
  shows "take (length (pend s)) (fst (channel_run step pend gave ops s)) = pend s"
proof -
  let ?out = "fst (channel_run step pend gave ops s)"
  have "length (pend s) \<le> length ?out" using run_progress [OF assms(1,2)] assms(3) by simp
  then have "take (length (pend s)) ?out = take (length (pend s)) (?out @ pend (fold step ops s))" by simp
  also have "\<dots> = pend s" using run_stream [OF assms(1,2)] by simp
  finally show ?thesis .
qed

end

section \<open>The operations of a session\<close>

datatype session_op = From_client "byte list" | To_member nat | From_member "byte list" | To_client nat

definition session_step :: "int \<Rightarrow> int \<Rightarrow> SOCK \<Rightarrow> SOCK \<Rightarrow> session_op \<Rightarrow> LB \<Rightarrow> LB" where
  "session_step cfd mfd km kc op lb =
     run_or lb (case op of From_client bs \<Rightarrow> client_read cfd (Rd bs) km kc lb
       | To_member n \<Rightarrow> member_write mfd (int n) lb
       | From_member bs \<Rightarrow> member_read mfd (Rd bs) lb
       | To_client n \<Rightarrow> client_write cfd (int n) lb)"

text \<open>
  What \<open>read\<close> and \<open>write\<close> guarantee: a read that is no end of stream brings at least one byte and at
  most the free room, a write takes at least one byte when there is one and at most those there are.
\<close>

fun session_legal :: "nat \<Rightarrow> session_op \<Rightarrow> LB \<Rightarrow> bool" where
  "session_legal s (From_client bs) lb = (bs \<noteq> [] \<and> length (pending_client s lb) + length bs \<le> MESSAGE_SIZE_LIMIT)"
| "session_legal s (From_member bs) lb = (bs \<noteq> [] \<and> length (pending_member s lb) + length bs \<le> MESSAGE_SIZE_LIMIT)"
| "session_legal s (To_member n) lb = (n \<le> length (pending_client s lb) \<and> (pending_client s lb \<noteq> [] \<longrightarrow> 0 < n))"
| "session_legal s (To_client n) lb = (n \<le> length (pending_member s lb) \<and> (pending_member s lb \<noteq> [] \<longrightarrow> 0 < n))"

fun client_bytes :: "session_op \<Rightarrow> byte list" where
  "client_bytes (From_client bs) = bs" | "client_bytes _ = []"

fun member_bytes :: "session_op \<Rightarrow> byte list" where
  "member_bytes (From_member bs) = bs" | "member_bytes _ = []"

fun sent_to_member :: "session_op \<Rightarrow> nat" where
  "sent_to_member (To_member n) = n" | "sent_to_member _ = 0"

fun sent_to_client :: "session_op \<Rightarrow> nat" where
  "sent_to_client (To_client n) = n" | "sent_to_client _ = 0"

fun writes_member :: "session_op \<Rightarrow> bool" where
  "writes_member (To_member n) = True" | "writes_member _ = False"

fun writes_client :: "session_op \<Rightarrow> bool" where
  "writes_client (To_client n) = True" | "writes_client _ = False"

definition polled_for_write :: "int \<Rightarrow> LB \<Rightarrow> bool" where
  "polled_for_write fd lb \<longleftrightarrow> interest lb fd = Some wr_ev \<or> interest lb fd = Some rw_ev"

text \<open>The descriptors of a session are different, open and registered, and none of them is forgotten.\<close>

definition awake :: "int \<Rightarrow> int \<Rightarrow> SESSION \<Rightarrow> LB \<Rightarrow> bool" where
  "awake cfd mfd x lb \<longleftrightarrow>
     clientfd x = cfd \<and> memberfd x = mfd \<and> clonefd x \<noteq> cfd \<and> clonefd x \<noteq> mfd \<and>
     interest lb cfd \<noteq> None \<and> interest lb mfd \<noteq> None \<and>
     (0 < member_used_buffer x \<longrightarrow> flag x STATE_CLI_WRITE_READY) \<and>
     (flag x STATE_CLI_WRITE_READY \<longrightarrow> polled_for_write cfd lb) \<and>
     (0 < client_used_buffer x \<longrightarrow> flag x STATE_MEM_WRITE_READY) \<and>
     (flag x STATE_MEM_WRITE_READY \<longrightarrow> polled_for_write mfd lb)"

definition duplex_ok :: "int \<Rightarrow> int \<Rightarrow> nat \<Rightarrow> LB \<Rightarrow> bool" where
  "duplex_ok cfd mfd s lb \<longleftrightarrow> cfd \<noteq> mfd \<and> relaying cfd mfd s lb \<and> awake cfd mfd (sessions lb ! s) lb"

lemma duplex_okD:
  assumes "duplex_ok cfd mfd s lb"
  shows "cfd \<noteq> mfd" "relaying cfd mfd s lb" "awake cfd mfd (sessions lb ! s) lb" "s < length (sessions lb)"
    "\<exists>m. ses_member (sessions lb ! s) = Some m"
proof -
  show r: "cfd \<noteq> mfd" "relaying cfd mfd s lb" "awake cfd mfd (sessions lb ! s) lb"
    using assms by (simp_all add: duplex_ok_def)
  note d = relayingD [OF r(2)]
  show "s < length (sessions lb)" by (rule d(4))
  show "\<exists>m. ses_member (sessions lb ! s) = Some m" using ses_connD(5) [OF lb_okD(7) [OF d(1,4)] d(5)] by blast
qed

lemma client_write_duplex:
  assumes d: "duplex_ok cfd mfd s lb"
  shows "duplex_ok cfd mfd s (run_or lb (client_write cfd (int n) lb))"
proof -
  note x = duplex_okD [OF d]
  let ?x = "sessions lb ! s" and ?lb' = "run_or lb (client_write cfd (int n) lb)"
  note w = client_write_data [OF x(2), of n]
  have con: "flag (client_sent n ?x) STATE_MEM_CONNECTED"
    using relayingD(5) [OF x(2)] same_conn_steps(4) [of ?x n] by (simp add: same_conn_def)
  have e: "?lb' = maintain_member s (maintain_client s (upd_ses s member_unfull (upd_ses s (client_sent n) lb)))"
    using relayingD(2) [OF x(2)] con x(4) by (simp add: run_or_def client_write_def Let_def)
  have "awake cfd mfd (member_unfull (client_sent n ?x)) ?lb'"
    using x(1,3,4) unfolding e
    by (auto simp: awake_def maintain_member_def maintain_client_def Let_def epoll_mod_interest polled_for_write_def
        member_unfull_def client_sent_def interest_of_def)
  then show ?thesis using w x(1,4) by (simp add: duplex_ok_def)
qed

lemma member_write_duplex:
  assumes d: "duplex_ok cfd mfd s lb"
  shows "duplex_ok cfd mfd s (run_or lb (member_write mfd (int n) lb))"
proof -
  note x = duplex_okD [OF d]
  let ?x = "sessions lb ! s" and ?lb' = "run_or lb (member_write mfd (int n) lb)"
  obtain m where "ses_member ?x = Some m" using x(5) by blast
  then have e: "?lb' = maintain_member s (epoll_mod (clientfd ?x) (if flag ?x STATE_CLI_WRITE_READY then rw_ev else ro_ev)
      (upd_bal (upd_member m (bsent_add n)) (upd_ses s (member_sent n) lb)))"
    using relayingD(3) [OF x(2)] x(4) by (simp add: run_or_def member_write_def Let_def member_sent_def)
  have "awake cfd mfd (member_sent n ?x) ?lb'"
    using x(1,3,4) unfolding e
    by (auto simp: awake_def maintain_member_def Let_def epoll_mod_interest polled_for_write_def member_sent_def interest_of_def)
  then show ?thesis using member_write_data [OF x(2), of n] x(1,4) by (simp add: duplex_ok_def)
qed

lemma member_read_duplex:
  assumes d: "duplex_ok cfd mfd s lb" and bs: "bs \<noteq> []" "length (pending_member s lb) + length bs \<le> MESSAGE_SIZE_LIMIT"
  shows "duplex_ok cfd mfd s (run_or lb (member_read mfd (Rd bs) lb))"
proof -
  note x = duplex_okD [OF d]
  let ?x = "sessions lb ! s" and ?lb' = "run_or lb (member_read mfd (Rd bs) lb)"
  obtain m where "ses_member ?x = Some m" using x(5) by blast
  then have e: "?lb' = maintain_member s (epoll_mod (clientfd ?x) (if flag ?x STATE_CLI_READ_READY then rw_ev else wr_ev)
      (upd_bal (upd_member m (brecv_add (length bs))) (upd_ses s (member_recv bs) lb)))"
    using relayingD(3) [OF x(2)] x(4) bs(1) by (simp add: run_or_def member_read_def Let_def member_recv_def)
  have "awake cfd mfd (member_recv bs ?x) ?lb'"
    using x(1,3,4) unfolding e
    by (auto simp: awake_def maintain_member_def Let_def epoll_mod_interest polled_for_write_def member_recv_def interest_of_def)
  then show ?thesis using member_read_data [OF x(2) bs] x(1,4) by (simp add: duplex_ok_def)
qed

text \<open>Copying the client's bytes for the clone, or dropping the clone, touches the clone's descriptor only.\<close>

lemma client_read_clone_awake:
  assumes ok: "lb_ok lb" and s: "s < length (sessions lb)" and r: "client_read_clone s n lb = Inr lb'"
    and c: "clientfd (sessions lb ! s) = cfd" "memberfd (sessions lb ! s) = mfd"
      "clonefd (sessions lb ! s) \<noteq> cfd" "clonefd (sessions lb ! s) \<noteq> mfd" "0 \<le> cfd" "0 \<le> mfd"
  shows "clientfd (sessions lb' ! s) = cfd" "memberfd (sessions lb' ! s) = mfd"
    "clonefd (sessions lb' ! s) \<noteq> cfd" "clonefd (sessions lb' ! s) \<noteq> mfd"
    "interest lb' cfd = interest lb cfd" "interest lb' mfd = interest lb mfd"
    "member_used_buffer (sessions lb' ! s) = member_used_buffer (sessions lb ! s)"
    "flag (sessions lb' ! s) STATE_CLI_WRITE_READY = flag (sessions lb ! s) STATE_CLI_WRITE_READY"
  using r c s
  by (auto simp: client_read_clone_def disconnect_clone_def Let_def clone_recv_def res_bind_eq_Inr split: if_splits)

lemma client_read_stages:
  assumes ok: "lb_ok lb" and fd: "fd_session cfd lb = Inr s" and ne: "bs \<noteq> []" and r: "client_read cfd (Rd bs) km kc lb = Inr lb'"
  obtains lb2 where "client_read_clone s (length bs) (upd_ses s (client_recv bs) lb) = Inr lb2"
    and "lb' = client_read_maintain s lb2"
proof -
  note s = fd_session_bound(1) [OF ok fd]
  have "\<not> flag (client_recv bs (sessions lb ! s)) STATE_FRESH"
    using ses_connD(4) [OF lb_okD(7) [OF ok s]] by (simp add: client_recv_def)
  then have "client_read_fresh s km kc (upd_ses s (client_recv bs) lb) = Inr (False, upd_ses s (client_recv bs) lb)"
    using s by (simp add: client_read_fresh_def)
  then show ?thesis using that r fd ne by (auto simp: client_read_def res_bind_eq_Inr)
qed

lemma client_read_maintain_awake:
  assumes "s < length (sessions lb)" and "cfd \<noteq> mfd" and "clientfd (sessions lb ! s) = cfd" "memberfd (sessions lb ! s) = mfd"
    "clonefd (sessions lb ! s) \<noteq> cfd" "clonefd (sessions lb ! s) \<noteq> mfd" "interest lb cfd \<noteq> None" "interest lb mfd \<noteq> None"
    and "0 < member_used_buffer (sessions lb ! s) \<longrightarrow> flag (sessions lb ! s) STATE_CLI_WRITE_READY"
  shows "awake cfd mfd (sessions (client_read_maintain s lb) ! s) (client_read_maintain s lb)"
  using assms
  by (auto simp: awake_def client_read_maintain_def maintain_client_def Let_def epoll_mod_interest polled_for_write_def
      client_full_check_def interest_of_def)

lemma client_read_duplex:
  assumes d: "duplex_ok cfd mfd s lb" and bs: "bs \<noteq> []" "length (pending_client s lb) + length bs \<le> MESSAGE_SIZE_LIMIT"
  shows "duplex_ok cfd mfd s (run_or lb (client_read cfd (Rd bs) km kc lb))"
    and "pending_member s (run_or lb (client_read cfd (Rd bs) km kc lb)) = pending_member s lb"
proof -
  note x = duplex_okD [OF d]
  note r = relayingD [OF x(2)]
  let ?x = "sessions lb ! s" and ?lb = "upd_ses s (client_recv bs) lb"
  have len: "client_used_buffer ?x + length bs \<le> MESSAGE_SIZE_LIMIT" using bs(2) pending_lengths(2) [OF x(2)] by simp
  obtain lb' where l: "client_read cfd (Rd bs) km kc lb = Inr lb'" by (rule client_read_part [OF r(1,2) bs(1) len])
  obtain lb2 where 2: "client_read_clone s (length bs) ?lb = Inr lb2" "lb' = client_read_maintain s lb2"
    by (rule client_read_stages [OF r(1,2) bs(1) l])
  have ok1: "lb_ok ?lb" using lb_ok_step [OF r(1,4)] step_shapes(1) [OF r(6) len] by simp
  have s1: "s < length (sessions ?lb)" "sessions ?lb ! s = client_recv bs ?x" using x(4) by simp_all
  have a: "clientfd ?x = cfd" "memberfd ?x = mfd" "clonefd ?x \<noteq> cfd" "clonefd ?x \<noteq> mfd"
    "interest lb cfd \<noteq> None" "interest lb mfd \<noteq> None" "0 < member_used_buffer ?x \<longrightarrow> flag ?x STATE_CLI_WRITE_READY"
    using x(3) by (simp_all add: awake_def)
  have nn: "0 \<le> cfd" "0 \<le> mfd" using fd_session_bound(2) [OF r(1)] r(2,3) by auto
  have c: "clientfd (client_recv bs ?x) = cfd" "memberfd (client_recv bs ?x) = mfd"
    "clonefd (client_recv bs ?x) \<noteq> cfd" "clonefd (client_recv bs ?x) \<noteq> mfd"
    using a by (simp_all add: client_recv_def)
  note k = client_read_clone_awake [OF ok1 s1(1) 2(1), unfolded s1(2), OF c nn]
  have s2: "s < length (sessions lb2)" using client_read_clone_data(2) [OF ok1 s1(1) 2(1)] x(4) by simp
  have "awake cfd mfd (sessions lb' ! s) lb'"
    unfolding 2(2) using k a by (intro client_read_maintain_awake [OF s2 x(1)]) (simp_all add: client_recv_def)
  then show "duplex_ok cfd mfd s (run_or lb (client_read cfd (Rd bs) km kc lb))"
    using client_read_data(1) [OF x(2) bs, of km kc] x(1) l by (simp add: duplex_ok_def run_or_def)
  have "member_read_buffer (sessions lb2 ! s) = member_read_buffer ?x"
    using 2(1) x(4) by (auto simp: client_read_clone_def disconnect_clone_def Let_def clone_recv_def client_recv_def
        res_bind_eq_Inr split: if_splits)
  then show "pending_member s (run_or lb (client_read cfd (Rd bs) km kc lb)) = pending_member s lb"
    using l 2(2) s2 k(7) by (simp add: run_or_def pending_member_def client_read_maintain_def client_full_check_def Let_def client_recv_def)
qed

lemma other_direction:
  assumes d: "duplex_ok cfd mfd s lb"
  shows "pending_member s (run_or lb (member_write mfd (int n) lb)) = pending_member s lb"
    and "pending_client s (run_or lb (client_write cfd (int n) lb)) = pending_client s lb"
    and "bs \<noteq> [] \<Longrightarrow> length (pending_member s lb) + length bs \<le> MESSAGE_SIZE_LIMIT \<Longrightarrow>
      pending_client s (run_or lb (member_read mfd (Rd bs) lb)) = pending_client s lb"
  using member_write_data(2) [OF duplex_okD(2) [OF d], of n] client_write_data(2) [OF duplex_okD(2) [OF d], of n]
    member_read_data(2) [OF duplex_okD(2) [OF d], of bs] duplex_okD(4) [OF d]
  by (simp_all add: pending_member_def pending_client_def member_sent_def client_sent_def member_unfull_def member_recv_def Let_def)

lemma session_step_ok:
  assumes "duplex_ok cfd mfd s lb" and "session_legal s op lb"
  shows "duplex_ok cfd mfd s (session_step cfd mfd km kc op lb)"
  using assms client_read_duplex(1) member_read_duplex client_write_duplex member_write_duplex
  by (cases op) (simp_all add: session_step_def)

interpretation client_side: channel "duplex_ok cfd mfd s" "session_legal s" "session_step cfd mfd km kc"
  "pending_member s" member_bytes sent_to_client writes_client
  for cfd mfd s km kc
proof unfold_locales
  fix lb op
  assume d: "duplex_ok cfd mfd s lb" and l: "session_legal s op lb"
  note r = duplex_okD(2) [OF d]
  show "duplex_ok cfd mfd s (session_step cfd mfd km kc op lb)" by (rule session_step_ok [OF d l])
  show "pending_member s (session_step cfd mfd km kc op lb)
      = drop (sent_to_client op) (pending_member s lb) @ member_bytes op"
    using l client_read_duplex(2) [OF d] other_direction(1) [OF d] to_client.recv_pending [OF r] to_client.send_pending [OF r]
    by (cases op) (simp_all add: session_step_def)
  show "0 < sent_to_client op" if "writes_client op" "pending_member s lb \<noteq> []"
    using that l by (cases op) simp_all
qed

interpretation member_side: channel "duplex_ok cfd mfd s" "session_legal s" "session_step cfd mfd km kc"
  "pending_client s" client_bytes sent_to_member writes_member
  for cfd mfd s km kc
proof unfold_locales
  fix lb op
  assume d: "duplex_ok cfd mfd s lb" and l: "session_legal s op lb"
  note r = duplex_okD(2) [OF d]
  show "duplex_ok cfd mfd s (session_step cfd mfd km kc op lb)" by (rule session_step_ok [OF d l])
  show "pending_client s (session_step cfd mfd km kc op lb)
      = drop (sent_to_member op) (pending_client s lb) @ client_bytes op"
    using l other_direction(2,3) [OF d] to_member.recv_pending [OF r] to_member.send_pending [OF r]
    by (cases op) (simp_all add: session_step_def)
  show "0 < sent_to_member op" if "writes_member op" "pending_client s lb \<noteq> []"
    using that l by (cases op) simp_all
qed

section \<open>Properties\<close>


lemma live_duplex: "duplex_ok 5 6 0 live_lb"
proof -
  have "\<not> flag live_session STATE_MEM_WRITE_READY" by (simp add: live_session_def flag_def)
  then have "awake 5 6 live_session live_lb" by (simp add: awake_def live_lb_def)
  then show ?thesis using live_relaying by (simp add: duplex_ok_def)
qed

text \<open>The pending bytes after the steps of a legal run, for evaluating samples.\<close>

lemma live_step:
  assumes "duplex_ok 5 6 0 lb" and "session_legal 0 op lb"
  shows "pending_member 0 (session_step 5 6 no_sock no_sock op lb)
      = drop (sent_to_client op) (pending_member 0 lb) @ member_bytes op"
    and "pending_client 0 (session_step 5 6 no_sock no_sock op lb)
      = drop (sent_to_member op) (pending_client 0 lb) @ client_bytes op"
    and "duplex_ok 5 6 0 (session_step 5 6 no_sock no_sock op lb)"
  using assms by (rule client_side.step_pend member_side.step_pend session_step_ok)+

definition live_ops :: "session_op list" where
  "live_ops = [From_client [71, 69], From_member [1, 2, 3], To_client 2, To_member 1]"

lemma live_pending: "pending_member 0 live_lb = []" "pending_client 0 live_lb = []"
  by (simp_all add: pending_member_def pending_client_def)

lemma live_legal: "all_legal (session_legal 0) (session_step 5 6 no_sock no_sock) live_ops live_lb"
  by (simp add: live_ops_def live_step live_duplex live_pending)



text \<open>Three bytes wait for the client; they leave one at a time.\<close>

definition three_waiting :: LB where
  "three_waiting = session_step 5 6 no_sock no_sock (From_member [1, 2, 3]) live_lb"

definition slow_ops :: "session_op list" where
  "slow_ops = [To_client 1, From_member [4], To_client 1, To_client 1]"

lemma three_waiting_ok: "duplex_ok 5 6 0 three_waiting" "pending_member 0 three_waiting = [1, 2, 3]"
  using live_step [OF live_duplex, of "From_member [1, 2, 3]"] by (simp_all add: three_waiting_def live_pending)

lemma slow_legal: "all_legal (session_legal 0) (session_step 5 6 no_sock no_sock) slow_ops three_waiting"
  by (simp add: slow_ops_def live_step three_waiting_ok)


end
