(* ===== verification/C_String.thy ===== *)
theory C_String
  imports C_Float
begin

text \<open>
  The string functions of the C library that the configuration parser and the admin tool use. A C
  string is the list of its characters before the terminating NUL. Characters are classified as in
  the C locale.
\<close>

section \<open>Comparison, tokens, white space\<close>

definition isspace :: "char \<Rightarrow> bool" where
  "isspace c \<longleftrightarrow> of_char c = (32 :: nat) \<or> 9 \<le> (of_char c :: nat) \<and> (of_char c :: nat) \<le> 13"

text \<open>\<open>strncmp (a, b, n) == 0\<close>.\<close>

definition strncmp_eq :: "string \<Rightarrow> string \<Rightarrow> nat \<Rightarrow> bool" where
  "strncmp_eq a b n \<longleftrightarrow> take n a = take n b"

text \<open>\<open>strtok\<close>: the token, and the text that the next call with NULL starts from.\<close>

definition strtok :: "char list \<Rightarrow> string \<Rightarrow> string option \<times> string" where
  "strtok delims s =
     (let t = dropWhile (\<lambda>c. c \<in> set delims) s
      in if t = [] then (None, [])
         else (Some (takeWhile (\<lambda>c. c \<notin> set delims) t), drop 1 (dropWhile (\<lambda>c. c \<notin> set delims) t)))"

section \<open>Integers\<close>

definition digit_val :: "char \<Rightarrow> nat" where
  "digit_val c =
     (let k = of_char c in
      if 48 \<le> k \<and> k \<le> 57 then k - 48
      else if 97 \<le> k \<and> k \<le> 122 then k - 87
      else if 65 \<le> k \<and> k \<le> 90 then k - 55
      else 36)"

definition digits_of :: "nat \<Rightarrow> string \<Rightarrow> string" where
  "digits_of base s = takeWhile (\<lambda>c. digit_val c < base) s"

fun digits_val :: "nat \<Rightarrow> nat \<Rightarrow> string \<Rightarrow> nat" where
  "digits_val base acc [] = acc"
| "digits_val base acc (c # cs) = digits_val base (acc * base + digit_val c) cs"

text \<open>An optional sign: whether it is a minus, and the rest.\<close>

definition sign_of :: "string \<Rightarrow> bool \<times> string" where
  "sign_of s = (case s of [] \<Rightarrow> (False, [])
     | c # cs \<Rightarrow> if c = CHR ''-'' then (True, cs) else if c = CHR ''+'' then (False, cs) else (False, s))"

definition LONG_MAX :: int where "LONG_MAX = 2 ^ 63 - 1"
definition LONG_MIN :: int where "LONG_MIN = - (2 ^ 63)"

text \<open>
  \<open>strtol\<close> for the bases 8 and 10: the value, whether anything was converted (\<open>endptr\<close> differs from
  the argument), and whether \<open>errno\<close> is set to ERANGE.
\<close>

definition strtol :: "nat \<Rightarrow> string \<Rightarrow> int \<times> bool \<times> bool" where
  "strtol base s =
     (let (neg, t) = sign_of (dropWhile isspace s);
          ds = digits_of base t;
          v = (if neg then - int (digits_val base 0 ds) else int (digits_val base 0 ds))
      in if ds = [] then (0, False, False)
         else if v > LONG_MAX then (LONG_MAX, True, True)
         else if v < LONG_MIN then (LONG_MIN, True, True)
         else (v, True, False))"

text \<open>\<open>atoi\<close> is the conversion of \<open>strtol\<close>'s result to \<open>int\<close>.\<close>

definition atoi :: "string \<Rightarrow> int" where
  "atoi s = int_of_long (fst (strtol 10 s))"

section \<open>Floating point\<close>

definition lower :: "char \<Rightarrow> char" where
  "lower c = (if 65 \<le> (of_char c :: nat) \<and> (of_char c :: nat) \<le> 90 then char_of ((of_char c :: nat) + 32) else c)"

text \<open>An exponent part, introduced by \<open>e\<close> or \<open>p\<close>; without digits it is not consumed and counts as 0.\<close>

definition exponent_of :: "char \<Rightarrow> string \<Rightarrow> int" where
  "exponent_of e s =
     (case s of [] \<Rightarrow> 0
      | c # cs \<Rightarrow>
          if lower c = e then
            (let (neg, t) = sign_of cs; n = int (digits_val 10 0 (digits_of 10 t)) in if neg then - n else n)
          else 0)"

text \<open>The mantissa in a base: integral digits, fractional digits, and what follows.\<close>

definition mantissa_of :: "nat \<Rightarrow> string \<Rightarrow> string \<times> string \<times> string" where
  "mantissa_of base s =
     (let ip = digits_of base s; r = drop (length ip) s in
      case r of [] \<Rightarrow> (ip, [], [])
      | c # cs \<Rightarrow>
          if c = CHR ''.'' then (let fp = digits_of base cs in (ip, fp, drop (length fp) cs))
          else (ip, [], r))"

definition decimal_val :: "string \<Rightarrow> rat" where
  "decimal_val s =
     (let (ip, fp, r) = mantissa_of 10 s in
      if ip = [] \<and> fp = [] then 0
      else of_nat (digits_val 10 0 (ip @ fp)) * 10 powi (exponent_of CHR ''e'' r - int (length fp)))"

definition hex_val :: "string \<Rightarrow> rat" where
  "hex_val s =
     (let (ip, fp, r) = mantissa_of 16 s in
      if ip = [] \<and> fp = [] then 0
      else of_nat (digits_val 16 0 (ip @ fp)) * 2 powi (exponent_of CHR ''p'' r - 4 * int (length fp)))"

text \<open>\<open>atof\<close>, which is \<open>strtod\<close> without the end pointer.\<close>

definition atof :: "string \<Rightarrow> c_float" where
  "atof s =
     (let (neg, t) = sign_of (dropWhile isspace s); l = map lower t in
      if take 3 l = ''inf'' then Inf neg
      else if take 3 l = ''nan'' then NaN
      else (let v = (if take 2 l = ''0x'' then hex_val (drop 2 t) else decimal_val t)
            in to_double (if neg then - v else v)))"

section \<open>Printing and reading integers\<close>

definition digit_char :: "nat \<Rightarrow> char" where
  "digit_char d = char_of (d + 48)"

fun show_nat :: "nat \<Rightarrow> string" where
  "show_nat n = (if n < 10 then [digit_char n] else show_nat (n div 10) @ [digit_char (n mod 10)])"

declare show_nat.simps [simp del]

lemma digit_val_char [simp]: "d < 10 \<Longrightarrow> digit_val (digit_char d) = d"
  by (simp add: digit_val_def digit_char_def)

lemma digit_char_plain:
  assumes "d < 10"
  shows "\<not> isspace (digit_char d)" and "digit_char d \<noteq> CHR ''-''" and "digit_char d \<noteq> CHR ''+''"
    and "digit_char d \<noteq> CHR '' ''" and "digit_char d \<noteq> CHR ''=''"
proof -
  have n: "of_char (digit_char d) = d + 48" using assms by (simp add: digit_char_def)
  then show "\<not> isspace (digit_char d)" using assms by (simp add: isspace_def)
  show "digit_char d \<noteq> CHR ''-''" "digit_char d \<noteq> CHR ''+''" "digit_char d \<noteq> CHR '' ''" "digit_char d \<noteq> CHR ''=''"
    using n assms by (auto simp: of_char_def)
qed

lemma digits_val_append: "digits_val base acc (xs @ ys) = digits_val base (digits_val base acc xs) ys"
  by (induction xs arbitrary: acc) auto

lemma show_nat_digits: "\<forall>c\<in>set (show_nat n). \<exists>d<10. c = digit_char d"
proof (induction n rule: show_nat.induct)
  case (1 n)
  then show ?case by (subst show_nat.simps) (auto intro: exI [of _ n] exI [of _ "n mod 10"])
qed

lemma show_nat_not_Nil [simp]: "show_nat n \<noteq> []"
  by (subst show_nat.simps) simp

lemma digits_val_show_nat: "digits_val 10 0 (show_nat n) = n"
proof (induction n rule: show_nat.induct)
  case (1 n)
  then show ?case by (subst show_nat.simps) (auto simp: digits_val_append)
qed

lemma digits_of_show_nat:
  assumes "rest = [] \<or> 10 \<le> digit_val (hd rest)"
  shows "digits_of 10 (show_nat n @ rest) = show_nat n"
proof -
  have all: "digit_val c < 10" if "c \<in> set (show_nat n)" for c
    using show_nat_digits [of n] that by auto
  have "takeWhile (\<lambda>c. digit_val c < 10) rest = []" using assms by (cases rest) simp_all
  then show ?thesis
    unfolding digits_of_def using all by (simp add: takeWhile_append2)
qed

text \<open>Reading back a printed number that fits into \<open>long\<close>.\<close>

lemma strtol_show_nat:
  assumes "int n \<le> LONG_MAX"
  shows "strtol 10 (show_nat n) = (int n, True, False)"
proof -
  obtain c cs where s: "show_nat n = c # cs" by (cases "show_nat n") auto
  then obtain d where d: "d < 10" "c = digit_char d" using show_nat_digits [of n] by auto
  have p: "\<not> isspace c" "c \<noteq> CHR ''-''" "c \<noteq> CHR ''+''" unfolding d(2) by (rule digit_char_plain [OF d(1)])+
  then have "dropWhile isspace (show_nat n) = show_nat n" "sign_of (show_nat n) = (False, show_nat n)"
    by (simp_all add: s sign_of_def)
  then show ?thesis
    using assms digits_of_show_nat [of "[]" n] digits_val_show_nat [of n]
    by (simp add: strtol_def LONG_MAX_def LONG_MIN_def)
qed

end
