(* ===== verification/Admin.thy ===== *)
theory Admin
  imports Monitor Init C_String
begin

text \<open>
  The admin tool, admin.c: attaching to the shared balancer, the commands that read and change it, and
  the command prompt. What the tool prints is not modelled; the effects of a command on the balancer
  and on the tool's own globals are; calls that only print are taken not to change \<open>errno\<close>.
  \<open>inet_aton\<close> is an argument, \<open>snmp\<close> the compile-time switch
  \<open>USE_SNMP\<close>.
\<close>

abbreviation ADMIN_MAX_INPUT :: nat where "ADMIN_MAX_INPUT \<equiv> 128"
abbreviation MAXBALANCERS :: nat where "MAXBALANCERS \<equiv> 512"
abbreviation ERANGE :: int where "ERANGE \<equiv> 34"

text \<open>A pointer into one of the two server tables.\<close>

datatype server_ref = Member_ref nat | Clone_ref nat

record ADMIN =
  adm_bal :: BALANCER
  readonly :: bool
  adm_v1 :: int
  subject :: "server_ref option list"
  subject_count :: nat
  extended_output_mode :: bool
  command_return_value :: int
  adm_errno :: int

definition upd_shared :: "(BALANCER \<Rightarrow> BALANCER) \<Rightarrow> ADMIN \<Rightarrow> ADMIN" where
  "upd_shared f a = a\<lparr>adm_bal := f (adm_bal a)\<rparr>"

definition upd_ref :: "server_ref \<Rightarrow> (SERVER \<Rightarrow> SERVER) \<Rightarrow> BALANCER \<Rightarrow> BALANCER" where
  "upd_ref r f b = (case r of Member_ref i \<Rightarrow> upd_member i f b | Clone_ref i \<Rightarrow> upd_clone i f b)"

definition get_ref :: "server_ref \<Rightarrow> BALANCER \<Rightarrow> SERVER" where
  "get_ref r b = (case r of Member_ref i \<Rightarrow> members b ! i | Clone_ref i \<Rightarrow> clones b ! i)"

section \<open>Attaching\<close>

text \<open>
  The outcome of the system calls of \<open>connect_to_shm\<close>: \<open>sh_get\<close> is the first \<open>shmget\<close>, \<open>sh_access\<close>
  says that it failed with EACCES, \<open>sh_get_ro\<close> is the second one; \<open>sh_data\<close> is the segment, if attached.
\<close>

record SHM =
  sh_stat :: bool
  sh_ftok :: bool
  sh_get :: bool
  sh_access :: bool
  sh_get_ro :: bool
  sh_data :: "BALANCER option"

definition connect_to_shm :: "SHM \<Rightarrow> bool \<Rightarrow> ADMIN \<Rightarrow> ADMIN res" where
  "connect_to_shm sh ignore_version_check a =
     (if \<not> sh_stat sh then Inl (Process_exit (- 1))
      else if \<not> sh_ftok sh then Inl (Process_exit (- 1))
      else if \<not> sh_get sh \<and> \<not> (sh_access sh \<and> sh_get_ro sh) then Inl (Process_exit (- 1))
      else
        (let a = (if sh_get sh then a else a\<lparr>readonly := True\<rparr>) in
         case sh_data sh of None \<Rightarrow> Inl (Process_exit (- 1))
         | Some b \<Rightarrow>
             if \<not> strncmp_eq (version b) OCTOPUS_VERSION 16 \<and> \<not> ignore_version_check then Inl (Process_exit (- 1))
             else if alive b = 0 then Inl (Process_exit (- 1))
             else Inr (a\<lparr>adm_bal := b\<rparr>)))"

section \<open>The servers a command works on\<close>

definition live_server :: "SERVER \<Rightarrow> bool" where
  "live_server s \<longleftrightarrow> srv_status s \<noteq> SERVER_STATE_FREE \<and> srv_status s \<noteq> SERVER_STATE_DELETED"

definition add_subject :: "server_ref \<Rightarrow> ADMIN \<Rightarrow> ADMIN res" where
  "add_subject r a =
     (if subject_count a < length (subject a)
      then Inr (a\<lparr>subject := (subject a)[subject_count a := Some r], subject_count := subject_count a + 1\<rparr>)
      else Inl Out_of_bounds)"

fun add_all :: "(nat \<Rightarrow> server_ref) \<Rightarrow> nat list \<Rightarrow> ADMIN \<Rightarrow> ADMIN res" where
  "add_all ref [] a = Inr a"
| "add_all ref (i # is) a =
     (if live_server (get_ref (ref i) (adm_bal a)) then res_bind (add_subject (ref i) a) (add_all ref is)
      else add_all ref is a)"

text \<open>
  The server with the number \<open>v1\<close>: the slot's status is read before \<open>v1\<close> is compared with the number of
  servers. The boolean says that the server was added.
\<close>

definition add_by_id :: "(nat \<Rightarrow> server_ref) \<Rightarrow> SERVER list \<Rightarrow> nat \<Rightarrow> ADMIN \<Rightarrow> (bool \<times> ADMIN) res" where
  "add_by_id ref srvs n a =
     (if adm_v1 a < 0 \<or> adm_v1 a \<ge> int (length srvs) then Inl Out_of_bounds
      else if live_server (srvs ! nat (adm_v1 a)) \<and> adm_v1 a < int n \<and> adm_v1 a \<ge> 0
      then res_bind (add_subject (ref (nat (adm_v1 a))) a) (\<lambda>a. Inr (True, a))
      else Inr (False, a))"

text \<open>The member half and the clone half of \<open>set_subject\<close>, the same code on the two tables.\<close>

definition pick_subjects ::
  "bool \<Rightarrow> bool \<Rightarrow> (nat \<Rightarrow> server_ref) \<Rightarrow> SERVER list \<Rightarrow> nat \<Rightarrow> ADMIN \<Rightarrow> (bool \<times> ADMIN) res" where
  "pick_subjects wanted all_servers ref srvs n a =
     (if wanted \<or> all_servers then
        (if all_servers then res_bind (add_all ref [0..<n] a) (\<lambda>a. Inr (True, a))
         else add_by_id ref srvs n a)
      else Inr (True, a))"

text \<open>The error test of the commands after \<open>strtol\<close>.\<close>

definition strtol_failed :: "ADMIN \<Rightarrow> bool" where
  "strtol_failed a \<longleftrightarrow> adm_errno a = ERANGE \<and> (adm_v1 a = LONG_MAX \<or> adm_v1 a = LONG_MIN)
     \<or> adm_errno a \<noteq> 0 \<and> adm_v1 a = 0"

definition read_v1 :: "string \<Rightarrow> ADMIN \<Rightarrow> ADMIN" where
  "read_v1 s a =
     (case strtol 10 s of (v, conv, erange) \<Rightarrow>
        a\<lparr>adm_v1 := v, adm_errno := (if erange then ERANGE else adm_errno a)\<rparr>)"

definition set_subject :: "string \<Rightarrow> string \<Rightarrow> bool \<Rightarrow> bool \<Rightarrow> ADMIN \<Rightarrow> (int \<times> ADMIN) res" where
  "set_subject type sid admin_req multi_target a =
     (let a = a\<lparr>adm_errno := 0, subject_count := 0\<rparr>;
          all_servers = (strncmp_eq sid ''a'' 1 \<and> multi_target) in
      if admin_req \<and> readonly a then Inr (- 1, a)
      else if strncmp_eq sid ''a'' 1 \<and> \<not> multi_target then Inr (- 1, a)
      else
        (let a = (if all_servers then a else read_v1 sid a) in
         if \<not> all_servers \<and> strtol_failed a then Inr (- 1, a)
         else
           res_bind (pick_subjects (strncmp_eq type ''m'' 1) all_servers Member_ref (members (adm_bal a)) (nmembers (adm_bal a)) a)
             (\<lambda>(ok, a). if \<not> ok then Inr (- 1, a)
              else
                res_bind (pick_subjects (strncmp_eq type ''c'' 1) all_servers Clone_ref (clones (adm_bal a)) (nclones (adm_bal a)) a)
                  (\<lambda>(ok, a). if \<not> ok then Inr (- 1, a)
                   else if \<not> strncmp_eq type ''c'' 1 \<and> \<not> strncmp_eq type ''m'' 1 \<and> \<not> strncmp_eq type ''a'' 1
                   then Inr (- 1, a) else Inr (0, a)))))"

section \<open>Commands on one server\<close>

text \<open>
  The commands with a single target write through \<open>subject[0]\<close>, whatever \<open>set_subject\<close> has left there.
\<close>

definition single_target :: "string \<Rightarrow> string \<Rightarrow> (SERVER \<Rightarrow> SERVER) \<Rightarrow> ADMIN \<Rightarrow> (int \<times> ADMIN) res" where
  "single_target type sid f a =
     res_bind (set_subject type sid True False a) (\<lambda>(status, a).
       if status \<noteq> 0 then Inr (- 1, a)
       else res_bind (deref (subject a ! 0)) (\<lambda>r. Inr (0, upd_shared (upd_ref r f) a)))"

definition cmd_standby :: "string \<Rightarrow> string \<Rightarrow> ADMIN \<Rightarrow> (int \<times> ADMIN) res" where
  "cmd_standby type sid = single_target type sid (\<lambda>s.
     if srv_standby_state s = STANDBY_STATE_TRUE then s\<lparr>srv_standby_state := STANDBY_STATE_FALSE\<rparr>
     else s\<lparr>srv_standby_state := STANDBY_STATE_TRUE\<rparr>)"

definition cmd_delete :: "string \<Rightarrow> string \<Rightarrow> ADMIN \<Rightarrow> (int \<times> ADMIN) res" where
  "cmd_delete type sid = single_target type sid (\<lambda>s. s\<lparr>srv_status := SERVER_STATE_DELETED\<rparr>)"

definition cmd_maxl :: "string \<Rightarrow> string \<Rightarrow> string \<Rightarrow> ADMIN \<Rightarrow> (int \<times> ADMIN) res" where
  "cmd_maxl type sid value = single_target type sid (\<lambda>s. s\<lparr>srv_maxl := f_of_double (atof value)\<rparr>)"

definition cmd_maxc :: "string \<Rightarrow> string \<Rightarrow> string \<Rightarrow> ADMIN \<Rightarrow> (int \<times> ADMIN) res" where
  "cmd_maxc type sid value = single_target type sid (\<lambda>s. s\<lparr>srv_maxc := atoi value\<rparr>)"

section \<open>Commands on one or all servers\<close>

fun for_subjects :: "(SERVER \<Rightarrow> SERVER) \<Rightarrow> nat list \<Rightarrow> ADMIN \<Rightarrow> ADMIN res" where
  "for_subjects f [] a = Inr a"
| "for_subjects f (i # is) a =
     res_bind (deref (subject a ! i)) (\<lambda>r. for_subjects f is (upd_shared (upd_ref r f) a))"

definition enable_server :: "SERVER \<Rightarrow> SERVER" where
  "enable_server s = (if srv_status s = SERVER_STATE_DISABLED then s\<lparr>srv_status := SERVER_STATE_ENABLED\<rparr> else s)"

definition disable_server :: "SERVER \<Rightarrow> SERVER" where
  "disable_server s = (if srv_status s = SERVER_STATE_ENABLED \<or> srv_status s = SERVER_STATE_FAILED
     then s\<lparr>srv_status := SERVER_STATE_DISABLED\<rparr> else s)"

definition cmd_enable :: "string \<Rightarrow> string \<Rightarrow> ADMIN \<Rightarrow> (int \<times> ADMIN) res" where
  "cmd_enable type sid a =
     res_bind (set_subject type sid True True a) (\<lambda>(status, a).
       if status \<noteq> 0 then Inr (- 1, a)
       else res_bind (for_subjects enable_server [0..<subject_count a] a)
              (\<lambda>a. Inr (0, upd_shared set_cloned_state a)))"

definition cmd_disable :: "string \<Rightarrow> string \<Rightarrow> ADMIN \<Rightarrow> (int \<times> ADMIN) res" where
  "cmd_disable type sid a =
     res_bind (set_subject type sid True True a) (\<lambda>(status, a).
       if status \<noteq> 0 then Inr (- 1, a)
       else res_bind (for_subjects disable_server [0..<subject_count a] a)
              (\<lambda>a. Inr (0, upd_shared set_cloned_state a)))"

text \<open>The message of \<open>cmd_reset\<close> for at most one server reads the name through \<open>subject[0]\<close>.\<close>

definition cmd_reset :: "string \<Rightarrow> string \<Rightarrow> ADMIN \<Rightarrow> (int \<times> ADMIN) res" where
  "cmd_reset type sid a =
     res_bind (set_subject type sid True True a) (\<lambda>(status, a).
       if status \<noteq> 0 then Inr (- 1, a)
       else res_bind (for_subjects (\<lambda>s. s\<lparr>srv_bsent := 0, srv_brecv := 0, srv_completed_c := 0\<rparr>) [0..<subject_count a] a)
              (\<lambda>a. if subject_count a > 1 then Inr (0, a)
                   else res_bind (deref (subject a ! 0)) (\<lambda>r. Inr (0, a))))"

section \<open>Commands on the balancer\<close>

definition cmd_create ::
  "(string \<Rightarrow> 32 word option) \<Rightarrow> bool \<Rightarrow> string \<Rightarrow> string \<Rightarrow> string \<Rightarrow> string \<Rightarrow> ADMIN \<Rightarrow> (int \<times> ADMIN) res" where
  "cmd_create inet_aton malloc_ok type name ip port a =
     (let a = a\<lparr>adm_errno := 0\<rparr> in
      if readonly a then Inr (- 1, a)
      else if length ip > 15 then Inr (- 1, a)
      else if \<not> strncmp_eq type ''m'' 1 \<and> \<not> strncmp_eq type ''c'' 1 then Inr (- 1, a)
      else
        (let cloneServer = (if strncmp_eq type ''m'' 1 then SERVER_CLONE_FALSE else SERVER_CLONE_TRUE);
             serverName = take SERVERNAME_MAX_LENGTH name in
         case inet_aton ip of None \<Rightarrow> Inr (- 1, a)
         | Some serverIP \<Rightarrow>
             (let serverPort = atoi port in
              if \<not> serverPort > 0 then Inr (- 1, a)
              else
                res_bind (create_balancer_server malloc_ok (adm_bal a) cloneServer serverName SERVER_STATE_DISABLED
                    STANDBY_STATE_FALSE serverPort serverIP (default_maxc (adm_bal a)) (default_maxl (adm_bal a)))
                  (\<lambda>(status, b). Inr (if status = 0 then 0 else - 1, a\<lparr>adm_bal := b\<rparr>)))))"

definition cmd_algorithm :: "bool \<Rightarrow> string \<Rightarrow> ADMIN \<Rightarrow> int \<times> ADMIN" where
  "cmd_algorithm snmp value a =
     (let set_alg = (\<lambda>x. upd_shared (\<lambda>b. b\<lparr>algorithm := x\<rparr>) a) in
      if readonly a then (- 1, a)
      else if strncmp_eq value ''rr'' 2 then (0, set_alg ALGORITHM_RR)
      else if strncmp_eq value ''lc'' 2 then (0, set_alg ALGORITHM_LC)
      else if strncmp_eq value ''ll'' 2 then (if snmp then (0, set_alg ALGORITHM_LL) else (- 1, a))
      else if strncmp_eq value ''hash'' 4 then (0, set_alg ALGORITHM_HASH)
      else if strncmp_eq value ''static'' 5 then (0, set_alg ALGORITHM_STATIC)
      else (0, a))"

definition cmd_hri :: "string \<Rightarrow> ADMIN \<Rightarrow> int \<times> ADMIN" where
  "cmd_hri value a =
     (if readonly a then (- 1, a)
      else let a = read_v1 value a in
        if strtol_failed a then (- 1, a)
        else if adm_v1 a < 0 then (- 1, a)
        else (0, upd_shared (\<lambda>b. b\<lparr>hash_rebalance_interval := int_of_long (adm_v1 a)\<rparr>) a))"

definition cmd_hrs :: "string \<Rightarrow> ADMIN \<Rightarrow> int \<times> ADMIN" where
  "cmd_hrs value a =
     (if readonly a then (- 1, a)
      else let a = read_v1 value a in
        if strtol_failed a then (- 1, a)
        else if adm_v1 a < 0 \<or> adm_v1 a > 100 then (- 1, a)
        else (0, upd_shared (\<lambda>b. b\<lparr>hash_rebalance_size := int_of_long (adm_v1 a)\<rparr>) a))"

definition cmd_hrt :: "string \<Rightarrow> ADMIN \<Rightarrow> int \<times> ADMIN" where
  "cmd_hrt value a =
     (if readonly a then (- 1, a)
      else let a = read_v1 value a in
        if strtol_failed a then (- 1, a)
        else if adm_v1 a < 0 \<or> adm_v1 a > 100 then (- 1, a)
        else (0, upd_shared (\<lambda>b. b\<lparr>hash_rebalance_threshold := int_of_long (adm_v1 a)\<rparr>) a))"

definition cmd_monitor :: "string \<Rightarrow> ADMIN \<Rightarrow> int \<times> ADMIN" where
  "cmd_monitor value a =
     (if readonly a then (- 1, a)
      else let a = read_v1 value a in
        if strtol_failed a then (- 1, a)
        else (0, upd_shared (\<lambda>b. b\<lparr>monitor_interval := word_of_int (adm_v1 a)\<rparr>) a))"

definition cmd_debug :: "string \<Rightarrow> ADMIN \<Rightarrow> int \<times> ADMIN" where
  "cmd_debug value a =
     (if readonly a then (- 1, a)
      else let a = read_v1 value a in
        if adm_errno a \<noteq> 0 then (- 1, a)
        else (0, upd_shared (\<lambda>b. b\<lparr>debug_level := int_of_long (adm_v1 a)\<rparr>) a))"

definition cmd_clone_mode :: "string \<Rightarrow> ADMIN \<Rightarrow> int \<times> ADMIN" where
  "cmd_clone_mode value a =
     (if readonly a then (- 1, a)
      else if strncmp_eq value ''e'' 1 then (0, upd_shared (\<lambda>b. set_cloned_state (b\<lparr>clone_mode := CLONE_MODE_ON\<rparr>)) a)
      else if strncmp_eq value ''d'' 1 then (0, upd_shared (\<lambda>b. set_cloned_state (b\<lparr>clone_mode := CLONE_MODE_OFF\<rparr>)) a)
      else (- 1, a))"

definition cmd_overload_mode :: "string \<Rightarrow> ADMIN \<Rightarrow> int \<times> ADMIN" where
  "cmd_overload_mode value a =
     (if readonly a then (- 1, a)
      else if strncmp_eq value ''r'' 1 then (0, upd_shared (\<lambda>b. b\<lparr>overload_mode := OVERLOAD_MODE_RELAXED\<rparr>) a)
      else if strncmp_eq value ''s'' 1 then (0, upd_shared (\<lambda>b. b\<lparr>overload_mode := OVERLOAD_MODE_STRICT\<rparr>) a)
      else (- 1, a))"

definition cmd_snmp :: "string option \<Rightarrow> ADMIN \<Rightarrow> int \<times> ADMIN" where
  "cmd_snmp value a =
     (if readonly a then (- 1, a)
      else if snmp_status (adm_bal a) = SNMP_NOT_INCLUDED then (- 1, a)
      else case value of None \<Rightarrow> (- 1, a)
        | Some v \<Rightarrow>
            (let a = (if strncmp_eq v ''on'' 2 then upd_shared (\<lambda>b. b\<lparr>snmp_status := SNMP_ENABLED\<rparr>) a else a);
                 a = (if strncmp_eq v ''off'' 3 then upd_shared (\<lambda>b. b\<lparr>snmp_status := SNMP_DISABLED\<rparr>) a else a)
             in (0, a)))"

definition cmd_kill :: "ADMIN \<Rightarrow> (int \<times> ADMIN) res" where
  "cmd_kill a = (if readonly a then Inr (- 1, a) else Inl (Process_exit 0))"

section \<open>The command prompt\<close>

text \<open>
  \<open>ad_aton\<close> and \<open>ad_malloc\<close> serve \<open>create\<close>; \<open>ad_files\<close> are the regular files of the run directory (none
  when it cannot be read), \<open>ad_choice\<close> is the line typed to choose among them, \<open>ad_shm\<close> the outcome of
  attaching to each, and \<open>ad_ignore\<close> the option to ignore the version.
\<close>

record ADMIN_ENV =
  ad_aton :: "string \<Rightarrow> 32 word option"
  ad_malloc :: bool
  ad_snmp :: bool
  ad_files :: "string list"
  ad_choice :: string
  ad_shm :: "string \<Rightarrow> SHM"
  ad_ignore :: bool

definition cmd_scan_for_instances :: "ADMIN_ENV \<Rightarrow> ADMIN \<Rightarrow> (int \<times> ADMIN) res" where
  "cmd_scan_for_instances env a =
     (let a = a\<lparr>adm_errno := 0\<rparr>; balancers = ad_files env; counter = length balancers;
          attach = (\<lambda>i. res_bind (connect_to_shm (ad_shm env (balancers ! i)) (ad_ignore env) a) (\<lambda>a. Inr (0, a))) in
      if counter > MAXBALANCERS then Inl Out_of_bounds
      else if counter > 1 then
        (if atoi (ad_choice env) > int counter \<or> atoi (ad_choice env) \<le> 0 then Inl (Process_exit 1)
         else attach (nat (atoi (ad_choice env) - 1)))
      else if counter = 1 then attach 0
      else Inl (Process_exit 1))"

text \<open>The five words of the input, NULL where there is none, and the count the dispatch uses.\<close>

definition arguments :: "string \<Rightarrow> string option \<times> string option \<times> string option \<times> string option \<times> string option" where
  "arguments input =
     (let (a1, r1) = strtok '' '' input; (a2, r2) = strtok '' '' r1; (a3, r3) = strtok '' '' r2;
          (a4, r4) = strtok '' '' r3; (a5, r5) = strtok '' '' r4
      in (a1, a2, a3, a4, a5))"

definition number_of_args :: "string option \<times> string option \<times> string option \<times> string option \<times> string option \<Rightarrow> nat" where
  "number_of_args args =
     (case args of (a1, a2, a3, a4, a5) \<Rightarrow>
        if a5 \<noteq> None then 5 else if a4 \<noteq> None then 4 else if a3 \<noteq> None then 3
        else if a2 \<noteq> None then 2 else if a1 \<noteq> None then 1 else 0)"

text \<open>A command's result becomes the return value of the tool; the wrong number of words changes nothing.\<close>

definition ret :: "(int \<times> ADMIN) res \<Rightarrow> ADMIN res" where
  "ret r = res_bind r (\<lambda>(v, a). Inr (a\<lparr>command_return_value := v\<rparr>))"

definition dispatch_target ::
  "(string \<Rightarrow> string \<Rightarrow> ADMIN \<Rightarrow> (int \<times> ADMIN) res) \<Rightarrow> nat \<Rightarrow> string option \<Rightarrow> string option \<Rightarrow> ADMIN \<Rightarrow> ADMIN res" where
  "dispatch_target cmd n a2 a3 a =
     (if n = 2 then ret (cmd ''m'' (the a2) a)
      else if n = 3 then ret (cmd (the a2) (the a3) a)
      else Inr a)"

definition dispatch_value ::
  "(string \<Rightarrow> string \<Rightarrow> string \<Rightarrow> ADMIN \<Rightarrow> (int \<times> ADMIN) res) \<Rightarrow> nat \<Rightarrow> string option \<Rightarrow> string option \<Rightarrow> string option \<Rightarrow> ADMIN \<Rightarrow> ADMIN res" where
  "dispatch_value cmd n a2 a3 a4 a =
     (if n = 3 then ret (cmd ''m'' (the a2) (the a3) a)
      else if n = 4 then ret (cmd (the a2) (the a3) (the a4) a)
      else Inr a)"

definition dispatch_setting :: "(string \<Rightarrow> ADMIN \<Rightarrow> int \<times> ADMIN) \<Rightarrow> nat \<Rightarrow> string option \<Rightarrow> ADMIN \<Rightarrow> ADMIN res" where
  "dispatch_setting cmd n a2 a = (if n = 2 then ret (Inr (cmd (the a2) a)) else Inr a)"

definition run_command :: "ADMIN_ENV \<Rightarrow> string \<Rightarrow> ADMIN \<Rightarrow> ADMIN res" where
  "run_command env input a =
     (let args = arguments input; n = number_of_args args in
      case args of (a1, a2, a3, a4, a5) \<Rightarrow>
      res_bind (deref a1) (\<lambda>cmd.
        if cmd = ''\<newline>'' then Inr a
        else if strncmp_eq cmd ''scan'' 4 then ret (cmd_scan_for_instances env (a\<lparr>readonly := False\<rparr>))
        else if strncmp_eq cmd ''standby'' 7 then dispatch_target cmd_standby n a2 a3 a
        else if strncmp_eq cmd ''snmp'' 4 then ret (Inr (cmd_snmp a2 a))
        else if strncmp_eq cmd ''clone'' 5 then dispatch_setting cmd_clone_mode n a2 a
        else if strncmp_eq cmd ''s'' 1 then ret (Inr (0, a))
        else if strncmp_eq cmd ''?'' 1 then ret (Inr (0, a))
        else if strncmp_eq cmd ''exit'' 4 then Inl (Process_exit 0)
        else if strncmp_eq cmd ''q'' 1 then Inl (Process_exit 0)
        else if strncmp_eq cmd ''x'' 1 then Inr (a\<lparr>extended_output_mode := \<not> extended_output_mode a\<rparr>)
        else if strncmp_eq cmd ''ex'' 2 then ret (Inr (0, a))
        else if strncmp_eq cmd ''delete'' 6 then dispatch_target cmd_delete n a2 a3 a
        else if strncmp_eq cmd ''monitor'' 7 then dispatch_setting cmd_monitor n a2 a
        else if strncmp_eq cmd ''debug'' 5 then dispatch_setting cmd_debug n a2 a
        else if strncmp_eq cmd ''hrt'' 3 then dispatch_setting cmd_hrt n a2 a
        else if strncmp_eq cmd ''hrs'' 3 then dispatch_setting cmd_hrs n a2 a
        else if strncmp_eq cmd ''hri'' 3 then dispatch_setting cmd_hri n a2 a
        else if strncmp_eq cmd ''i'' 1 then ret (Inr (0, a))
        else if strncmp_eq cmd ''a'' 1 then dispatch_setting (cmd_algorithm (ad_snmp env)) n a2 a
        else if strncmp_eq cmd ''kill'' 4 then ret (cmd_kill a)
        else if strncmp_eq cmd ''c'' 1 then
          (if n = 4 then ret (cmd_create (ad_aton env) (ad_malloc env) ''m'' (the a2) (the a3) (the a4) a)
           else if n = 5 then ret (cmd_create (ad_aton env) (ad_malloc env) (the a2) (the a3) (the a4) (the a5) a)
           else Inr a)
        else if strncmp_eq cmd ''maxl'' 4 then dispatch_value cmd_maxl n a2 a3 a4 a
        else if strncmp_eq cmd ''maxc'' 4 then dispatch_value cmd_maxc n a2 a3 a4 a
        else if strncmp_eq cmd ''r'' 1 then dispatch_target cmd_reset n a2 a3 a
        else if strncmp_eq cmd ''e'' 1 then dispatch_target cmd_enable n a2 a3 a
        else if strncmp_eq cmd ''d'' 1 then dispatch_target cmd_disable n a2 a3 a
        else if strncmp_eq cmd ''o'' 1 then dispatch_setting cmd_overload_mode n a2 a
        else Inr a))"

text \<open>One turn of the interactive prompt, and the single command of the option \<open>-e\<close>.\<close>

definition command_prompt :: "ADMIN_ENV \<Rightarrow> string \<Rightarrow> ADMIN \<Rightarrow> ADMIN res" where
  "command_prompt env input a =
     (if alive (adm_bal a) \<noteq> 1 then Inl (Process_exit 0)
      else if length input \<ge> ADMIN_MAX_INPUT - 1 then Inl (Process_exit 1)
      else run_command env input a)"

definition command_line :: "ADMIN_ENV \<Rightarrow> string \<Rightarrow> ADMIN \<Rightarrow> ADMIN res" where
  "command_line env cli_input a =
     (if length cli_input \<ge> ADMIN_MAX_INPUT then Inl Out_of_bounds
      else if length cli_input \<ge> ADMIN_MAX_INPUT - 1 then Inl (Process_exit 1)
      else command_prompt env cli_input a)"

end
