(* ===== verification/Admin_Props.thy ===== *)
theory Admin_Props
  imports Admin Monitor_Props
begin

text \<open>
  Properties of the admin tool: commands in read-only mode change nothing, commands on servers that the
  tool has looked up keep the shared balancer safe for the server process, what \<open>set_subject\<close> selects,
  and the stale pointer that one combination of arguments writes through.
\<close>

section \<open>Looking up the servers of a command\<close>

definition live_ref :: "server_ref \<Rightarrow> BALANCER \<Rightarrow> bool" where
  "live_ref r b \<longleftrightarrow> (case r of Member_ref i \<Rightarrow> i < nmembers b | Clone_ref i \<Rightarrow> i < nclones b) \<and> live_server (get_ref r b)"

text \<open>The first \<open>subject_count\<close> entries are exactly the servers \<open>rs\<close>, in this order.\<close>

definition subjects_are :: "server_ref list \<Rightarrow> ADMIN \<Rightarrow> bool" where
  "subjects_are rs a \<longleftrightarrow> subject_count a = length rs \<and> length rs \<le> length (subject a) \<and> take (length rs) (subject a) = map Some rs"

lemma subjects_areD:
  "subjects_are rs a \<Longrightarrow> i < subject_count a \<Longrightarrow> subject a ! i = Some (rs ! i)"
  by (metis nth_map nth_take subjects_are_def)

lemma subjects_are_one: "subjects_are [x] a \<Longrightarrow> subject_count a = 1 \<and> subject a ! 0 = Some x"
  using subjects_areD [of "[x]" a 0] by (simp add: subjects_are_def)

lemma add_subject_ok:
  assumes "subjects_are rs a" and "length rs < length (subject a)"
  shows "add_subject r a = Inr (a\<lparr>subject := (subject a)[length rs := Some r], subject_count := length rs + 1\<rparr>)"
    and "subjects_are (rs @ [r]) (a\<lparr>subject := (subject a)[length rs := Some r], subject_count := length rs + 1\<rparr>)"
  using assms by (simp_all add: add_subject_def subjects_are_def take_Suc_conv_app_nth)

lemma add_all_ok:
  assumes "subjects_are rs a" and "length rs + length is \<le> length (subject a)"
  shows "\<exists>a'. add_all ref is a = Inr a' \<and> adm_bal a' = adm_bal a \<and> readonly a' = readonly a
    \<and> length (subject a') = length (subject a)
    \<and> subjects_are (rs @ map ref (filter (\<lambda>i. live_server (get_ref (ref i) (adm_bal a))) is)) a'"
  using assms
proof (induction "is" arbitrary: rs a)
  case (Cons i "is")
  show ?case
  proof (cases "live_server (get_ref (ref i) (adm_bal a))")
    case True
    let ?a = "a\<lparr>subject := (subject a)[length rs := Some (ref i)], subject_count := length rs + 1\<rparr>"
    have len: "length rs < length (subject a)" using Cons.prems(2) by simp
    have "subjects_are (rs @ [ref i]) ?a" by (rule add_subject_ok(2) [OF Cons.prems(1) len])
    from Cons.IH [OF this] Cons.prems(2) show ?thesis
      using True add_subject_ok(1) [OF Cons.prems(1) len, of "ref i"] by simp
  next
    case False
    then show ?thesis using Cons by simp
  qed
qed simp

text \<open>What \<open>set_subject\<close> selects: all live servers, or the one with the given number.\<close>

definition all_subjects :: "BALANCER \<Rightarrow> server_ref list" where
  "all_subjects b = map Member_ref (filter (\<lambda>i. live_server (members b ! i)) [0..<nmembers b])
     @ map Clone_ref (filter (\<lambda>i. live_server (clones b ! i)) [0..<nclones b])"

lemma set_subject_all:
  assumes "strncmp_eq sid ''a'' 1" and "\<not> (req \<and> readonly a)" and ok: "balancer_ok (adm_bal a)" and len: "length (subject a) = 2 * MAXSERVERS"
  shows "\<exists>st a'. set_subject type sid req True a = Inr (st, a') \<and> adm_bal a' = adm_bal a \<and> readonly a' = readonly a
    \<and> length (subject a') = length (subject a) \<and> subjects_are (all_subjects (adm_bal a)) a'
    \<and> (st = 0 \<longleftrightarrow> strncmp_eq type ''c'' 1 \<or> strncmp_eq type ''m'' 1 \<or> strncmp_eq type ''a'' 1)"
proof -
  let ?b = "adm_bal a" and ?a = "a\<lparr>adm_errno := 0, subject_count := 0\<rparr>"
  have n: "nmembers ?b \<le> MAXSERVERS" "nclones ?b \<le> MAXSERVERS" using ok table_okD(2) by (auto simp: balancer_ok_def)
  let ?ms = "map Member_ref (filter (\<lambda>i. live_server (members ?b ! i)) [0..<nmembers ?b])"
  have lms: "length ?ms \<le> nmembers ?b" using length_filter_le [of "\<lambda>i. live_server (members ?b ! i)" "[0..<nmembers ?b]"] by simp
  have "subjects_are [] ?a" by (simp add: subjects_are_def)
  then have "\<exists>a'. add_all Member_ref [0..<nmembers ?b] ?a = Inr a' \<and> adm_bal a' = adm_bal ?a \<and> readonly a' = readonly ?a
    \<and> length (subject a') = length (subject ?a)
    \<and> subjects_are ([] @ map Member_ref (filter (\<lambda>i. live_server (get_ref (Member_ref i) (adm_bal ?a))) [0..<nmembers ?b])) a'"
    by (rule add_all_ok) (use n len in simp)
  then obtain a1 where a1: "add_all Member_ref [0..<nmembers ?b] ?a = Inr a1" "adm_bal a1 = ?b" "readonly a1 = readonly a"
    "length (subject a1) = length (subject a)" "subjects_are ?ms a1" by (auto simp: get_ref_def)
  have "\<exists>a'. add_all Clone_ref [0..<nclones ?b] a1 = Inr a' \<and> adm_bal a' = adm_bal a1 \<and> readonly a' = readonly a1
    \<and> length (subject a') = length (subject a1)
    \<and> subjects_are (?ms @ map Clone_ref (filter (\<lambda>i. live_server (get_ref (Clone_ref i) (adm_bal a1))) [0..<nclones ?b])) a'"
    by (rule add_all_ok [OF a1(5)]) (use n len lms a1(4) in simp)
  then obtain a2 where a2: "add_all Clone_ref [0..<nclones ?b] a1 = Inr a2" "adm_bal a2 = ?b" "readonly a2 = readonly a"
    "length (subject a2) = length (subject a)" "subjects_are (all_subjects ?b) a2"
    using a1 by (auto simp: get_ref_def all_subjects_def)
  show ?thesis using assms(1,2) a1 a2 by (auto simp: set_subject_def pick_subjects_def Let_def)
qed

lemma add_by_id_Inr:
  assumes "add_by_id ref srvs n a = Inr (ok, a')" and "subject_count a = 0" and "subject a \<noteq> []"
  shows "adm_bal a' = adm_bal a" and "readonly a' = readonly a"
    and "ok \<longleftrightarrow> 0 \<le> adm_v1 a \<and> adm_v1 a < int n \<and> live_server (srvs ! nat (adm_v1 a))"
    and "ok \<Longrightarrow> subjects_are [ref (nat (adm_v1 a))] a'" and "\<not> ok \<Longrightarrow> subject_count a' = 0"
    and "length (subject a') = length (subject a)"
  using assms
  by (auto simp: add_by_id_def add_subject_def res_bind_eq_Inr subjects_are_def take_Suc_conv_app_nth Suc_le_eq split: if_splits)

lemma starts_with_one: "strncmp_eq s [c] (Suc 0) \<longleftrightarrow> (\<exists>t. s = c # t)"
  by (cases s) (auto simp: strncmp_eq_def)

lemma set_subject_one:
  assumes r: "set_subject type sid req multi a = Inr (st, a')" and sid: "\<not> strncmp_eq sid ''a'' 1" and ne: "subject a \<noteq> []"
  shows "adm_bal a' = adm_bal a \<and> readonly a' = readonly a \<and> length (subject a') = length (subject a)
    \<and> (st = 0 \<longrightarrow> (\<exists>x. live_ref x (adm_bal a) \<and> subjects_are [x] a')
        \<or> strncmp_eq type ''a'' 1 \<and> subject_count a' = 0 \<and> subject a' = subject a)"
proof (cases "req \<and> readonly a \<or> strtol_failed (read_v1 sid (a\<lparr>adm_errno := 0, subject_count := 0\<rparr>))")
  case True
  then show ?thesis using r sid by (auto simp: set_subject_def Let_def read_v1_def split: prod.splits if_splits)
next
  case False
  define a0 where "a0 = read_v1 sid (a\<lparr>adm_errno := 0, subject_count := 0\<rparr>)"
  have a0: "adm_bal a0 = adm_bal a" "readonly a0 = readonly a" "subject a0 = subject a" "subject_count a0 = 0"
    by (simp_all add: a0_def read_v1_def split: prod.splits)
  consider (m) "strncmp_eq type ''m'' 1" | (c) "strncmp_eq type ''c'' 1" | (o) "\<not> strncmp_eq type ''m'' 1" "\<not> strncmp_eq type ''c'' 1"
    by blast
  then show ?thesis
  proof cases
    case m
    then have c: "\<not> strncmp_eq type ''c'' 1" by (auto simp: starts_with_one)
    obtain ok a1 where 1: "add_by_id Member_ref (members (adm_bal a0)) (nmembers (adm_bal a0)) a0 = Inr (ok, a1)"
      "st = (if ok then 0 else - 1)" "a' = a1"
      using r sid m c False
      by (auto simp: set_subject_def pick_subjects_def Let_def a0_def [symmetric] res_bind_eq_Inr split: if_splits)
    show ?thesis using add_by_id_Inr [OF 1(1) a0(4)] a0 1(2,3) ne by (cases ok) (auto simp: live_ref_def get_ref_def)
  next
    case c
    then have m: "\<not> strncmp_eq type ''m'' 1" by (auto simp: starts_with_one)
    obtain ok a1 where 1: "add_by_id Clone_ref (clones (adm_bal a0)) (nclones (adm_bal a0)) a0 = Inr (ok, a1)"
      "st = (if ok then 0 else - 1)" "a' = a1"
      using r sid m c False
      by (auto simp: set_subject_def pick_subjects_def Let_def a0_def [symmetric] res_bind_eq_Inr split: if_splits)
    show ?thesis using add_by_id_Inr [OF 1(1) a0(4)] a0 1(2,3) ne by (cases ok) (auto simp: live_ref_def get_ref_def)
  next
    case o
    then show ?thesis using r sid False a0 by (auto simp: set_subject_def pick_subjects_def Let_def a0_def [symmetric] split: if_splits)
  qed
qed

lemma set_subject_single_all:
  assumes "strncmp_eq sid ''a'' 1"
  shows "set_subject type sid req False a = Inr (- 1, a\<lparr>adm_errno := 0, subject_count := 0\<rparr>)"
  using assms by (simp add: set_subject_def Let_def)

lemma add_all_frame:
  assumes "add_all ref is a = Inr a'"
  shows "adm_bal a' = adm_bal a \<and> readonly a' = readonly a \<and> length (subject a') = length (subject a)"
  using assms
  by (induction ref "is" a rule: add_all.induct) (auto simp: res_bind_eq_Inr add_subject_def split: if_splits)

lemma add_by_id_frame:
  assumes "add_by_id ref srvs n a = Inr (ok, a')"
  shows "adm_bal a' = adm_bal a \<and> readonly a' = readonly a \<and> length (subject a') = length (subject a)"
  using assms by (auto simp: add_by_id_def add_subject_def res_bind_eq_Inr split: if_splits)

lemma pick_subjects_frame:
  assumes "pick_subjects w al ref srvs n a = Inr (ok, a')"
  shows "adm_bal a' = adm_bal a \<and> readonly a' = readonly a \<and> length (subject a') = length (subject a)"
  using assms by (auto simp: pick_subjects_def res_bind_eq_Inr split: if_splits dest!: add_all_frame add_by_id_frame)

lemma read_v1_simps [simp]:
  "adm_bal (read_v1 s a) = adm_bal a" "readonly (read_v1 s a) = readonly a" "subject (read_v1 s a) = subject a"
  "subject_count (read_v1 s a) = subject_count a"
  by (simp_all add: read_v1_def split: prod.splits)

lemma set_subject_frame:
  assumes "set_subject type sid req multi a = Inr (st, a')"
  shows "adm_bal a' = adm_bal a \<and> readonly a' = readonly a \<and> length (subject a') = length (subject a)
    \<and> (req \<and> readonly a \<longrightarrow> st = - 1)"
proof -
  let ?al = "strncmp_eq sid ''a'' 1 \<and> multi" and ?i = "a\<lparr>adm_errno := 0, subject_count := 0\<rparr>"
  define a0 where "a0 = (if ?al then ?i else read_v1 sid ?i)"
  have a0: "adm_bal a0 = adm_bal a" "readonly a0 = readonly a" "length (subject a0) = length (subject a)"
    by (auto simp: a0_def)
  show ?thesis
  proof (cases "req \<and> readonly a \<or> strncmp_eq sid ''a'' 1 \<and> \<not> multi \<or> \<not> ?al \<and> strtol_failed a0")
    case True
    then show ?thesis using assms a0 by (auto simp: set_subject_def Let_def a0_def split: if_splits)
  next
    case False
    then have "res_bind (pick_subjects (strncmp_eq type ''m'' 1) ?al Member_ref (members (adm_bal a0)) (nmembers (adm_bal a0)) a0)
        (\<lambda>(ok, a). if \<not> ok then Inr (- 1, a)
         else res_bind (pick_subjects (strncmp_eq type ''c'' 1) ?al Clone_ref (clones (adm_bal a)) (nclones (adm_bal a)) a)
           (\<lambda>(ok, a). if \<not> ok then Inr (- 1, a)
            else if \<not> strncmp_eq type ''c'' 1 \<and> \<not> strncmp_eq type ''m'' 1 \<and> \<not> strncmp_eq type ''a'' 1
            then Inr (- 1, a) else Inr (0, a))) = Inr (st, a')"
      using assms unfolding set_subject_def Let_def a0_def [symmetric] by (auto simp: a0_def)
    then obtain ok a1 where 1: "pick_subjects (strncmp_eq type ''m'' 1) ?al Member_ref (members (adm_bal a0)) (nmembers (adm_bal a0)) a0 = Inr (ok, a1)"
      and 2: "a' = a1 \<or> (\<exists>ok'. pick_subjects (strncmp_eq type ''c'' 1) ?al Clone_ref (clones (adm_bal a1)) (nclones (adm_bal a1)) a1 = Inr (ok', a'))"
      by (auto simp: res_bind_eq_Inr split: if_splits)
    show ?thesis using pick_subjects_frame [OF 1] 2 pick_subjects_frame a0 False by metis
  qed
qed

section \<open>What commands do to the shared balancer\<close>

text \<open>An update of a live server that a command may make.\<close>

definition server_cmd :: "(SERVER \<Rightarrow> SERVER) \<Rightarrow> bool" where
  "server_cmd f \<longleftrightarrow> (\<forall>s. live_server s \<longrightarrow> srv_status (f s) \<noteq> SERVER_STATE_FREE)
     \<and> (\<forall>s. srv_id (f s) = srv_id s \<and> srv_c (f s) = srv_c s \<and> srv_hash_table_usage (f s) = srv_hash_table_usage s)"

lemma keeps_upd_ref:
  assumes "live_ref r b" and "server_cmd f"
  shows "keeps b (upd_ref r f b)"
proof (cases r)
  case (Member_ref i)
  then show ?thesis using assms
    by (auto simp: upd_ref_def live_ref_def get_ref_def server_cmd_def live_server_def intro!: keeps_upd_member)
next
  case (Clone_ref i)
  then show ?thesis using assms
    by (auto simp: upd_ref_def live_ref_def get_ref_def server_cmd_def live_server_def intro!: keeps_upd_clone)
qed

lemma live_ref_upd_ref:
  assumes "live_ref r b" and "\<And>s. live_server s \<Longrightarrow> live_server (f s)"
  shows "live_ref r (upd_ref x f b)"
proof -
  have "live_server (upd_server i f srvs ! j)" if "live_server (srvs ! j)" for i j srvs
    using that assms(2) by (cases "i < length srvs") (auto simp: upd_server_def nth_list_update list_update_beyond)
  then show ?thesis using assms(1) by (cases x; cases r) (auto simp: live_ref_def upd_ref_def get_ref_def)
qed

lemma for_subjects_keeps:
  assumes "for_subjects f is a = Inr a'" and "server_cmd f" and "\<And>s. live_server s \<Longrightarrow> live_server (f s)"
    and "\<forall>i\<in>set is. \<forall>r. subject a ! i = Some r \<longrightarrow> live_ref r (adm_bal a)"
  shows "keeps (adm_bal a) (adm_bal a')"
  using assms(1,4)
proof (induction "is" arbitrary: a)
  case (Cons i "is")
  then obtain r where r: "subject a ! i = Some r" "for_subjects f is (upd_shared (upd_ref r f) a) = Inr a'"
    by (auto simp: res_bind_eq_Inr)
  have "keeps (adm_bal a) (upd_ref r f (adm_bal a))" using Cons.prems(2) r(1) keeps_upd_ref [OF _ assms(2)] by simp
  moreover have "keeps (adm_bal (upd_shared (upd_ref r f) a)) (adm_bal a')"
    by (rule Cons.IH [OF r(2)]) (use Cons.prems(2) live_ref_upd_ref [OF _ assms(3)] in \<open>auto simp: upd_shared_def\<close>)
  ultimately show ?case using keeps_trans by (simp add: upd_shared_def)
qed simp

lemma for_subjects_frame:
  assumes "for_subjects f is a = Inr a'"
  shows "readonly a' = readonly a \<and> subject a' = subject a \<and> subject_count a' = subject_count a"
  using assms by (induction f "is" a rule: for_subjects.induct) (auto simp: res_bind_eq_Inr upd_shared_def)

text \<open>
  A relation between the states before and after a command that every command satisfies. A command whose
  second word names the type \<open>a\<close> reaches the servers through whatever pointer is left from an earlier
  command; \<open>stale_ok\<close> says that the relation covers these commands too. \<open>allowed\<close> are the updates of one
  server that the relation tolerates; the updates of the four commands on single servers must be among them.
\<close>

definition stale_input :: "string \<Rightarrow> bool" where
  "stale_input input = (case arguments input of (a1, a2, a3, a4, a5) \<Rightarrow>
     number_of_args (a1, a2, a3, a4, a5) \<in> {3, 4} \<and> strncmp_eq (the a2) ''a'' 1)"

definition scan_input :: "string \<Rightarrow> bool" where
  "scan_input input = (case fst (arguments input) of None \<Rightarrow> False | Some cmd \<Rightarrow> strncmp_eq cmd ''scan'' 4)"

locale admin_law =
  fixes R :: "ADMIN \<Rightarrow> ADMIN \<Rightarrow> bool" and stale_ok :: bool and allowed :: "(SERVER \<Rightarrow> SERVER) \<Rightarrow> bool"
  assumes frame: "adm_bal a' = adm_bal a \<Longrightarrow> readonly a' = readonly a \<Longrightarrow> length (subject a') = length (subject a) \<Longrightarrow> R a a'"
    and returned: "R a a1 \<Longrightarrow> R a (a1\<lparr>command_return_value := v\<rparr>)"
    and settings: "R a (snd (cmd_algorithm snmp value a))" "R a (snd (cmd_hri value a))" "R a (snd (cmd_hrs value a))"
      "R a (snd (cmd_hrt value a))" "R a (snd (cmd_monitor value a))" "R a (snd (cmd_debug value a))"
      "R a (snd (cmd_clone_mode value a))" "R a (snd (cmd_overload_mode value a))" "R a (snd (cmd_snmp ovalue a))"
    and targets: "cmd_enable type sid a = Inr (v, a1) \<Longrightarrow> R a a1" "cmd_disable type sid a = Inr (v, a1) \<Longrightarrow> R a a1"
      "cmd_reset type sid a = Inr (v, a1) \<Longrightarrow> R a a1"
    and create: "cmd_create inet_aton malloc_ok type name ip port a = Inr (v, a1) \<Longrightarrow> R a a1"
    and server_cmds: "allowed (\<lambda>s. if srv_standby_state s = STANDBY_STATE_TRUE then s\<lparr>srv_standby_state := STANDBY_STATE_FALSE\<rparr>
       else s\<lparr>srv_standby_state := STANDBY_STATE_TRUE\<rparr>)"
      "allowed (\<lambda>s. s\<lparr>srv_status := SERVER_STATE_DELETED\<rparr>)" "allowed (\<lambda>s. s\<lparr>srv_maxl := l\<rparr>)" "allowed (\<lambda>s. s\<lparr>srv_maxc := atoi mc\<rparr>)"
    and single: "stale_ok \<or> \<not> strncmp_eq type ''a'' 1 \<Longrightarrow> allowed f \<Longrightarrow> single_target type sid f a = Inr (v, a1) \<Longrightarrow> R a a1"
begin

definition lawful :: "ADMIN \<Rightarrow> ADMIN res \<Rightarrow> bool" where
  "lawful a r \<longleftrightarrow> (\<forall>a'. r = Inr a' \<longrightarrow> R a a')"

lemma lawful_if: "(c \<Longrightarrow> lawful a x) \<Longrightarrow> (\<not> c \<Longrightarrow> lawful a y) \<Longrightarrow> lawful a (if c then x else y)"
  by simp

lemma lawful_ret: "(\<And>v a1. r = Inr (v, a1) \<Longrightarrow> R a a1) \<Longrightarrow> lawful a (ret r)"
  by (auto simp: lawful_def ret_def res_bind_eq_Inr returned)

lemma lawful_same: "lawful a (Inr a)" "lawful a (ret (Inr (0, a)))" "lawful a (Inl e)" "lawful a (Inr (a\<lparr>extended_output_mode := x\<rparr>))"
  by (auto simp: lawful_def frame ret_def)

lemma lawful_setting: "(\<And>value. R a (snd (cmd value a))) \<Longrightarrow> lawful a (dispatch_setting cmd n a2 a)"
  unfolding dispatch_setting_def by (intro lawful_if lawful_ret lawful_same) (metis Inr_inject snd_conv)

lemma lawful_target:
  assumes "\<And>type v a1 sid. cmd type sid a = Inr (v, a1) \<Longrightarrow> type = ''m'' \<or> n = 3 \<and> type = the a2 \<Longrightarrow> R a a1"
  shows "lawful a (dispatch_target cmd n a2 a3 a)"
  unfolding dispatch_target_def by (intro lawful_if lawful_ret lawful_same) (use assms in blast)+

lemma lawful_value:
  assumes "\<And>type v a1 sid value. cmd type sid value a = Inr (v, a1) \<Longrightarrow> type = ''m'' \<or> n = 4 \<and> type = the a2 \<Longrightarrow> R a a1"
  shows "lawful a (dispatch_value cmd n a2 a3 a4 a)"
  unfolding dispatch_value_def by (intro lawful_if lawful_ret lawful_same) (use assms in blast)+

lemma run_command_lawful:
  assumes "stale_ok \<or> \<not> stale_input input" and "\<not> scan_input input" and "run_command env input a = Inr a'"
  shows "R a a'"
proof -
  obtain a1 a2 a3 a4 a5 where args: "arguments input = (a1, a2, a3, a4, a5)" by (cases "arguments input") auto
  obtain cmd where cmd: "a1 = Some cmd" using assms(3) args by (cases a1) (auto simp: run_command_def)
  define n where "n = number_of_args (Some cmd, a2, a3, a4, a5)"
  have ns: "\<not> strncmp_eq cmd ''scan'' 4" using assms(2) args cmd by (simp add: scan_input_def)
  have ne: "\<not> strncmp_eq ''m'' ''a'' 1" by (simp add: strncmp_eq_def)
  have st: "stale_ok \<or> \<not> strncmp_eq (the a2) ''a'' 1" if "n = 3 \<or> n = 4"
    using assms(1) args that by (auto simp: stale_input_def n_def cmd)
  have tg: "lawful a (dispatch_target cmd_standby n a2 a3 a)" "lawful a (dispatch_target cmd_delete n a2 a3 a)"
    unfolding cmd_standby_def cmd_delete_def
    by (rule lawful_target, elim disjE conjE; use single server_cmds st ne in blast)+
  have vl: "lawful a (dispatch_value cmd_maxl n a2 a3 a4 a)" "lawful a (dispatch_value cmd_maxc n a2 a3 a4 a)"
    unfolding cmd_maxl_def cmd_maxc_def
    by (rule lawful_value, elim disjE conjE; use single server_cmds st ne in blast)+
  have mt: "lawful a (dispatch_target cmd_enable n a2 a3 a)" "lawful a (dispatch_target cmd_disable n a2 a3 a)"
    "lawful a (dispatch_target cmd_reset n a2 a3 a)"
    by (rule lawful_target, rule targets, assumption)+
  have sn: "lawful a (ret (Inr (cmd_snmp a2 a)))" by (rule lawful_ret) (metis Inr_inject settings(9) snd_conv)
  have kl: "lawful a (ret (cmd_kill a))" by (rule lawful_ret) (auto simp: cmd_kill_def frame split: if_splits)
  have cr: "lawful a (ret (cmd_create f m t nm ip p a))" for f m t nm ip p by (rule lawful_ret) (rule create)
  note se = lawful_setting [OF settings(1)] lawful_setting [OF settings(2)] lawful_setting [OF settings(3)] lawful_setting [OF settings(4)]
    lawful_setting [OF settings(5)] lawful_setting [OF settings(6)] lawful_setting [OF settings(7)] lawful_setting [OF settings(8)]
  have "lawful a (run_command env input a)"
    unfolding run_command_def Let_def args cmd n_def [symmetric] prod.case deref_Some res_bind_Inr if_not_P [OF ns]
    by (intro lawful_if lawful_same tg vl mt sn kl cr se)
  then show ?thesis using assms(3) by (simp add: lawful_def)
qed

end

section \<open>The two laws\<close>

definition adm_safe :: "ADMIN \<Rightarrow> ADMIN \<Rightarrow> bool" where
  "adm_safe a a' \<longleftrightarrow> (balancer_ok (adm_bal a) \<longrightarrow> length (subject a) = 2 * MAXSERVERS \<longrightarrow>
     keeps (adm_bal a) (adm_bal a') \<and> length (subject a') = 2 * MAXSERVERS)"

definition adm_unchanged :: "ADMIN \<Rightarrow> ADMIN \<Rightarrow> bool" where
  "adm_unchanged a a' \<longleftrightarrow> (readonly a \<longrightarrow> adm_bal a' = adm_bal a \<and> readonly a')"

lemma upd_shared_simps [simp]:
  "adm_bal (upd_shared f a) = f (adm_bal a)" "readonly (upd_shared f a) = readonly a" "subject (upd_shared f a) = subject a"
  "subject_count (upd_shared f a) = subject_count a"
  by (simp_all add: upd_shared_def)

interpretation unchanged: admin_law adm_unchanged True "\<lambda>f. True"
proof unfold_locales
  show "cmd_enable type sid a = Inr (v, a1) \<Longrightarrow> adm_unchanged a a1" "cmd_disable type sid a = Inr (v, a1) \<Longrightarrow> adm_unchanged a a1"
    "cmd_reset type sid a = Inr (v, a1) \<Longrightarrow> adm_unchanged a a1" for type sid a v a1
    by (auto simp: cmd_enable_def cmd_disable_def cmd_reset_def adm_unchanged_def res_bind_eq_Inr split: if_splits dest!: set_subject_frame)
  show "single_target type sid f a = Inr (v, a1) \<Longrightarrow> adm_unchanged a a1" for type sid f a v a1
    by (auto simp: single_target_def adm_unchanged_def res_bind_eq_Inr split: if_splits dest!: set_subject_frame)
qed (auto simp: adm_unchanged_def cmd_algorithm_def cmd_hri_def cmd_hrs_def cmd_hrt_def cmd_monitor_def cmd_debug_def
    cmd_clone_mode_def cmd_overload_mode_def cmd_snmp_def cmd_create_def Let_def)

text \<open>The servers a multiple target command works on are live.\<close>

lemma multi_subjects:
  assumes r: "set_subject type sid True True a = Inr (0, a')" and ok: "balancer_ok (adm_bal a)" and len: "length (subject a) = 2 * MAXSERVERS"
  shows "\<forall>i\<in>set [0..<subject_count a']. \<forall>x. subject a' ! i = Some x \<longrightarrow> live_ref x (adm_bal a')"
proof (cases "strncmp_eq sid ''a'' 1")
  case True
  have ro: "\<not> (True \<and> readonly a)" using set_subject_frame [OF r] by auto
  have s: "subjects_are (all_subjects (adm_bal a)) a'" using set_subject_all [OF True ro ok len, of type] r by auto
  moreover have "live_ref x (adm_bal a)" if "x \<in> set (all_subjects (adm_bal a))" for x
    using that by (auto simp: all_subjects_def live_ref_def get_ref_def)
  ultimately show ?thesis using subjects_areD [OF s] set_subject_frame [OF r] by (auto simp: subjects_are_def)
next
  case False
  have "subject a \<noteq> []" using len by auto
  from set_subject_one [OF r False this] show ?thesis by (auto dest!: subjects_are_one)
qed

lemma multi_safe:
  assumes r: "set_subject type sid True True a = Inr (0, a1)" and f: "for_subjects f [0..<subject_count a1] a1 = Inr a2"
    and c: "server_cmd f" "\<And>s. live_server s \<Longrightarrow> live_server (f s)"
  shows "adm_safe a a2"
  unfolding adm_safe_def
proof (intro impI)
  assume ok: "balancer_ok (adm_bal a)" and len: "length (subject a) = 2 * MAXSERVERS"
  have "keeps (adm_bal a1) (adm_bal a2)" by (rule for_subjects_keeps [OF f c multi_subjects [OF r ok len]])
  then show "keeps (adm_bal a) (adm_bal a2) \<and> length (subject a2) = 2 * MAXSERVERS"
    using set_subject_frame [OF r] for_subjects_frame [OF f] len by simp
qed

lemma adm_safe_trans: "adm_safe a b \<Longrightarrow> adm_safe b c \<Longrightarrow> adm_safe a c"
  by (auto simp: adm_safe_def keeps_def)

lemma adm_safe_shared: "(\<And>b. keeps b (f b)) \<Longrightarrow> adm_safe a (upd_shared f a)"
  by (simp add: adm_safe_def)

lemma adm_safe_frame: "adm_bal a' = adm_bal a \<Longrightarrow> length (subject a') = length (subject a) \<Longrightarrow> adm_safe a a'"
  by (simp add: adm_safe_def)

lemma keeps_create:
  assumes st: "st \<noteq> SERVER_STATE_FREE"
    and res: "create_balancer_server m b cl nm st sb port ip maxc maxl = Inr (r, b')"
  shows "keeps b b'"
proof (rule keepsI)
  let ?s = "new_server nm st sb port ip maxc maxl"
  show "session_limit b' = session_limit b"
    using res by (auto simp: create_balancer_server_def Let_def res_bind_eq_Inr split: if_splits)
  assume ok: "balancer_ok b"
  show "balancer_ok b'" by (rule create_balancer_server_ok [OF ok st res])
  have t: "table_ok (members b) (nmembers b)" "table_ok (clones b) (nclones b)" using ok by (simp_all add: balancer_ok_def)
  have placed: "srv_c (srvs' ! i) = srv_c (srvs ! i)" if "table_ok srvs n" "place_server ?s srvs n = Inr (srvs', n')" for srvs n srvs' n' i
  proof -
    note pl = that
    obtain k where "k < MAXSERVERS" "srvs ! k = zero_server" "srvs' = srvs[k := ?s\<lparr>srv_id := k\<rparr>]"
      by (rule place_server_slot [OF pl])
    then show ?thesis using table_okD(1) [OF pl(1)] by (auto simp: nth_list_update)
  qed
  show "srv_c (members b' ! i) = srv_c (members b ! i)" "srv_c (clones b' ! i) = srv_c (clones b ! i)" for i
    using res placed [OF t(1)] placed [OF t(2)]
    by (auto simp: create_balancer_server_def Let_def res_bind_eq_Inr split: if_splits)
qed

lemma single_safe:
  assumes t: "\<not> strncmp_eq type ''a'' 1" and f: "server_cmd f" and r: "single_target type sid f a = Inr (v, a1)"
  shows "adm_safe a a1"
  unfolding adm_safe_def
proof (intro impI)
  assume ok: "balancer_ok (adm_bal a)" and len: "length (subject a) = 2 * MAXSERVERS"
  obtain st a' where s: "set_subject type sid True False a = Inr (st, a')"
    and a1: "st \<noteq> 0 \<and> a1 = a' \<or> st = 0 \<and> (\<exists>x. subject a' ! 0 = Some x \<and> a1 = upd_shared (upd_ref x f) a')"
    using r by (auto simp: single_target_def res_bind_eq_Inr split: if_splits)
  note fr = set_subject_frame [OF s]
  show "keeps (adm_bal a) (adm_bal a1) \<and> length (subject a1) = 2 * MAXSERVERS"
  proof (cases "st = 0")
    case False
    then show ?thesis using a1 fr len by simp
  next
    case True
    then have n: "\<not> strncmp_eq sid ''a'' 1" using s set_subject_single_all by fastforce
    have "subject a \<noteq> []" using len by auto
    from set_subject_one [OF s n this] True t obtain x where x: "live_ref x (adm_bal a)" "subjects_are [x] a'" by auto
    then have "a1 = upd_shared (upd_ref x f) a'" using a1 True subjects_are_one by auto
    then show ?thesis using keeps_upd_ref [OF x(1) f] fr len by simp
  qed
qed

lemma keeps_fields:
  "keeps b (b\<lparr>algorithm := x1\<rparr>)" "keeps b (b\<lparr>hash_rebalance_interval := x2\<rparr>)" "keeps b (b\<lparr>hash_rebalance_size := x2\<rparr>)"
  "keeps b (b\<lparr>hash_rebalance_threshold := x2\<rparr>)" "keeps b (b\<lparr>monitor_interval := x3\<rparr>)" "keeps b (b\<lparr>debug_level := x2\<rparr>)"
  "keeps b (b\<lparr>overload_mode := x4\<rparr>)" "keeps b (b\<lparr>snmp_status := x5\<rparr>)" "keeps b (b\<lparr>clone_mode := x6\<rparr>)"
  by (rule keeps_cong, simp_all)+

lemma multi_target_safe:
  assumes r: "res_bind (set_subject type sid True True a) (\<lambda>(status, a). if status \<noteq> 0 then Inr (- 1, a)
      else res_bind (for_subjects f [0..<subject_count a] a) g) = Inr (v, a1)"
    and c: "server_cmd f" "\<And>s. live_server s \<Longrightarrow> live_server (f s)"
    and g: "\<And>x. g x = Inr (v, a1) \<Longrightarrow> adm_safe x a1"
  shows "adm_safe a a1"
proof -
  obtain st a' where s: "set_subject type sid True True a = Inr (st, a')"
    and rest: "(if st \<noteq> 0 then Inr (- 1, a') else res_bind (for_subjects f [0..<subject_count a'] a') g) = Inr (v, a1)"
    using r by (auto simp: res_bind_eq_Inr)
  show ?thesis
  proof (cases "st = 0")
    case True
    then obtain x where x: "for_subjects f [0..<subject_count a'] a' = Inr x" "g x = Inr (v, a1)"
      using rest by (auto simp: res_bind_eq_Inr)
    show ?thesis by (rule adm_safe_trans [OF multi_safe [OF s [unfolded True] x(1) c] g [OF x(2)]])
  next
    case False
    then show ?thesis using rest set_subject_frame [OF s] by (auto intro: adm_safe_frame)
  qed
qed

interpretation safe: admin_law adm_safe False server_cmd
proof unfold_locales
  fix a v a1 type sid
  have cl: "adm_safe x (upd_shared set_cloned_state x)" for x by (rule adm_safe_shared) (rule keeps_set_cloned_state)
  show "cmd_enable type sid a = Inr (v, a1) \<Longrightarrow> adm_safe a a1" unfolding cmd_enable_def
    by (erule multi_target_safe) (use cl in \<open>auto simp: server_cmd_def enable_server_def live_server_def\<close>)
  show "cmd_disable type sid a = Inr (v, a1) \<Longrightarrow> adm_safe a a1" unfolding cmd_disable_def
    by (erule multi_target_safe) (use cl in \<open>auto simp: server_cmd_def disable_server_def live_server_def\<close>)
  show "cmd_reset type sid a = Inr (v, a1) \<Longrightarrow> adm_safe a a1" unfolding cmd_reset_def
    by (erule multi_target_safe)
      (auto simp: server_cmd_def live_server_def res_bind_eq_Inr split: if_splits intro: adm_safe_frame)
  show "cmd_create inet_aton malloc_ok type name ip port a = Inr (v, a1) \<Longrightarrow> adm_safe a a1" for inet_aton malloc_ok name ip port
    by (auto simp: cmd_create_def Let_def res_bind_eq_Inr adm_safe_def split: if_splits option.splits dest!: keeps_create [rotated])
  show "False \<or> \<not> strncmp_eq type ''a'' 1 \<Longrightarrow> server_cmd f \<Longrightarrow> single_target type sid f a = Inr (v, a1) \<Longrightarrow> adm_safe a a1" for f
    using single_safe by simp
  show "server_cmd (\<lambda>s. if srv_standby_state s = STANDBY_STATE_TRUE then s\<lparr>srv_standby_state := STANDBY_STATE_FALSE\<rparr>
       else s\<lparr>srv_standby_state := STANDBY_STATE_TRUE\<rparr>)" "server_cmd (\<lambda>s. s\<lparr>srv_status := SERVER_STATE_DELETED\<rparr>)"
    "server_cmd (\<lambda>s. s\<lparr>srv_maxl := l\<rparr>)" "server_cmd (\<lambda>s. s\<lparr>srv_maxc := atoi mc\<rparr>)" for l mc
    by (auto simp: server_cmd_def live_server_def)
qed (auto simp: adm_safe_def keeps_fields cmd_algorithm_def cmd_hri_def cmd_hrs_def cmd_hrt_def cmd_monitor_def cmd_debug_def
    cmd_clone_mode_def cmd_overload_mode_def cmd_snmp_def Let_def intro: keeps_trans [OF keeps_fields(9) keeps_set_cloned_state] split: option.splits)

section \<open>Properties\<close>

text \<open>
  In read-only mode no command changes the shared balancer, and no command but a scan leaves
  read-only mode.
\<close>

theorem readonly_changes_nothing:
  assumes "readonly a" and "\<not> scan_input input" and "command_prompt env input a = Inr a'"
  shows "adm_bal a' = adm_bal a \<and> readonly a'"
  using unchanged.run_command_lawful [of input env a a'] assms
  by (auto simp: command_prompt_def adm_unchanged_def split: if_splits)

definition sample_admin :: "BALANCER \<Rightarrow> ADMIN" where
  "sample_admin b = \<lparr>adm_bal = b, readonly = False, adm_v1 = 0, subject = replicate (2 * MAXSERVERS) None, subject_count = 0,
     extended_output_mode = True, command_return_value = 0, adm_errno = 0\<rparr>"

definition sample_env :: ADMIN_ENV where
  "sample_env = \<lparr>ad_aton = (\<lambda>s. Some 0), ad_malloc = True, ad_snmp = True, ad_files = [], ad_choice = [],
     ad_shm = (\<lambda>f. \<lparr>sh_stat = False, sh_ftok = False, sh_get = False, sh_access = False, sh_get_ro = False, sh_data = None\<rparr>), ad_ignore = False\<rparr>"

text \<open>
  The target \<open>all\<close> of a command selects exactly the servers in use: every member, then every clone,
  that is neither free nor deleted, each once, without overrunning the array of targets.
\<close>

theorem set_subject_selects_all:
  assumes "strncmp_eq sid ''a'' 1" and "\<not> readonly a" and "balancer_ok (adm_bal a)" and "length (subject a) = 2 * MAXSERVERS"
    and "strncmp_eq type ''m'' 1"
  shows "\<exists>a'. set_subject type sid True True a = Inr (0, a') \<and> adm_bal a' = adm_bal a
    \<and> take (subject_count a') (subject a') = map Some (all_subjects (adm_bal a))
    \<and> distinct (all_subjects (adm_bal a))
    \<and> set (all_subjects (adm_bal a)) = {r. live_ref r (adm_bal a)}"
proof -
  have "\<not> (True \<and> readonly a)" using assms(2) by simp
  from set_subject_all [OF assms(1) this assms(3,4), of type] assms(5)
  obtain a' where a': "set_subject type sid True True a = Inr (0, a')" "adm_bal a' = adm_bal a"
    "subjects_are (all_subjects (adm_bal a)) a'" by auto
  have "distinct (all_subjects b)" for b
    by (auto simp: all_subjects_def distinct_map inj_on_def)
  moreover have "r \<in> set (all_subjects b) \<longleftrightarrow> live_ref r b" for r b
    by (cases r) (auto simp: all_subjects_def live_ref_def get_ref_def)
  then have "set (all_subjects b) = {r. live_ref r b}" for b by auto
  ultimately show ?thesis using a' by (auto simp: subjects_are_def)
qed

lemma sample_admin_simps [simp]:
  "adm_bal (sample_admin b) = b" "\<not> readonly (sample_admin b)" "length (subject (sample_admin b)) = 2 * MAXSERVERS"
  "adm_errno (sample_admin b) = 0" "subject_count (sample_admin b) = 0"
  by (simp_all add: sample_admin_def)

theorem set_subject_selects_all_witness:
  "\<exists>a'. set_subject ''m'' ''all'' True True (sample_admin (balancer live_lb)) = Inr (0, a')
    \<and> take (subject_count a') (subject a') = [Some (Member_ref 0), Some (Member_ref 1)]"
proof -
  have n: "strncmp_eq ''all'' ''a'' 1" "strncmp_eq ''m'' ''m'' 1" by (simp_all add: strncmp_eq_def)
  have "all_subjects (balancer live_lb) = [Member_ref 0, Member_ref 1]"
    by (simp add: all_subjects_def live_members_nth live_server_def upt_rec)
  then show ?thesis
    using set_subject_selects_all [OF n(1) _ _ _ n(2), of "sample_admin (balancer live_lb)"] lb_okD(1) [OF live_lb_ok] by auto
qed

lemma delete_words:
  "arguments ''delete 1'' = (Some ''delete'', Some ''1'', None, None, None)" "arguments ''delete a 0'' = (Some ''delete'', Some ''a'', Some ''0'', None, None)"
  by code_simp+

lemma run_delete:
  "run_command env ''delete 1'' a = ret (cmd_delete ''m'' ''1'' a)" "run_command env ''delete a 0'' a = ret (cmd_delete ''a'' ''0'' a)"
  by (simp_all add: run_command_def delete_words number_of_args_def strncmp_eq_def dispatch_target_def)

theorem readonly_changes_nothing_witness:
  "\<exists>a'. command_prompt sample_env ''delete 1'' ((sample_admin sample_balancer)\<lparr>readonly := True\<rparr>) = Inr a'
    \<and> command_return_value a' = - 1 \<and> adm_bal a' = sample_balancer"
proof -
  let ?a = "(sample_admin sample_balancer)\<lparr>readonly := True\<rparr>"
  have r: "command_prompt sample_env ''delete 1'' ?a = Inr (?a\<lparr>adm_errno := 0, subject_count := 0, command_return_value := - 1\<rparr>)"
    by (simp add: command_prompt_def run_delete cmd_delete_def single_target_def set_subject_def ret_def)
      (simp add: sample_balancer_def)
  have "\<not> scan_input ''delete 1''" by (simp add: scan_input_def delete_words strncmp_eq_def)
  then show ?thesis using readonly_changes_nothing [OF _ _ r] r by simp
qed

text \<open>
  C39. A command for one server that is given the type \<open>a\<close> and a number (\<open>delete a 0\<close>) passes the checks of
  \<open>set_subject\<close> without looking up any server. It then goes through the pointer that an earlier command
  has left behind, or through a NULL pointer if there was none: it marks a slot as deleted that
  the monitor may have freed since, and the server table is no longer well formed.
\<close>

theorem stale_target_written:
  assumes "\<not> readonly a" and "strncmp_eq type ''a'' 1" and "\<not> strncmp_eq sid ''a'' 1" and "snd (snd (strtol 10 sid)) = False"
  shows "(subject a ! 0 = None \<longrightarrow> cmd_delete type sid a = Inl Null_deref)
    \<and> (\<forall>i. subject a ! 0 = Some (Member_ref i) \<longrightarrow> balancer_ok (adm_bal a) \<longrightarrow> i < MAXSERVERS \<longrightarrow> nmembers (adm_bal a) \<le> i \<longrightarrow>
         (\<exists>a'. cmd_delete type sid a = Inr (0, a') \<and> srv_status (members (adm_bal a') ! i) = SERVER_STATE_DELETED
            \<and> \<not> balancer_ok (adm_bal a')))"
proof -
  have ty: "\<not> strncmp_eq type ''m'' 1" "\<not> strncmp_eq type ''c'' 1" using assms(2) by (auto simp: starts_with_one)
  obtain v conv where st: "strtol 10 sid = (v, conv, False)" using assms(4) by (cases "strtol 10 sid") auto
  define a1 where "a1 = read_v1 sid (a\<lparr>adm_errno := 0, subject_count := 0\<rparr>)"
  have "set_subject type sid True False a = Inr (0, a1)"
    using assms(1-3) ty st by (simp add: set_subject_def Let_def pick_subjects_def a1_def strtol_failed_def read_v1_def)
  then have cmd: "cmd_delete type sid a = res_bind (deref (subject a ! 0))
      (\<lambda>r. Inr (0, upd_shared (upd_ref r (\<lambda>s. s\<lparr>srv_status := SERVER_STATE_DELETED\<rparr>)) a1))"
    by (simp add: cmd_delete_def single_target_def a1_def)
  show ?thesis
  proof (intro conjI allI impI)
    show "cmd_delete type sid a = Inl Null_deref" if "subject a ! 0 = None" using that cmd by simp
    fix i assume i: "subject a ! 0 = Some (Member_ref i)" "balancer_ok (adm_bal a)" "i < MAXSERVERS" "nmembers (adm_bal a) \<le> i"
    let ?b = "upd_member i (\<lambda>s. s\<lparr>srv_status := SERVER_STATE_DELETED\<rparr>) (adm_bal a)"
    have len: "i < length (members (adm_bal a))" using server_lengths(1) [OF i(2)] i(3) by simp
    then have d: "srv_status (members ?b ! i) = SERVER_STATE_DELETED" by simp
    then have "\<not> table_ok (members ?b) (nmembers ?b)" using i(3,4) table_okD(5) by fastforce
    then have "\<not> balancer_ok ?b" by (simp add: balancer_ok_def)
    then show "\<exists>a'. cmd_delete type sid a = Inr (0, a') \<and> srv_status (members (adm_bal a') ! i) = SERVER_STATE_DELETED
        \<and> \<not> balancer_ok (adm_bal a')"
      using cmd i(1) d by (simp add: upd_ref_def a1_def)
  qed
qed

theorem stale_target_written_witness:
  "\<exists>a'. command_prompt sample_env ''delete a 0'' ((sample_admin sample_balancer)\<lparr>subject := Some (Member_ref 1) # replicate 1023 None\<rparr>) = Inr a'
    \<and> \<not> balancer_ok (adm_bal a')"
proof -
  let ?a = "(sample_admin sample_balancer)\<lparr>subject := Some (Member_ref 1) # replicate 1023 None\<rparr>"
  have "\<exists>a'. cmd_delete ''a'' ''0'' ?a = Inr (0, a') \<and> srv_status (members (adm_bal a') ! 1) = SERVER_STATE_DELETED \<and> \<not> balancer_ok (adm_bal a')"
  proof -
    have "strtol 10 ''0'' = (0, True, False)" by code_simp
    moreover have "nmembers sample_balancer = 0" by (simp add: sample_balancer_def)
    ultimately show ?thesis using stale_target_written [of ?a "''a''" "''0''"] sample_balancer_ok by (simp add: strncmp_eq_def)
  qed
  then show ?thesis by (auto simp: command_prompt_def run_delete ret_def sample_balancer_def)
qed

text \<open>
  A server number is used as an index before it is compared with the number of servers: a number that
  is negative or not below 512 makes every command on a single server read outside the server table.
\<close>

theorem server_number_out_of_bounds:
  assumes "\<not> readonly a" and "balancer_ok (adm_bal a)" and "strncmp_eq type ''m'' 1" and "\<not> strncmp_eq sid ''a'' 1"
    and "strtol 10 sid = (v, True, False)" and "v < 0 \<or> 512 \<le> v"
  shows "set_subject type sid True multi a = Inl Out_of_bounds"
proof -
  have "\<not> strncmp_eq type ''a'' 1" using assms(3) by (auto simp: starts_with_one)
  then show ?thesis using assms server_lengths(1) [OF assms(2)]
    by (auto simp: set_subject_def Let_def pick_subjects_def read_v1_def strtol_failed_def add_by_id_def)
qed

theorem server_number_out_of_bounds_witness:
  "set_subject ''m'' (show_nat 512) True False (sample_admin sample_balancer) = Inl Out_of_bounds"
proof -
  have "show_nat 512 = ''512''" by code_simp
  then have "\<not> strncmp_eq (show_nat 512) ''a'' 1" by (simp add: strncmp_eq_def)
  then show ?thesis
    using server_number_out_of_bounds [of "sample_admin sample_balancer" "''m''" "show_nat 512" 512 False]
      strtol_show_nat [of 512] sample_balancer_ok by (simp add: strncmp_eq_def LONG_MAX_def)
qed

section \<open>Switching all servers\<close>

definition ref_in :: "server_ref \<Rightarrow> BALANCER \<Rightarrow> bool" where
  "ref_in r b \<longleftrightarrow> (case r of Member_ref i \<Rightarrow> i < length (members b) | Clone_ref i \<Rightarrow> i < length (clones b))"

lemma ref_in_upd [simp]: "ref_in r (upd_ref x f b) = ref_in r b"
  by (cases r; cases x) (simp_all add: ref_in_def upd_ref_def)

lemma get_ref_upd: "ref_in x b \<Longrightarrow> get_ref r (upd_ref x f b) = (if r = x then f (get_ref x b) else get_ref r b)"
  by (cases r; cases x) (simp_all add: ref_in_def upd_ref_def get_ref_def)

lemma fold_upd_ref:
  assumes "distinct rs" and "\<forall>x\<in>set rs. ref_in x b"
  shows "get_ref r (fold (\<lambda>x. upd_ref x f) rs b) = (if r \<in> set rs then f (get_ref r b) else get_ref r b)"
  using assms by (induction rs arbitrary: b) (auto simp: get_ref_upd)

lemma for_subjects_eq:
  assumes "\<forall>i\<in>set is. subject a ! i = Some (g i)"
  shows "for_subjects f is a = Inr (a\<lparr>adm_bal := fold (\<lambda>x. upd_ref x f) (map g is) (adm_bal a)\<rparr>)"
  using assms by (induction "is" arbitrary: a) (auto simp: upd_shared_def)

lemma get_ref_cloned [simp]: "get_ref r (set_cloned_state b) = get_ref r b"
  by (cases r) (simp_all add: get_ref_def)

text \<open>The state after \<open>enable all\<close> or \<open>disable all\<close>, server by server.\<close>

lemma for_all_subjects:
  assumes "\<not> readonly a" and ok: "balancer_ok (adm_bal a)" and len: "length (subject a) = 2 * MAXSERVERS"
  obtains a1 a2 where "set_subject ''m'' ''all'' True True a = Inr (0, a1)"
    and "for_subjects f [0..<subject_count a1] a1 = Inr a2" and "readonly a2 = readonly a" and "length (subject a2) = length (subject a)"
    and "\<forall>r. get_ref r (adm_bal a2) = (if live_ref r (adm_bal a) then f (get_ref r (adm_bal a)) else get_ref r (adm_bal a))"
    and "nmembers (adm_bal a2) = nmembers (adm_bal a)" and "nclones (adm_bal a2) = nclones (adm_bal a)"
proof -
  let ?rs = "all_subjects (adm_bal a)"
  have n: "strncmp_eq ''all'' ''a'' 1" "strncmp_eq ''m'' ''m'' 1" "\<not> (True \<and> readonly a)" using assms(1) by (simp_all add: strncmp_eq_def)
  from set_subject_all [OF n(1,3) ok len, of "''m''"] n(2)
  obtain a1 where a1: "set_subject ''m'' ''all'' True True a = Inr (0, a1)" "adm_bal a1 = adm_bal a" "readonly a1 = readonly a"
    "length (subject a1) = length (subject a)" "subjects_are ?rs a1" by auto
  have c: "subject_count a1 = length ?rs" using a1(5) by (simp add: subjects_are_def)
  have "\<forall>i\<in>set [0..<subject_count a1]. subject a1 ! i = Some (?rs ! i)" using subjects_areD [OF a1(5)] by simp
  from for_subjects_eq [OF this, of f]
  have f: "for_subjects f [0..<subject_count a1] a1 = Inr (a1\<lparr>adm_bal := fold (\<lambda>x. upd_ref x f) ?rs (adm_bal a)\<rparr>)"
    using c a1(2) by (simp add: map_nth)
  have live: "r \<in> set ?rs \<longleftrightarrow> live_ref r (adm_bal a)" for r
    by (cases r) (auto simp: all_subjects_def live_ref_def get_ref_def)
  have t: "table_ok (members (adm_bal a)) (nmembers (adm_bal a))" "table_ok (clones (adm_bal a)) (nclones (adm_bal a))"
    using ok by (simp_all add: balancer_ok_def)
  have "ref_in x (adm_bal a)" if "x \<in> set ?rs" for x
    using that table_okD(1,2) [OF t(1)] table_okD(1,2) [OF t(2)] unfolding live by (cases x) (auto simp: live_ref_def ref_in_def)
  moreover have "distinct ?rs" by (auto simp: all_subjects_def distinct_map inj_on_def)
  ultimately have "get_ref r (fold (\<lambda>x. upd_ref x f) ?rs (adm_bal a)) = (if live_ref r (adm_bal a) then f (get_ref r (adm_bal a)) else get_ref r (adm_bal a))" for r
    using fold_upd_ref [of ?rs "adm_bal a" r f] live by simp
  moreover have "nmembers (fold (\<lambda>x. upd_ref x f) rs b) = nmembers b" "nclones (fold (\<lambda>x. upd_ref x f) rs b) = nclones b" for rs b
    by (induction rs arbitrary: b) (simp_all add: upd_ref_def split: server_ref.splits)
  ultimately show ?thesis using that [OF a1(1) f] a1 by simp
qed



text \<open>What a command of the admin tool does to the server process.\<close>

lemma admin_step_ok:
  assumes ok: "lb_ok lb" and a: "adm_bal a = balancer lb" "length (subject a) = 2 * MAXSERVERS"
    and i: "\<not> stale_input input" "\<not> scan_input input" and r: "command_prompt env input a = Inr a'"
  shows "lb_ok (lb\<lparr>balancer := adm_bal a'\<rparr>)" and "length (subject a') = 2 * MAXSERVERS"
proof -
  have "run_command env input a = Inr a'" using r by (simp add: command_prompt_def split: if_splits)
  then have "adm_safe a a'" using safe.run_command_lawful [of input env a a'] i by simp
  then have "keeps (balancer lb) (adm_bal a') \<and> length (subject a') = 2 * MAXSERVERS"
    using a lb_okD(1) [OF ok] by (simp add: adm_safe_def)
  then show "lb_ok (lb\<lparr>balancer := adm_bal a'\<rparr>)" "length (subject a') = 2 * MAXSERVERS"
    using lb_ok_keeps [OF _ ok] by auto
qed

end
