(* ===== verification/Admin_Laws.thy ===== *)
theory Admin_Laws
  imports Admin_Props
begin

text \<open>
  Laws of the admin tool that speak about the balancer only. A relation between balancers that holds for
  the elementary changes (a setting, one server, a new server) holds for every command; the locale
  \<open>balancer_law\<close> has these elementary changes, and it is an \<open>admin_law\<close>, so that no command has to be
  looked at again.
\<close>

locale balancer_law =
  fixes Q :: "BALANCER \<Rightarrow> BALANCER \<Rightarrow> bool" and allowed :: "(SERVER \<Rightarrow> SERVER) \<Rightarrow> bool"
  assumes Q_refl: "Q b b" and Q_trans: "Q a b \<Longrightarrow> Q b c \<Longrightarrow> Q a c"
    and Q_server: "allowed f \<Longrightarrow> Q b (upd_ref r f b)"
    and Q_cloned: "Q b (set_cloned_state b)"
    and Q_modes: "Q b (b\<lparr>algorithm := al\<rparr>)" "Q b (b\<lparr>overload_mode := om\<rparr>)" "Q b (b\<lparr>snmp_status := sn\<rparr>)" "Q b (b\<lparr>clone_mode := cm\<rparr>)"
      "Q b (b\<lparr>monitor_interval := mi\<rparr>)"
    and Q_numbers: "Q b (b\<lparr>hash_rebalance_interval := int_of_long v\<rparr>)" "Q b (b\<lparr>hash_rebalance_size := int_of_long v\<rparr>)"
      "Q b (b\<lparr>hash_rebalance_threshold := int_of_long v\<rparr>)" "Q b (b\<lparr>debug_level := int_of_long v\<rparr>)"
    and Q_create: "create_balancer_server m b cl nm SERVER_STATE_DISABLED STANDBY_STATE_FALSE (atoi port) ip
      (default_maxc b) (default_maxl b) = Inr (st, b') \<Longrightarrow> Q b b'"
    and allowed_single: "allowed (\<lambda>s. if srv_standby_state s = STANDBY_STATE_TRUE then s\<lparr>srv_standby_state := STANDBY_STATE_FALSE\<rparr>
       else s\<lparr>srv_standby_state := STANDBY_STATE_TRUE\<rparr>)"
      "allowed (\<lambda>s. s\<lparr>srv_status := SERVER_STATE_DELETED\<rparr>)" "allowed (\<lambda>s. s\<lparr>srv_maxl := l\<rparr>)" "allowed (\<lambda>s. s\<lparr>srv_maxc := atoi mc\<rparr>)"
    and allowed_multi: "allowed enable_server" "allowed disable_server" "allowed (\<lambda>s. s\<lparr>srv_bsent := 0, srv_brecv := 0, srv_completed_c := 0\<rparr>)"
begin

lemma for_subjects_law:
  assumes "for_subjects f is a = Inr a'" and "allowed f"
  shows "Q (adm_bal a) (adm_bal a')"
  using assms(1)
proof (induction "is" arbitrary: a)
  case (Cons i "is")
  then obtain r where r: "for_subjects f is (upd_shared (upd_ref r f) a) = Inr a'" by (auto simp: res_bind_eq_Inr)
  show ?case using Q_trans [OF Q_server [OF assms(2)]] Cons.IH [OF r] by simp
qed (simp add: Q_refl)

lemma multi_law:
  assumes r: "res_bind (set_subject type sid True True a) (\<lambda>(status, a). if status \<noteq> 0 then Inr (- 1, a)
      else res_bind (for_subjects f [0..<subject_count a] a) g) = Inr (v, a1)"
    and f: "allowed f" and g: "\<And>x. g x = Inr (v, a1) \<Longrightarrow> Q (adm_bal x) (adm_bal a1)"
  shows "Q (adm_bal a) (adm_bal a1)"
proof -
  obtain st a' where s: "set_subject type sid True True a = Inr (st, a')"
    and rest: "(if st \<noteq> 0 then Inr (- 1, a') else res_bind (for_subjects f [0..<subject_count a'] a') g) = Inr (v, a1)"
    using r by (auto simp: res_bind_eq_Inr)
  have same: "adm_bal a' = adm_bal a" using set_subject_frame [OF s] by simp
  show ?thesis
  proof (cases "st = 0")
    case True
    then obtain x where x: "for_subjects f [0..<subject_count a'] a' = Inr x" "g x = Inr (v, a1)"
      using rest by (auto simp: res_bind_eq_Inr)
    show ?thesis using Q_trans [OF for_subjects_law [OF x(1) f] g [OF x(2)]] same by simp
  next
    case False
    then show ?thesis using rest same Q_refl by simp
  qed
qed

lemma single_law:
  assumes "single_target type sid f a = Inr (v, a1)" and "allowed f"
  shows "Q (adm_bal a) (adm_bal a1)"
  using assms Q_server Q_refl by (auto simp: single_target_def res_bind_eq_Inr split: if_splits dest!: set_subject_frame)

end

sublocale balancer_law \<subseteq> admin_law "\<lambda>a a'. Q (adm_bal a) (adm_bal a')" True allowed
proof unfold_locales
  fix a v a1 type sid
  have cl: "Q (adm_bal x) (adm_bal (upd_shared set_cloned_state x))" for x by (simp add: Q_cloned)
  show "cmd_enable type sid a = Inr (v, a1) \<Longrightarrow> Q (adm_bal a) (adm_bal a1)"
    unfolding cmd_enable_def by (erule multi_law) (use cl allowed_multi in auto)
  show "cmd_disable type sid a = Inr (v, a1) \<Longrightarrow> Q (adm_bal a) (adm_bal a1)"
    unfolding cmd_disable_def by (erule multi_law) (use cl allowed_multi in auto)
  show "cmd_reset type sid a = Inr (v, a1) \<Longrightarrow> Q (adm_bal a) (adm_bal a1)"
    unfolding cmd_reset_def by (erule multi_law) (use allowed_multi Q_refl in \<open>auto simp: res_bind_eq_Inr split: if_splits\<close>)
  show "cmd_create inet_aton malloc_ok type name ip port a = Inr (v, a1) \<Longrightarrow> Q (adm_bal a) (adm_bal a1)" for inet_aton malloc_ok name ip port
    using Q_create Q_refl
    by (auto simp: cmd_create_def Let_def res_bind_eq_Inr split: if_split_asm option.split_asm)
  show "True \<or> \<not> strncmp_eq type ''a'' 1 \<Longrightarrow> allowed f \<Longrightarrow> single_target type sid f a = Inr (v, a1) \<Longrightarrow> Q (adm_bal a) (adm_bal a1)" for f
    using single_law by blast
qed (auto simp: cmd_algorithm_def cmd_hri_def cmd_hrs_def cmd_hrt_def cmd_monitor_def cmd_debug_def cmd_clone_mode_def
    cmd_overload_mode_def cmd_snmp_def Let_def Q_refl Q_modes Q_numbers allowed_single
    intro: Q_trans [OF Q_modes(4) Q_cloned] Q_trans [OF Q_modes(3) Q_modes(3)] split: option.splits)

end
