(* ===== verification/Server_Frame.thy ===== *)
theory Server_Frame
  imports Server_Props
begin

text \<open>
  What the server process writes into the shared balancer: connection counts, byte counters, the hash
  table with its usage counters, and the flag that suppresses log messages. Everything else (the
  servers' names, addresses, limits and states, and all settings) belongs to the monitor and the admin tool.
\<close>

section \<open>The part of the balancer that the server process only reads\<close>

definition server_view :: "SERVER \<Rightarrow> SERVER" where
  "server_view s = s\<lparr>srv_c := 0, srv_completed_c := 0, srv_bsent := 0, srv_brecv := 0, srv_hash_table_usage := 0\<rparr>"

definition bal_view :: "BALANCER \<Rightarrow> BALANCER" where
  "bal_view b = b\<lparr>members := map server_view (members b), clones := map server_view (clones b), hash_table := [],
     connection_rejected_log_suppress := False\<rparr>"

lemma map_upd_server: "server_view (f (srvs ! i)) = server_view (srvs ! i) \<Longrightarrow> map server_view (upd_server i f srvs) = map server_view srvs"
  by (cases "i < length srvs") (simp_all add: upd_server_def map_update list_update_same_conv list_update_beyond)

lemma bal_view_upd [simp]:
  "server_view (f (members b ! i)) = server_view (members b ! i) \<Longrightarrow> bal_view (upd_member i f b) = bal_view b"
  "server_view (f (clones b ! i)) = server_view (clones b ! i) \<Longrightarrow> bal_view (upd_clone i f b) = bal_view b"
  by (simp_all add: bal_view_def upd_member_def upd_clone_def map_upd_server)

lemma server_view_counters [simp]:
  "server_view (conn_start s) = server_view s" "server_view (conn_done s) = server_view s"
  "server_view (brecv_add n s) = server_view s" "server_view (bsent_add n s) = server_view s"
  "server_view (usage_inc s) = server_view s" "server_view (usage_dec s) = server_view s"
  by (simp_all add: server_view_def conn_start_def conn_done_def brecv_add_def bsent_add_def usage_inc_def usage_dec_def)

lemma bal_view_fields [simp]:
  "bal_view (b\<lparr>connection_rejected_log_suppress := t\<rparr>) = bal_view b" "bal_view (set_table h m b) = bal_view b"
  by (simp_all add: bal_view_def set_table_def)

section \<open>Every operation of the server process keeps it\<close>

definition framed :: "LB \<Rightarrow> LB \<Rightarrow> bool" where
  "framed lb lb' \<longleftrightarrow> bal_view (balancer lb') = bal_view (balancer lb)"

lemma framed_trans: "framed lb lb1 \<Longrightarrow> framed lb1 lb2 \<Longrightarrow> framed lb lb2"
  by (simp add: framed_def)

lemma framed_basic [simp]:
  "framed lb (upd_ses s f lb1) = framed lb lb1" "framed lb (epoll_add fd ev lb1) = framed lb lb1"
  "framed lb (epoll_mod fd ev lb1) = framed lb lb1" "framed lb (close_fd fd lb1) = framed lb lb1"
  "framed lb (reject_log lb1) = framed lb lb1" "framed lb (warn_unless t lb1) = framed lb lb1"
  "framed lb lb"
  by (simp_all add: framed_def warn_unless_def)

lemma framed_upd_server [simp]:
  "framed lb (upd_bal (upd_member i conn_start) lb1) = framed lb lb1" "framed lb (upd_bal (upd_clone i conn_start) lb1) = framed lb lb1"
  "framed lb (upd_bal (upd_member i conn_done) lb1) = framed lb lb1" "framed lb (upd_bal (upd_clone i conn_done) lb1) = framed lb lb1"
  "framed lb (upd_bal (upd_member i (brecv_add n)) lb1) = framed lb lb1" "framed lb (upd_bal (upd_clone i (brecv_add n)) lb1) = framed lb lb1"
  "framed lb (upd_bal (upd_member i (bsent_add n)) lb1) = framed lb lb1" "framed lb (upd_bal (upd_clone i (bsent_add n)) lb1) = framed lb lb1"
  by (simp_all add: framed_def)

lemma framed_queue:
  "get_new_session lb = Inr (p, lb') \<Longrightarrow> framed lb lb'" "add_unused_session s lb = Inr lb' \<Longrightarrow> framed lb lb'"
  "set_fd_session fd q lb = Inr lb' \<Longrightarrow> framed lb lb'"
  by (auto simp: get_new_session_def add_unused_session_def set_fd_session_def framed_def Let_def split: if_splits option.splits)

lemma framed_disconnect:
  "disconnect_member s lb = Inr lb' \<Longrightarrow> framed lb lb'" "disconnect_clone s lb = Inr lb' \<Longrightarrow> framed lb lb'"
  "framed lb (disconnect_client s lb)"
  by (auto simp: disconnect_member_def disconnect_clone_def disconnect_client_def Let_def res_bind_eq_Inr split: if_splits)

lemma framed_delete_session:
  assumes "delete_session s lb = Inr lb'"
  shows "framed lb lb'"
proof -
  define lb0 where "lb0 = (if flag (sessions lb ! s) STATE_CLI_CONNECTED then disconnect_client s lb else lb)"
  obtain lb1 lb2 where 1: "(if flag (sessions lb0 ! s) STATE_MEM_CONNECTED then disconnect_member s lb0 else Inr lb0) = Inr lb1"
    and 2: "(if flag (sessions lb1 ! s) STATE_CLO_CONNECTED then disconnect_clone s lb1 else Inr lb1) = Inr lb2"
    and 3: "add_unused_session s (upd_ses s session_reset lb2) = Inr lb'"
    using assms by (auto simp: delete_session_def Let_def lb0_def [symmetric] res_bind_eq_Inr)
  have "framed lb lb0" by (simp add: lb0_def framed_disconnect(3))
  moreover have "framed lb0 lb1" using 1 framed_disconnect(1) by (auto split: if_split_asm)
  moreover have "framed lb1 lb2" using 2 framed_disconnect(2) by (auto split: if_split_asm)
  moreover have "framed lb2 lb'" using framed_queue(2) [OF 3] by (simp add: framed_def)
  ultimately show ?thesis by (simp add: framed_def)
qed

lemma framed_connect_member: "connect_member s k lb = Inr (st, lb') \<Longrightarrow> framed lb lb'"
  by (auto simp: connect_member_def Let_def res_bind_eq_Inr split: if_splits dest!: framed_queue(3)) (auto simp: framed_def warn_unless_def)

lemma framed_connect_clone: "connect_clone s k lb = Inr (st, lb') \<Longrightarrow> framed lb lb'"
  by (auto simp: connect_clone_def Let_def res_bind_eq_Inr split: if_splits dest!: framed_queue(3)) (auto simp: framed_def warn_unless_def)

lemma framed_connect_server: "connect_server s km kc lb = Inr (st, lb') \<Longrightarrow> framed lb lb'"
  by (auto simp: connect_server_def res_bind_eq_Inr split: if_splits dest!: framed_connect_member framed_connect_clone intro: framed_trans)

lemma framed_select [simp]:
  "balancer (set_rr_server (lb :: LB)) = balancer lb" "balancer (set_lc_server (lb :: LB)) = balancer lb"
  "balancer (set_ll_server (lb :: LB)) = balancer lb"
  using selection_same_server(2-4) [of lb] by (simp_all add: same_server_def)

lemma framed_pick_clone: "pick_clone_by_hash h (lb :: LB) = Inr lb' \<Longrightarrow> balancer lb' = balancer lb"
  by (auto simp: pick_clone_by_hash_def Let_def split: if_split_asm)

lemma framed_set_hash_server:
  assumes "set_hash_server buf lb = Inr lb'"
  shows "framed lb lb'"
proof -
  obtain u where u: "request_uri buf = Inr u" using assms by (auto simp: set_hash_server_def res_bind_eq_Inr)
  show ?thesis
  proof (cases u)
    case None
    then show ?thesis using assms u by (auto simp: set_hash_server_def framed_def)
  next
    case (Some uri)
    then obtain key where "uri_key uri = Inr key" using assms u by (auto simp: set_hash_server_def res_bind_eq_Inr)
    then show ?thesis
      using assms u Some by (auto simp: set_hash_server_def framed_def Let_def split: if_split_asm dest!: framed_pick_clone)
  qed
qed

lemma framed_run_algorithm:
  assumes "run_algorithm buf lb = Inr lb'"
  shows "framed lb lb'"
proof (cases "algorithm (balancer lb)")
  case ALGORITHM_STATIC
  then show ?thesis
    using assms by (auto simp: run_algorithm_def set_static_server_def res_bind_eq_Inr Let_def framed_def
        split: option.split_asm if_split_asm dest!: framed_pick_clone)
qed (use assms framed_set_hash_server in \<open>auto simp: run_algorithm_def framed_def\<close>)

lemma framed_choose_server:
  assumes "choose_server s km kc lb = Inr (st, lb')"
  shows "framed lb lb'"
proof -
  define lb0 where "lb0 = snd (get_available_servers lb)"
  have 0: "framed lb lb0" using selection_same_server(1) [of lb] by (simp add: lb0_def framed_def same_server_def)
  show ?thesis
  proof (cases "fst (get_available_servers lb) = 0")
    case True
    then obtain lb1 where "run_algorithm (client_read_buffer (sessions lb0 ! s)) lb0 = Inr lb1" "connect_server s km kc lb1 = Inr (st, lb')"
      using assms by (auto simp: choose_server_def case_prod_beta Let_def lb0_def res_bind_eq_Inr)
    then show ?thesis using 0 framed_run_algorithm framed_connect_server framed_trans by metis
  next
    case False
    then show ?thesis using assms 0 by (simp add: choose_server_def case_prod_beta Let_def lb0_def)
  qed
qed

section \<open>Handlers\<close>

lemma framed_client_read_fresh: "client_read_fresh s km kc lb = Inr (r, lb') \<Longrightarrow> framed lb lb'"
  by (auto simp: client_read_fresh_def res_bind_eq_Inr split: if_splits prod.splits dest!: framed_choose_server framed_delete_session)
    (auto simp: framed_def)

lemma framed_client_read_clone: "client_read_clone s n lb = Inr lb' \<Longrightarrow> framed lb lb'"
  by (auto simp: client_read_clone_def split: if_splits dest: framed_disconnect(1,2))

lemma framed_client_read_maintain: "framed lb (client_read_maintain s lb)"
  by (simp add: client_read_maintain_def maintain_client_def Let_def)

lemma framed_client_read:
  assumes "client_read fd rd km kc lb = Inr lb'"
  shows "framed lb lb'"
proof -
  obtain s where s: "fd_session fd lb = Inr s" using assms by (auto simp: client_read_def res_bind_eq_Inr)
  show ?thesis
  proof (cases "rd = Rd_err \<or> rd = Rd []")
    case True
    then have "delete_session s lb = Inr lb'" using assms s by (auto simp: client_read_def)
    then show ?thesis by (rule framed_delete_session)
  next
    case False
    then obtain bs where bs: "rd = Rd bs" "bs \<noteq> []" by (cases rd) auto
    then obtain r lb1 where 1: "client_read_fresh s km kc (upd_ses s (client_recv bs) lb) = Inr (r, lb1)"
      "(if r then Inr lb1 else res_bind (client_read_clone s (length bs) lb1) (\<lambda>lb. Inr (client_read_maintain s lb))) = Inr lb'"
      using assms s by (auto simp: client_read_def res_bind_eq_Inr)
    have "framed lb lb1" using framed_client_read_fresh [OF 1(1)] by (simp add: framed_def)
    moreover have "framed lb1 lb'"
      using 1(2) framed_client_read_clone framed_client_read_maintain framed_trans
      by (metis (no_types, lifting) Inr_inject framed_basic(7) res_bind_eq_Inr)
    ultimately show ?thesis by (rule framed_trans)
  qed
qed

lemma framed_client_write: "client_write fd n lb = Inr lb' \<Longrightarrow> framed lb lb'"
  by (auto simp: client_write_def res_bind_eq_Inr Let_def maintain_client_def maintain_member_def split: if_splits dest!: framed_delete_session)
    (auto simp: framed_def)

lemma framed_member_read: "member_read fd rd lb = Inr lb' \<Longrightarrow> framed lb lb'"
  by (cases rd) (auto simp: member_read_def res_bind_eq_Inr Let_def maintain_member_def split: if_split_asm
      dest!: framed_delete_session framed_disconnect(1,2))

lemma framed_member_write: "member_write fd n lb = Inr lb' \<Longrightarrow> framed lb lb'"
  by (auto simp: member_write_def res_bind_eq_Inr Let_def maintain_member_def split: if_splits dest!: framed_disconnect(1,2))

lemma framed_clone_read: "clone_read fd rd lb = Inr lb' \<Longrightarrow> framed lb lb'"
  by (cases rd) (auto simp: clone_read_def res_bind_eq_Inr split: if_splits dest!: framed_disconnect(1,2))

lemma framed_clone_write: "clone_write fd n lb = Inr lb' \<Longrightarrow> framed lb lb'"
  by (auto simp: clone_write_def res_bind_eq_Inr Let_def split: if_splits dest!: framed_disconnect(1,2))

lemma framed_accept_client:
  assumes "accept_client a km kc lb = Inr lb'"
  shows "framed lb lb'"
proof (cases "0 \<le> ac_fd a \<and> ac_nonblock a \<and> ac_nodelay a")
  case False
  then show ?thesis using assms by (auto simp: accept_client_def Let_def split: if_split_asm)
next
  case True
  then obtain p lb1 lb2 where 1: "get_new_session lb = Inr (p, lb1)" "set_fd_session (ac_fd a) p lb1 = Inr lb2"
    using assms by (auto simp: accept_client_def Let_def res_bind_eq_Inr)
  have f: "framed lb lb2" using framed_queue(1) [OF 1(1)] framed_queue(3) [OF 1(2)] by (rule framed_trans)
  show ?thesis
  proof (cases p)
    case None
    then show ?thesis using assms True 1 f by (auto simp: accept_client_def Let_def)
  next
    case (Some s)
    define lb3 where "lb3 = upd_ses s (\<lambda>x. x\<lparr>clientfd := ac_fd a\<rparr>) (upd_ses s (set_bits STATE_CLI_READ_READY) (upd_ses s (set_bits STATE_CLI_CONNECTED) lb2))"
    have f3: "framed lb lb3" using f by (simp add: lb3_def)
    have "framed lb3 lb'"
      using assms True 1 Some unfolding accept_client_def Let_def
      by (auto simp: lb3_def [symmetric] res_bind_eq_Inr split: if_split_asm prod.split_asm dest!: framed_delete_session framed_choose_server)
        (auto simp: framed_def)
    with f3 show ?thesis by (rule framed_trans)
  qed
qed

lemma framed_io_event:
  assumes "io_event on_fail on_in on_out ev lb = Inr lb'"
    and "\<And>lb lb'. on_fail lb = Inr lb' \<Longrightarrow> framed lb lb'" "\<And>lb lb'. on_in lb = Inr lb' \<Longrightarrow> framed lb lb'"
      "\<And>lb lb'. on_out lb = Inr lb' \<Longrightarrow> framed lb lb'"
  shows "framed lb lb'"
  using assms framed_trans by (auto simp: io_event_def res_bind_eq_Inr split: if_splits) metis

lemma framed_handle_event:
  assumes "handle_event l ev lb = Inr lb'"
  shows "framed lb lb'"
  using assms
  by (auto simp: handle_event_def Let_def res_bind_eq_Inr split: if_splits
      intro: framed_accept_client framed_io_event framed_delete_session framed_disconnect framed_client_read framed_client_write
        framed_member_read framed_member_write framed_clone_read framed_clone_write)

section \<open>The frame of the server process\<close>

text \<open>
  C10. No event that the server process handles changes a server's name, address, port, state, limits or
  load, the number of servers, or any setting of the balancer: it writes connection counts, byte
  counters, the hash table with its usage counters and the log flag, and nothing else.
\<close>

theorem server_writes_only_counters:
  assumes "handle_event listenerfd ev lb = Inr lb'"
  shows "bal_view (balancer lb') = bal_view (balancer lb)"
  using framed_handle_event [OF assms] by (simp add: framed_def)

theorem server_writes_only_counters_witness:
  "\<exists>lb'. handle_event 3 (plain_event 5 (Rd [71, 69, 84]) 0) live_lb = Inr lb' \<and> bal_view (balancer lb') = bal_view (balancer live_lb)"
proof -
  obtain lb' where "handle_event 3 (plain_event 5 (Rd [71, 69, 84]) 0) live_lb = Inr lb'"
    using handle_event_kept [OF live_lb_ok, of "plain_event 5 (Rd [71, 69, 84]) 0" 3 0]
    by (auto simp: plain_event_def live_fds io_contract_def read_fits_def kept_def)
  then show ?thesis using server_writes_only_counters by blast
qed

end
