(* ===== verification/Interleaving.thy ===== *)
theory Interleaving
  imports Admin_Laws Server_Frame
begin

text \<open>
  The monitor in small steps. The program has no locks, and a health check waits up to
  \<open>connect_timeout\<close> seconds in \<open>select\<close> between reading a server's state and writing it, so that the other
  processes run in the middle of a round. A step of \<open>monitor_step\<close> touches one server; a check and a load
  query take two, and \<open>mon_pc\<close> remembers the server in between. A round is a sequence of such steps.
\<close>

section \<open>Steps\<close>

datatype mon_pc = Idle | Probing server_ref | Polling server_ref

definition used_ref :: "server_ref \<Rightarrow> BALANCER \<Rightarrow> bool" where
  "used_ref r b \<longleftrightarrow> srv_status (get_ref r b) \<noteq> SERVER_STATE_FREE"

definition delete_at :: "server_ref \<Rightarrow> BALANCER \<Rightarrow> BALANCER" where
  "delete_at r b = (case r of
     Member_ref i \<Rightarrow> if i < nmembers b then delete_member_at i b else b
   | Clone_ref i \<Rightarrow> if i < nclones b then delete_clone_at i b else b)"

text \<open>
  The part of a health check before the wait, and the part after it: a failed system call ends the
  check, otherwise the outcome is written, whatever the state of the server is by then. In the step
  \<open>interval\<close>, \<open>seconds\<close> is the monitor interval, of which the round made a copy at its start.
\<close>

definition probe_due :: "SERVER \<Rightarrow> bool" where
  "probe_due s \<longleftrightarrow> srv_status s = SERVER_STATE_ENABLED \<or> srv_status s = SERVER_STATE_FAILED"

definition probe_finish :: "PROBE \<Rightarrow> server_ref \<Rightarrow> BALANCER \<Rightarrow> BALANCER" where
  "probe_finish p r b =
     (if pb_socket p \<and> pb_nonblock p \<and> pb_nodelay p \<and> pb_connect p then set_cloned_state (upd_ref r (probe_server p) b) else b)"

definition snmp_due :: "SERVER \<Rightarrow> bool" where
  "snmp_due s \<longleftrightarrow> srv_status s = SERVER_STATE_ENABLED \<or> srv_status s = SERVER_STATE_DISABLED"

definition snmp_finish :: "snmp_reply \<Rightarrow> SERVER \<Rightarrow> SERVER" where
  "snmp_finish r s = (case r of Snmp_vars vs \<Rightarrow> s\<lparr>srv_load := snmp_load vs (srv_load s)\<rparr> | _ \<Rightarrow> s\<lparr>srv_load := SNMP_LOAD_FAILED\<rparr>)"

inductive monitor_step :: "(SERVER list \<Rightarrow> SERVER list) \<Rightarrow> mon_pc \<times> BALANCER \<Rightarrow> mon_pc \<times> BALANCER \<Rightarrow> bool" for qsort where
  reset_log: "monitor_step qsort (Idle, b) (Idle, b\<lparr>connection_rejected_log_suppress := False\<rparr>)"
| remove: "monitor_step qsort (Idle, b) (Idle, delete_at r b)"
| probe_start: "probe_due (get_ref r b) \<Longrightarrow> monitor_step qsort (Idle, b) (Probing r, b)"
| probe_end: "monitor_step qsort (Probing r, b) (Idle, probe_finish p r b)"
| snmp_start: "snmp_due (get_ref r b) \<Longrightarrow> monitor_step qsort (Idle, b) (Polling r, b)"
| snmp_end: "monitor_step qsort (Polling r, b) (Idle, upd_ref r (snmp_finish reply) b)"
| loading: "used_ref r b \<or> e = 0 \<Longrightarrow> c_int e \<Longrightarrow> monitor_step qsort (Idle, b) (Idle, upd_ref r (\<lambda>x. x\<lparr>srv_e_load := e\<rparr>) b)"
| overall: "c_int e \<Longrightarrow> monitor_step qsort (Idle, b) (Idle, b\<lparr>overall_load := e\<rparr>)"
| interval: "monitor_step qsort (Idle, b) (Idle, b\<lparr>hash_rebalance_interval := int (unat (seconds :: 16 word))\<rparr>)"
| rebalance: "monitor_step qsort (Idle, b) (Idle, rebalance_hash qsort b)"

inductive_cases monitor_stepE: "monitor_step qsort x y"

abbreviation idle_steps :: "(SERVER list \<Rightarrow> SERVER list) \<Rightarrow> BALANCER \<Rightarrow> BALANCER \<Rightarrow> bool" where
  "idle_steps qsort b b' \<equiv> (monitor_step qsort)\<^sup>*\<^sup>* (Idle, b) (Idle, b')"

section \<open>A round is a sequence of steps\<close>

lemma idle_fold:
  assumes "\<And>i b. i \<in> set is \<Longrightarrow> idle_steps qsort b (f i b)"
  shows "idle_steps qsort b (fold f is b)"
  using assms
proof (induction "is" arbitrary: b)
  case (Cons i "is")
  then have "idle_steps qsort b (f i b)" "idle_steps qsort (f i b) (fold f is (f i b))" by simp_all
  then show ?case using rtranclp_trans by fastforce
qed simp

lemma idle_delete: "idle_steps qsort b (handle_delete_servers b)"
proof -
  let ?b = "fold (\<lambda>i b. if i < nmembers b then delete_member_at i b else b) [0..<nmembers b] b"
  have "idle_steps qsort b ?b"
    by (rule idle_fold) (rule r_into_rtranclp, use monitor_step.remove [of qsort _ "Member_ref _"] in \<open>simp add: delete_at_def\<close>)
  moreover have "idle_steps qsort ?b (fold (\<lambda>i b. if i < nclones b then delete_clone_at i b else b) [0..<nclones ?b] ?b)"
    by (rule idle_fold) (rule r_into_rtranclp, use monitor_step.remove [of qsort _ "Clone_ref _"] in \<open>simp add: delete_at_def\<close>)
  ultimately show ?thesis by (simp add: handle_delete_servers_def Let_def)
qed

lemma idle_check:
  assumes "upd = (\<lambda>f. upd_ref r f)"
  shows "idle_steps qsort b (snd (check_server_state p (get_ref r b) upd b))"
proof (cases "probe_due (get_ref r b)")
  case True
  then have "snd (check_server_state p (get_ref r b) upd b) = probe_finish p r b"
    using assms by (auto simp: check_server_state_def probe_finish_def probe_due_def)
  moreover have "monitor_step qsort (Idle, b) (Probing r, b)" "monitor_step qsort (Probing r, b) (Idle, probe_finish p r b)"
    using True by (rule monitor_step.probe_start, intro monitor_step.probe_end)
  ultimately show ?thesis by (metis converse_rtranclp_into_rtranclp r_into_rtranclp)
next
  case False
  then show ?thesis by (simp add: check_server_state_def probe_due_def)
qed

lemma idle_checks: "idle_steps qsort b (check_members ps b)" "idle_steps qsort b (check_clones ps b)"
proof -
  have "idle_steps qsort b (snd (check_server_state (ps i) (members b ! i) (upd_member i) b))"
    "idle_steps qsort b (snd (check_server_state (ps i) (clones b ! i) (upd_clone i) b))" for i b
    using idle_check [of "upd_member i" "Member_ref i" qsort b "ps i"] idle_check [of "upd_clone i" "Clone_ref i" qsort b "ps i"]
    by (simp_all add: upd_ref_def get_ref_def fun_eq_iff)
  then show "idle_steps qsort b (check_members ps b)" "idle_steps qsort b (check_clones ps b)"
    unfolding check_members_def check_clones_def by (auto intro: idle_fold)
qed

lemma idle_snmp: "idle_steps qsort b (upd_ref r (check_server_snmp reply) b)"
proof (cases "snmp_due (get_ref r b)")
  case True
  then have "check_server_snmp reply (get_ref r b) = snmp_finish reply (get_ref r b)"
    by (auto simp: check_server_snmp_def snmp_finish_def snmp_due_def split: snmp_reply.split)
  then have "upd_ref r (check_server_snmp reply) b = upd_ref r (snmp_finish reply) b"
    by (cases r) (simp_all add: upd_ref_def get_ref_def upd_member_def upd_clone_def upd_server_def)
  moreover have "monitor_step qsort (Idle, b) (Polling r, b)" "monitor_step qsort (Polling r, b) (Idle, upd_ref r (snmp_finish reply) b)"
    using True by (rule monitor_step.snmp_start, intro monitor_step.snmp_end)
  ultimately show ?thesis by (metis converse_rtranclp_into_rtranclp r_into_rtranclp)
next
  case False
  then have "check_server_snmp reply (get_ref r b) = get_ref r b" by (simp add: check_server_snmp_def snmp_due_def)
  then have "upd_ref r (check_server_snmp reply) b = b"
    by (cases r) (simp_all add: upd_ref_def get_ref_def upd_member_def upd_clone_def upd_server_def)
  then show ?thesis by simp
qed

lemma idle_snmp_all: "idle_steps qsort b (snmp_all rm rc b)"
proof -
  have "idle_steps qsort b (upd_member i (check_server_snmp reply) b)" "idle_steps qsort b (upd_clone i (check_server_snmp reply) b)" for i reply b
    using idle_snmp [of qsort b "Member_ref i" reply] idle_snmp [of qsort b "Clone_ref i" reply] by (simp_all add: upd_ref_def)
  then have "idle_steps qsort b (fold (\<lambda>i. upd_member i (check_server_snmp (rm i))) is b)"
    "idle_steps qsort b (fold (\<lambda>i. upd_clone i (check_server_snmp (rc i))) is b)" for "is" b by (auto intro: idle_fold)
  then show ?thesis unfolding snmp_all_def Let_def using rtranclp_trans by metis
qed

lemma f_to_int_c_int: "f_to_int x = Inr e \<Longrightarrow> c_int e"
  by (cases x) (auto simp: c_int_def Let_def split: if_splits)

lemma c_int_0 [simp]: "c_int 0"
  by (simp add: c_int_def INT_MIN_def INT_MAX_def)

text \<open>A free slot has the load 0, so that its effective load is written as 0.\<close>

lemma idle_member_loads:
  assumes "member_loads is (l, m, b) = Inr (l', m', b')" and "\<forall>i. srv_status (members b ! i) = SERVER_STATE_FREE \<longrightarrow> i \<in> set is \<longrightarrow> srv_load (members b ! i) = Fin 0"
  shows "idle_steps qsort b b'"
  using assms
proof (induction "is" arbitrary: l m b)
  case (Cons i "is")
  let ?l = "srv_load (members b ! i)" and ?m = "srv_maxl (members b ! i)" and ?b = "\<lambda>e. upd_member i (\<lambda>x. x\<lparr>srv_e_load := e\<rparr>) b"
  have "\<exists>e l1 m1. (used_ref (Member_ref i) b \<or> e = 0) \<and> c_int e \<and> member_loads is (l1, m1, ?b e) = Inr (l', m', b')"
  proof (cases "f_le ?l (Fin 0) \<or> f_le ?m (Fin 0)")
    case True
    then have "member_loads is (l, m, ?b 0) = Inr (l', m', b')" using Cons.prems(1) by (simp add: Let_def)
    then show ?thesis using c_int_0 by blast
  next
    case False
    then have "used_ref (Member_ref i) b" using Cons.prems(2) by (auto simp: used_ref_def get_ref_def)
    then show ?thesis using Cons.prems(1) False f_to_int_c_int by (auto simp: Let_def res_bind_eq_Inr)
  qed
  then obtain e l1 m1 where e: "used_ref (Member_ref i) b \<or> e = 0" "c_int e" "member_loads is (l1, m1, ?b e) = Inr (l', m', b')" by blast
  have "monitor_step qsort (Idle, b) (Idle, ?b e)" using monitor_step.loading [OF e(1,2), of qsort] by (simp add: upd_ref_def)
  moreover have "idle_steps qsort (?b e) b'"
  proof (rule Cons.IH [OF e(3)])
    have "srv_status (members (?b e) ! k) = srv_status (members b ! k)" "srv_load (members (?b e) ! k) = srv_load (members b ! k)" for k
      using upd_server_field [of srv_status "\<lambda>x. x\<lparr>srv_e_load := e\<rparr>"] upd_server_field [of srv_load "\<lambda>x. x\<lparr>srv_e_load := e\<rparr>"] by simp_all
    then show "\<forall>k. srv_status (members (?b e) ! k) = SERVER_STATE_FREE \<longrightarrow> k \<in> set is \<longrightarrow> srv_load (members (?b e) ! k) = Fin 0"
      using Cons.prems(2) by simp
  qed
  ultimately show ?case by (rule converse_rtranclp_into_rtranclp)
qed simp

lemma idle_clone_loads:
  assumes "clone_loads is b = Inr b'"
    and "\<forall>i. srv_status (clones b ! i) = SERVER_STATE_FREE \<longrightarrow> i \<in> set is \<longrightarrow> srv_maxl (clones b ! i) = Fin 0"
  shows "idle_steps qsort b b'"
  using assms
proof (induction "is" arbitrary: b)
  case (Cons i "is")
  let ?l = "srv_load (clones b ! i)" and ?m = "srv_maxl (clones b ! i)" and ?b = "\<lambda>e. upd_clone i (\<lambda>x. x\<lparr>srv_e_load := e\<rparr>) b"
  have "\<exists>e. (used_ref (Clone_ref i) b \<or> e = 0) \<and> c_int e \<and> clone_loads is (?b e) = Inr b'"
  proof (cases "f_lt ?l (Fin 0) \<or> f_le ?m (Fin 0)")
    case True
    then have "clone_loads is (?b 0) = Inr b'" using Cons.prems(1) by (simp add: Let_def)
    then show ?thesis using c_int_0 by blast
  next
    case False
    then have "used_ref (Clone_ref i) b" using Cons.prems(2) by (auto simp: used_ref_def get_ref_def)
    then show ?thesis using Cons.prems(1) False f_to_int_c_int by (auto simp: Let_def res_bind_eq_Inr)
  qed
  then obtain e where e: "used_ref (Clone_ref i) b \<or> e = 0" "c_int e" "clone_loads is (?b e) = Inr b'" by blast
  have "monitor_step qsort (Idle, b) (Idle, ?b e)" using monitor_step.loading [OF e(1,2), of qsort] by (simp add: upd_ref_def)
  moreover have "idle_steps qsort (?b e) b'"
  proof (rule Cons.IH [OF e(3)])
    have "srv_status (clones (?b e) ! k) = srv_status (clones b ! k)" "srv_maxl (clones (?b e) ! k) = srv_maxl (clones b ! k)" for k
      using upd_server_field [of srv_status "\<lambda>x. x\<lparr>srv_e_load := e\<rparr>"] upd_server_field [of srv_maxl "\<lambda>x. x\<lparr>srv_e_load := e\<rparr>"] by simp_all
    then show "\<forall>k. srv_status (clones (?b e) ! k) = SERVER_STATE_FREE \<longrightarrow> k \<in> set is \<longrightarrow> srv_maxl (clones (?b e) ! k) = Fin 0"
      using Cons.prems(2) by simp
  qed
  ultimately show ?case by (rule converse_rtranclp_into_rtranclp)
qed simp

lemma idle_calc:
  assumes ok: "balancer_ok b" and r: "calc_effective_load b = Inr b'"
  shows "idle_steps qsort b b'"
proof -
  have free: "srv_load (srvs ! i) = Fin 0 \<and> srv_maxl (srvs ! i) = Fin 0"
    if "table_ok srvs n" "i < n" "srv_status (srvs ! i) = SERVER_STATE_FREE" for srvs n i
  proof -
    have "srvs ! i = zero_server" using table_okD(2,4) [OF that(1)] that(2,3) by simp
    then show ?thesis by (simp add: zero_server_def)
  qed
  obtain l m b1 where 1: "member_loads [0..<nmembers b] (Fin 0, Fin 0, b) = Inr (l, m, b1)"
    using r by (auto simp: calc_effective_load_def res_bind_eq_Inr)
  then obtain b2 where 2: "clone_loads [0..<nclones b1] b1 = Inr b2"
    and b': "b' = b2 \<or> (\<exists>e. c_int e \<and> b' = b2\<lparr>overall_load := e\<rparr>)"
    using r f_to_int_c_int by (auto simp: calc_effective_load_def res_bind_eq_Inr split: if_splits)
  have ok1: "balancer_ok b1" using keeps_member_loads [OF 1] ok by (simp add: keeps_def)
  have "idle_steps qsort b b1" by (rule idle_member_loads [OF 1]) (use free [of "members b" "nmembers b"] ok in \<open>auto simp: balancer_ok_def\<close>)
  moreover have "idle_steps qsort b1 b2" by (rule idle_clone_loads [OF 2]) (use free [of "clones b1" "nclones b1"] ok1 in \<open>auto simp: balancer_ok_def\<close>)
  moreover have "idle_steps qsort b2 b'" using b' by (auto intro: monitor_step.overall)
  ultimately show ?thesis by (meson rtranclp_trans)
qed

lemma idle_snmp_round:
  assumes ok: "balancer_ok b" and r: "monitor_snmp_round qsort env j b = Inr (j', b')"
  shows "idle_steps qsort b b'"
proof (cases "snmp_status b = SNMP_ENABLED \<and> snmp_community_pw b \<noteq> None")
  case False
  then show ?thesis using r by (auto simp: monitor_snmp_round_def)
next
  case True
  let ?b0 = "snmp_all (me_snmp env) (me_clone_snmp env) b"
  obtain b1 where 1: "calc_effective_load ?b0 = Inr b1" using True r by (auto simp: monitor_snmp_round_def res_bind_eq_Inr)
  define b2 where "b2 = (if hash_rebalance_interval b1 < int (unat (monitor_interval b1))
    then b1\<lparr>hash_rebalance_interval := int (unat (monitor_interval b1))\<rparr> else b1)"
  have "balancer_ok ?b0" using snmp_checks.keeps_op ok by (simp add: keeps_def)
  then have "idle_steps qsort ?b0 b1" by (rule idle_calc [OF _ 1])
  moreover have "idle_steps qsort b1 b2" unfolding b2_def using r_into_rtranclp [where r = "monitor_step qsort"] monitor_step.interval [of qsort b1 "monitor_interval b1"] by auto
  moreover have "idle_steps qsort b2 (rebalance_hash qsort b2)" by (rule r_into_rtranclp) (rule monitor_step.rebalance)
  moreover have "b' = b1 \<or> b' = b2 \<or> b' = rebalance_hash qsort b2"
    using r 1 True by (auto simp: monitor_snmp_round_def Let_def b2_def split: if_splits)
  ultimately show ?thesis using idle_snmp_all [of qsort b] by (meson rtranclp_trans)
qed

lemma idle_round:
  assumes ok: "balancer_ok b" and r: "monitor_round use_snmp qsort env j b = Inr (j', b')"
  shows "idle_steps qsort b b'"
proof -
  define b0 where "b0 = b\<lparr>connection_rejected_log_suppress := False\<rparr>"
  define b1 where "b1 = check_clones (me_clone_probe env) (check_members (me_probe env) (handle_delete_servers b0))"
  have 0: "idle_steps qsort b b0" unfolding b0_def by (rule r_into_rtranclp) (rule monitor_step.reset_log)
  have "idle_steps qsort b0 (check_members (me_probe env) (handle_delete_servers b0))"
    using idle_delete idle_checks(1) by (rule rtranclp_trans)
  then have 1: "idle_steps qsort b0 b1" unfolding b1_def using idle_checks(2) by (rule rtranclp_trans)
  have "keeps b b0" by (rule keeps_cong) (simp_all add: b0_def)
  then have "balancer_ok b0" using ok by (simp add: keeps_def)
  then have "balancer_ok b1"
    using deletion.keeps_op member_checks.keeps_op clone_checks.keeps_op by (simp add: keeps_def b1_def)
  moreover have "b' = b0 \<or> b' = b1 \<or> monitor_snmp_round qsort env j b1 = Inr (j', b')"
    using r by (auto simp: monitor_round_def Let_def b0_def [symmetric] b1_def [symmetric] split: if_splits)
  ultimately have "b' = b0 \<or> b' = b1 \<or> idle_steps qsort b1 b'" using idle_snmp_round by blast
  then show ?thesis using 0 rtranclp_trans [OF 0 1] rtranclp_trans [OF rtranclp_trans [OF 0 1]] by (elim disjE) simp_all
qed

section \<open>Steps keep the server process safe\<close>

lemma keeps_used_ref:
  assumes "used_ref r b" and "\<And>s. srv_status s \<noteq> SERVER_STATE_FREE \<Longrightarrow> srv_status (f s) \<noteq> SERVER_STATE_FREE"
    and "\<And>s. srv_id (f s) = srv_id s \<and> srv_c (f s) = srv_c s \<and> srv_hash_table_usage (f s) = srv_hash_table_usage s"
  shows "keeps b (upd_ref r f b)"
  using assms by (cases r) (auto simp: upd_ref_def used_ref_def get_ref_def intro!: keeps_upd_member keeps_upd_clone)

text \<open>The server that the monitor is waiting for is in use.\<close>

definition mon_ok :: "mon_pc \<Rightarrow> BALANCER \<Rightarrow> bool" where
  "mon_ok pc b \<longleftrightarrow> (case pc of Idle \<Rightarrow> True | Probing r \<Rightarrow> used_ref r b | Polling r \<Rightarrow> used_ref r b)"

lemma keeps_monitor_step:
  assumes "monitor_step qsort (pc, b) (pc', b')" and "sorts_by_load qsort" and "mon_ok pc b"
  shows "keeps b b'"
  using assms(1)
proof cases
  case reset_log
  then show ?thesis by (auto intro: keeps_cong)
next
  case (remove r)
  then show ?thesis using keeps_delete_member keeps_delete_clone by (cases r) (simp_all add: delete_at_def)
next
  case (probe_end r p)
  have "keeps b (upd_ref r (probe_server p) b)"
    by (rule keeps_used_ref) (use probe_end assms(3) in \<open>simp_all add: mon_ok_def probe_server_def Let_def\<close>)
  then show ?thesis using probe_end keeps_trans [OF _ keeps_set_cloned_state] by (simp add: probe_finish_def)
next
  case (snmp_end r reply)
  have "keeps b (upd_ref r (snmp_finish reply) b)"
    by (rule keeps_used_ref) (use snmp_end assms(3) in \<open>auto simp: mon_ok_def snmp_finish_def split: snmp_reply.split\<close>)
  then show ?thesis using snmp_end by simp
next
  case (loading r e)
  then show ?thesis using keeps_e_load keeps_clone_e_load by (cases r) (auto simp: upd_ref_def used_ref_def get_ref_def)
next
  case rebalance
  then show ?thesis using shared_op.keeps_op [OF rebalance_shared [OF assms(2)]] by simp
qed (auto intro: keeps_cong)

lemma mon_ok_monitor_step:
  assumes "monitor_step qsort (pc, b) (pc', b')"
  shows "mon_ok pc' b'"
  using assms by cases (auto simp: mon_ok_def used_ref_def probe_due_def snmp_due_def)

section \<open>Other processes do not free slots\<close>

definition keeps_used :: "BALANCER \<Rightarrow> BALANCER \<Rightarrow> bool" where
  "keeps_used b b' \<longleftrightarrow> (\<forall>r. used_ref r b \<longrightarrow> used_ref r b')"

lemma keeps_used_cong: "members b' = members b \<Longrightarrow> clones b' = clones b \<Longrightarrow> keeps_used b b'"
  by (simp add: keeps_used_def used_ref_def get_ref_def split: server_ref.split)

lemma keeps_used_trans: "keeps_used a b \<Longrightarrow> keeps_used b c \<Longrightarrow> keeps_used a c"
  by (simp add: keeps_used_def)

lemma keeps_used_mon_ok: "keeps_used b b' \<Longrightarrow> mon_ok pc b \<Longrightarrow> mon_ok pc b'"
  by (cases pc) (auto simp: mon_ok_def keeps_used_def)

lemma keeps_used_upd_ref:
  assumes "\<And>s. srv_status s \<noteq> SERVER_STATE_FREE \<Longrightarrow> srv_status (f s) \<noteq> SERVER_STATE_FREE"
  shows "keeps_used b (upd_ref r f b)"
proof -
  have "srv_status (upd_server i f srvs ! j) \<noteq> SERVER_STATE_FREE" if "srv_status (srvs ! j) \<noteq> SERVER_STATE_FREE" for i j srvs
    using that assms by (cases "i < length srvs") (auto simp: upd_server_def nth_list_update list_update_beyond)
  then show ?thesis by (cases r) (auto simp: keeps_used_def used_ref_def get_ref_def upd_ref_def split: server_ref.split)
qed

lemma keeps_used_place:
  assumes "place_server (new_server nm st sb port ip maxc maxl) srvs n = Inr (srvs', n')" and "st \<noteq> SERVER_STATE_FREE"
    and "srv_status (srvs ! j) \<noteq> SERVER_STATE_FREE"
  shows "srv_status (srvs' ! j) \<noteq> SERVER_STATE_FREE"
proof -
  obtain k where "srvs' = srvs[k := (new_server nm st sb port ip maxc maxl)\<lparr>srv_id := k\<rparr>]"
    using assms(1) by (auto simp: place_server_def Let_def upd_server_def split: option.split_asm if_split_asm)
  then show ?thesis using assms(2,3) by (cases "k < length srvs") (auto simp: nth_list_update list_update_beyond)
qed

definition status_stays :: "(SERVER \<Rightarrow> SERVER) \<Rightarrow> bool" where
  "status_stays f \<longleftrightarrow> (\<forall>s. srv_status s \<noteq> SERVER_STATE_FREE \<longrightarrow> srv_status (f s) \<noteq> SERVER_STATE_FREE)"

interpretation used: balancer_law keeps_used status_stays
proof unfold_locales
  show "keeps_used b b'"
    if "create_balancer_server m b cl nm SERVER_STATE_DISABLED STANDBY_STATE_FALSE (atoi port) ip (default_maxc b) (default_maxl b) = Inr (st, b')"
    for m b cl nm port ip st b'
    using that keeps_used_place
    by (auto simp: create_balancer_server_def Let_def res_bind_eq_Inr keeps_used_def used_ref_def get_ref_def
        split: if_split_asm server_ref.split)
  show "keeps_used b (upd_ref r f b)" if "status_stays f" for f b r
    by (rule keeps_used_upd_ref) (use that in \<open>simp add: status_stays_def\<close>)
  show "keeps_used b (set_cloned_state b)" for b by (rule keeps_used_cong) (simp_all add: set_cloned_state_def Let_def split: option.splits)
qed (auto simp: status_stays_def enable_server_def disable_server_def intro: keeps_used_cong keeps_used_trans)

lemma admin_keeps_used:
  assumes "\<not> scan_input input" and "command_prompt env input a = Inr a'"
  shows "keeps_used (adm_bal a) (adm_bal a')"
  using used.run_command_lawful [of input env a a'] assms by (simp add: command_prompt_def split: if_splits)

lemma nth_beyond: "length xs \<le> i \<Longrightarrow> xs ! i = [] ! (i - length xs)"
  by (induction xs arbitrary: i) (auto simp: nth_Cons split: nat.split)

lemma server_view_status: "srv_status (server_view s) = srv_status s"
  by (simp add: server_view_def)

lemma map_view_status:
  assumes "map server_view xs = map server_view ys"
  shows "srv_status (xs ! i) = srv_status (ys ! i)"
proof (cases "i < length xs")
  case True
  then have "server_view (xs ! i) = server_view (ys ! i)" using assms by (metis length_map nth_map)
  then show ?thesis using server_view_status by metis
next
  case False
  then show ?thesis using nth_beyond [of xs i] nth_beyond [of ys i] assms by (metis length_map linorder_not_less)
qed

lemma bal_view_tables:
  assumes "bal_view b' = bal_view b"
  shows "map server_view (members b') = map server_view (members b)" "map server_view (clones b') = map server_view (clones b)"
proof -
  have "members (bal_view b') = members (bal_view b)" "clones (bal_view b') = clones (bal_view b)" using assms by simp_all
  then show "map server_view (members b') = map server_view (members b)" "map server_view (clones b') = map server_view (clones b)"
    by (simp_all add: bal_view_def)
qed

lemma view_keeps_used:
  assumes "bal_view b' = bal_view b"
  shows "keeps_used b b'"
  unfolding keeps_used_def used_ref_def get_ref_def
  using map_view_status [OF bal_view_tables(1) [OF assms]] map_view_status [OF bal_view_tables(2) [OF assms]]
  by (simp split: server_ref.split)

lemma server_keeps_used:
  assumes "server_step l lb lb'"
  shows "keeps_used (balancer lb) (balancer lb')"
proof -
  obtain ev where "handle_event l ev lb = Inr lb'" using assms by (cases rule: server_step.cases) blast+
  then show ?thesis using framed_handle_event view_keeps_used by (simp add: framed_def)
qed

section \<open>Properties\<close>


definition calm_env :: MONITOR_ENV where
  "calm_env = \<lparr>me_probe = (\<lambda>i. good_probe), me_clone_probe = (\<lambda>i. good_probe),
    me_snmp = (\<lambda>i. Snmp_no_session), me_clone_snmp = (\<lambda>i. Snmp_no_session)\<rparr>"

definition leaving_after :: BALANCER where
  "leaving_after = check_clones (\<lambda>i. good_probe) (check_members (\<lambda>i. good_probe)
     (handle_delete_servers ((balancer leaving_lb)\<lparr>connection_rejected_log_suppress := False\<rparr>)))"

lemma leaving_round: "monitor_round False qsort calm_env 0 (balancer leaving_lb) = Inr (0, leaving_after)"
  by (simp add: monitor_round_def Let_def calm_env_def leaving_after_def leaving_lb_def sample_balancer_def upd_member_def)


lemma get_ref_upd_ref:
  assumes "balancer_ok b" and "live_ref r b"
  shows "get_ref r (upd_ref r f b) = f (get_ref r b)"
proof (cases r)
  case (Member_ref i)
  then have "i < length (members b)" using assms table_okD(1,2) by (fastforce simp: balancer_ok_def live_ref_def)
  then show ?thesis using Member_ref by (simp add: get_ref_def upd_ref_def upd_member_def upd_server_def)
next
  case (Clone_ref i)
  then have "i < length (clones b)" using assms table_okD(1,2) by (fastforce simp: balancer_ok_def live_ref_def)
  then show ?thesis using Clone_ref by (simp add: get_ref_def upd_ref_def upd_clone_def upd_server_def)
qed

text \<open>A check that finds the server answering.\<close>

definition probe_answers :: "PROBE \<Rightarrow> bool" where
  "probe_answers p \<longleftrightarrow> pb_socket p \<and> pb_nonblock p \<and> pb_nodelay p \<and> pb_connect p \<and> pb_select p \<ge> 1
     \<and> (pb_readable p \<longrightarrow> pb_read p \<noteq> - 1) \<and> \<not> pb_err p"

lemma probe_answers_enabled: "probe_answers p \<Longrightarrow> srv_status (probe_server p s) = SERVER_STATE_ENABLED"
  by (auto simp: probe_answers_def probe_server_def Let_def)

text \<open>
  C40. The monitor overrides the admin tool: when the tool disables the servers while the monitor waits
  in \<open>select\<close> for the answer of one of them, the command reports success and the server is disabled,
  but when the answer comes the monitor writes the state it found, and the server is in service again.
\<close>

theorem probe_undoes_disable:
  assumes "balancer_ok b" and "live_ref r b" and "probe_due (get_ref r b)" and "probe_answers p"
    and "\<not> readonly a" and "adm_bal a = b" and "length (subject a) = 2 * MAXSERVERS"
  shows "\<exists>d b'. monitor_step qsort (Idle, b) (Probing r, b) \<and> cmd_disable ''m'' ''all'' a = Inr (0, d)
    \<and> srv_status (get_ref r (adm_bal d)) = SERVER_STATE_DISABLED
    \<and> monitor_step qsort (Probing r, adm_bal d) (Idle, b') \<and> srv_status (get_ref r b') = SERVER_STATE_ENABLED"
proof -
  obtain a1 a2 where d: "set_subject ''m'' ''all'' True True a = Inr (0, a1)" "for_subjects disable_server [0..<subject_count a1] a1 = Inr a2"
    "\<forall>r. get_ref r (adm_bal a2) = (if live_ref r (adm_bal a) then disable_server (get_ref r (adm_bal a)) else get_ref r (adm_bal a))"
    "nmembers (adm_bal a2) = nmembers (adm_bal a)" "nclones (adm_bal a2) = nclones (adm_bal a)"
    by (rule for_all_subjects [where f = disable_server, OF assms(5) _ assms(7)]) (use assms(1,6) in auto)
  let ?d = "upd_shared set_cloned_state a2"
  have dis: "cmd_disable ''m'' ''all'' a = Inr (0, ?d)" using d(1,2) by (simp add: cmd_disable_def)
  have st: "srv_status (get_ref r (adm_bal ?d)) = SERVER_STATE_DISABLED"
    using d(3) assms(2,3,6) by (auto simp: disable_server_def probe_due_def)
  have ok: "balancer_ok (adm_bal ?d)" using safe.targets(2) [OF dis] assms(1,6,7) by (simp add: adm_safe_def keeps_def)
  have live: "live_ref r (adm_bal ?d)" using assms(2,6) d(4,5) st by (cases r) (simp_all add: live_ref_def live_server_def)
  have "srv_status (get_ref r (probe_finish p r (adm_bal ?d))) = SERVER_STATE_ENABLED"
    using get_ref_upd_ref [OF ok live] probe_answers_enabled [OF assms(4)] assms(4) by (simp add: probe_finish_def probe_answers_def)
  then show ?thesis
    using dis st monitor_step.probe_start [OF assms(3)] monitor_step.probe_end by blast
qed

theorem probe_undoes_disable_witness:
  "\<exists>d b'. monitor_step id (Idle, balancer live_lb) (Probing (Member_ref 1), balancer live_lb)
    \<and> cmd_disable ''m'' ''all'' (sample_admin (balancer live_lb)) = Inr (0, d)
    \<and> srv_status (members (adm_bal d) ! 1) = SERVER_STATE_DISABLED
    \<and> monitor_step id (Probing (Member_ref 1), adm_bal d) (Idle, b') \<and> srv_status (members b' ! 1) = SERVER_STATE_ENABLED"
proof -
  have "live_ref (Member_ref 1) (balancer live_lb)" "probe_due (get_ref (Member_ref 1) (balancer live_lb))"
    by (simp_all add: live_ref_def get_ref_def live_members_nth live_server_def probe_due_def sample_server_def)
  moreover have "probe_answers good_probe" by (simp add: probe_answers_def good_probe_def)
  ultimately show ?thesis
    using probe_undoes_disable [of "balancer live_lb" "Member_ref 1" good_probe "sample_admin (balancer live_lb)" id]
      lb_okD(1) [OF live_lb_ok] by (auto simp: get_ref_def)
qed

end
