(* ===== verification/Logging.thy ===== *)
theory Logging
  imports Connect
begin

text \<open>
  \<open>write_log\<close> of logging.c with everything it does: the suppression of repeated messages about rejected
  connections, the sinks a message goes to, and the fatal messages, which end the monitor, the master
  and the calling process. The result lists the effects in their order. \<open>None\<close> is the balancer pointer
  before start-up has allocated the structure. Elsewhere only the effect on the balancer is used,
  \<open>reject_log\<close> and \<open>warn_unless\<close>; the lemmas here connect them with \<open>write_log\<close>.
\<close>

section \<open>Messages and their effects\<close>

abbreviation OCTOPUS_LOG_STD :: "32 word" where "OCTOPUS_LOG_STD \<equiv> 0"
abbreviation OCTOPUS_LOG_EXIT :: "32 word" where "OCTOPUS_LOG_EXIT \<equiv> 1"
abbreviation OCTOPUS_LOG_SYSLOG :: "32 word" where "OCTOPUS_LOG_SYSLOG \<equiv> 2"

datatype suppress = SUPPRESS_OFF | SUPPRESS_CONN_REJECT

text \<open>\<open>To_file date description\<close> is a line of the log file; \<open>Kill_term\<close> sends SIGTERM.\<close>

datatype log_effect = To_stderr string | To_syslog string | To_file string string | Kill_term int | Wait_for int

text \<open>How the call ends: it returns, leaving the balancer, or it calls \<open>exit\<close>.\<close>

datatype log_end = Log_returns "BALANCER option" | Log_exits int

section \<open>The function\<close>

definition log_suppressed :: "suppress \<Rightarrow> BALANCER option \<Rightarrow> bool res" where
  "log_suppressed log_suppress p =
     (if log_suppress = SUPPRESS_CONN_REJECT then res_bind (deref p) (\<lambda>b. Inr (connection_rejected_log_suppress b)) else Inr False)"

definition log_set_flag :: "suppress \<Rightarrow> BALANCER option \<Rightarrow> BALANCER option" where
  "log_set_flag log_suppress p =
     (if log_suppress = SUPPRESS_CONN_REJECT then map_option (\<lambda>b. b\<lparr>connection_rejected_log_suppress := True\<rparr>) p else p)"

definition log_fatal :: "string \<Rightarrow> string \<Rightarrow> BALANCER option \<Rightarrow> log_effect list" where
  "log_fatal datebuf description p =
     (case p of None \<Rightarrow> [To_stderr description]
      | Some b \<Rightarrow>
          (if foreground b = FOREGROUND_INIT \<or> foreground b = FOREGROUND_ON then [To_stderr description] else [])
          @ (if use_syslog b = 1 then [To_syslog description] else [])
          @ (if log_file_open b then [To_file datebuf description] else [])
          @ (if monitor_pid b > 0 then [Kill_term (monitor_pid b)] else []) @ [Wait_for (monitor_pid b)]
          @ (if master_pid b > 0 then [Kill_term (master_pid b)] else []) @ [Wait_for (master_pid b)])"

definition log_normal :: "32 word \<Rightarrow> string \<Rightarrow> string \<Rightarrow> BALANCER option \<Rightarrow> log_effect list" where
  "log_normal options datebuf description p =
     (case p of None \<Rightarrow> [To_stderr description]
      | Some b \<Rightarrow>
          (if has options OCTOPUS_LOG_SYSLOG \<and> use_syslog b = 1 then [To_syslog description] else [])
          @ (if \<not> log_file_open b then [To_stderr description]
             else if foreground b = FOREGROUND_ON then [To_stderr description]
             else [To_file datebuf description]))"

definition write_log :: "string \<Rightarrow> 32 word \<Rightarrow> string \<Rightarrow> suppress \<Rightarrow> BALANCER option \<Rightarrow> (log_effect list \<times> log_end) res" where
  "write_log datebuf options description log_suppress p =
     res_bind (log_suppressed log_suppress p) (\<lambda>quiet.
       if quiet then Inr ([], Log_returns p)
       else
         (let p = log_set_flag log_suppress p in
          if has options OCTOPUS_LOG_EXIT then Inr (log_fatal datebuf description p, Log_exits (- 1))
          else Inr (log_normal options datebuf description p, Log_returns p)))"

section \<open>Effect on the balancer\<close>

lemma has_log_options [simp]:
  "\<not> has OCTOPUS_LOG_STD m" "has OCTOPUS_LOG_EXIT OCTOPUS_LOG_EXIT" "\<not> has OCTOPUS_LOG_SYSLOG OCTOPUS_LOG_EXIT"
  by (simp_all add: has_def)

text \<open>A message about a rejected connection changes the balancer as \<open>reject_log\<close> does, written or not.\<close>

lemma write_log_rejected:
  assumes "\<not> has options OCTOPUS_LOG_EXIT"
  shows "\<exists>out. write_log date options d SUPPRESS_CONN_REJECT (Some (balancer lb)) = Inr (out, Log_returns (Some (balancer (reject_log lb))))
    \<and> (connection_rejected_log_suppress (balancer lb) \<longleftrightarrow> out = [])"
proof (cases "connection_rejected_log_suppress (balancer lb)")
  case True
  then have "balancer (reject_log lb) = balancer lb" by simp
  then show ?thesis using True by (simp add: write_log_def log_suppressed_def)
next
  case False
  then show ?thesis using assms
    by (simp add: write_log_def log_suppressed_def log_set_flag_def log_normal_def Let_def)
qed

text \<open>A plain message leaves the balancer as it is and goes somewhere.\<close>

lemma write_log_plain:
  assumes "\<not> has options OCTOPUS_LOG_EXIT"
  shows "\<exists>out. write_log date options d SUPPRESS_OFF p = Inr (out, Log_returns p) \<and> out \<noteq> []"
  using assms
  by (simp add: write_log_def log_suppressed_def log_set_flag_def log_normal_def Let_def split: option.split)

text \<open>A fatal message never returns, with or without a balancer.\<close>

lemma write_log_fatal:
  "write_log date OCTOPUS_LOG_EXIT d SUPPRESS_OFF p = Inr (log_fatal date d p, Log_exits (- 1))"
  by (simp add: write_log_def log_suppressed_def log_set_flag_def)

section \<open>Suppression\<close>

text \<open>The messages about rejected connections between two resets of the flag, one after the other.\<close>

fun log_rejections :: "(string \<times> string) list \<Rightarrow> BALANCER \<Rightarrow> (log_effect list \<times> BALANCER) res" where
  "log_rejections [] b = Inr ([], b)"
| "log_rejections ((date, d) # ms) b =
     res_bind (write_log date OCTOPUS_LOG_STD d SUPPRESS_CONN_REJECT (Some b)) (\<lambda>(out, e).
       case e of Log_returns (Some b) \<Rightarrow> res_bind (log_rejections ms b) (\<lambda>(out', b). Inr (out @ out', b))
       | Log_returns None \<Rightarrow> Inl Null_deref
       | Log_exits n \<Rightarrow> Inl (Process_exit n))"

lemma log_rejections_quiet:
  "connection_rejected_log_suppress b \<Longrightarrow> log_rejections ms b = Inr ([], b)"
  by (induction ms) (auto simp: write_log_def log_suppressed_def)

text \<open>
  C28. Of any burst of messages about rejected connections only the first reaches the log, and none
  when one has been written since the monitor last reset the flag; afterwards the flag is set.
\<close>

theorem burst_logged_once:
  "log_rejections ((date, d) # ms) b
    = Inr (if connection_rejected_log_suppress b then [] else log_normal OCTOPUS_LOG_STD date d (Some b),
           b\<lparr>connection_rejected_log_suppress := True\<rparr>)"
proof (cases "connection_rejected_log_suppress b")
  case True
  then have "b\<lparr>connection_rejected_log_suppress := True\<rparr> = b" by simp
  then show ?thesis using True log_rejections_quiet [of b "(date, d) # ms"] by simp
next
  case False
  then show ?thesis
    using log_rejections_quiet [of "b\<lparr>connection_rejected_log_suppress := True\<rparr>" ms]
    by (simp add: write_log_def log_suppressed_def log_set_flag_def log_normal_def Let_def)
qed

end
