(* ===== verification/Shutdown.thy ===== *)
theory Shutdown
  imports Admin Logging
begin

text \<open>
  Shutting down, signals.c: what \<open>clean_exit\<close> does to the shared balancer when the master or the
  monitor receives a termination signal, and with which status the process ends. That \<open>waitpid\<close>
  returns, i.e. that the monitor ends too, is taken for granted; failures to remove the run file or
  to detach are only logged. \<open>signal_handler\<close> is installed for the six signals of \<open>signal\<close>.
\<close>

record EXIT_ENV =
  ex_malloc :: bool
  ex_shmctl :: int

definition clean_exit :: "EXIT_ENV \<Rightarrow> int \<Rightarrow> BALANCER \<Rightarrow> int \<times> BALANCER" where
  "clean_exit env pid b =
     (if pid = master_pid b then
        (let b = b\<lparr>alive := 0\<rparr> in
         if shmid b \<noteq> - 1 then
           (if \<not> ex_malloc env then (- 1, b)
            else if ex_shmctl env \<noteq> 0 then (- 1, b)
            else (0, b))
         else (0, b))
      else (0, b))"

text \<open>
  The handler; the exit status is there when the process ends in it. A signal that arrives before the
  balancer is allocated makes \<open>clean_exit\<close> follow the null pointer.
\<close>

datatype signal = SIGCHLD | SIGUSR1 | SIGALRM | SIGTERM | SIGINT | SIGSEGV

definition signal_handler :: "EXIT_ENV \<Rightarrow> int \<Rightarrow> string \<Rightarrow> signal \<Rightarrow> BALANCER option \<Rightarrow> (log_effect list \<times> int option \<times> BALANCER option) res" where
  "signal_handler env pid datebuf signum p =
     (let leave = (\<lambda>out. res_bind (deref p) (\<lambda>b. case clean_exit env pid b of (st, b) \<Rightarrow> Inr (out, Some st, Some b))) in
      case signum of
        SIGTERM \<Rightarrow> leave []
      | SIGINT \<Rightarrow> leave []
      | SIGSEGV \<Rightarrow>
          res_bind (write_log datebuf (OCTOPUS_LOG_STD OR OCTOPUS_LOG_SYSLOG) ''ERROR! Received signal SIGSEGV!!'' SUPPRESS_OFF p)
            (\<lambda>(out, e). leave out)
      | SIGCHLD \<Rightarrow> Inr ([], None, p) | SIGUSR1 \<Rightarrow> Inr ([], None, p) | SIGALRM \<Rightarrow> Inr ([], None, p))"

text \<open>
  The status with which a process ends after the effects of a fatal message: the SIGTERM that it
  sends to itself is handled before \<open>kill\<close> returns.
\<close>

definition fatal_status :: "EXIT_ENV \<Rightarrow> int \<Rightarrow> log_effect list \<Rightarrow> BALANCER \<Rightarrow> int" where
  "fatal_status env pid effects b = (if Kill_term pid \<in> set effects then fst (clean_exit env pid b) else - 1)"

lemma clean_exit_balancer:
  "snd (clean_exit env pid b) = (if pid = master_pid b then b\<lparr>alive := 0\<rparr> else b)"
  by (simp add: clean_exit_def Let_def)

lemma keeps_clean_exit: "keeps b (snd (clean_exit env pid b))"
  using balancer_ok_cong [of b "b\<lparr>alive := 0\<rparr>"] by (simp add: keeps_def clean_exit_balancer)

interpretation shut_down: shared_op "\<lambda>b. snd (clean_exit env pid b)"
  by unfold_locales (rule keeps_clean_exit)

text \<open>
  Once the master has shut down, the admin tool takes no command any more, and no new admin tool
  attaches to the balancer.
\<close>

lemma shut_down_ends_admin:
  assumes "b' = snd (clean_exit env (master_pid b) b)"
  shows "command_prompt aenv input (a\<lparr>adm_bal := b'\<rparr>) = Inl (Process_exit 0)"
    and "sh_data sh = Some b' \<Longrightarrow> connect_to_shm sh ign a = Inl (Process_exit (- 1))"
  using assms by (simp_all add: clean_exit_balancer command_prompt_def connect_to_shm_def Let_def)

end
