(* ===== verification/C_Types.thy ===== *)
theory C_Types
  imports Interleaving Shutdown
begin

text \<open>
  The integers of the model are unbounded where the C program has \<open>int\<close>, \<open>short\<close> and \<open>unsigned short\<close>. That
  this makes no difference is shown here: every field of the shared balancer stays in the range of its
  C type, whatever process writes it, and for the counts that are added to and subtracted from
  this follows from the invariant of the server process.
\<close>

section \<open>Typed balancers\<close>

definition srv_typed :: "SERVER \<Rightarrow> bool" where
  "srv_typed s \<longleftrightarrow> length (srv_name s) \<le> SERVERNAME_MAX_LENGTH \<and> c_int (srv_port s) \<and> c_int (srv_maxc s) \<and> c_int (srv_e_load s)"

definition settings_typed :: "BALANCER \<Rightarrow> bool" where
  "settings_typed b \<longleftrightarrow>
     c_int (alive b) \<and> c_int (binding_port b) \<and> c_int (connect_timeout b) \<and> c_int (monitor_pid b) \<and> c_int (master_pid b) \<and>
     c_int (shmid b) \<and> c_int (hash_rebalance_threshold b) \<and> c_int (hash_rebalance_size b) \<and> c_int (hash_rebalance_interval b) \<and>
     c_int (use_member_outbound_ip b) \<and> c_int (use_clone_outbound_ip b) \<and> c_int (default_maxc b) \<and> c_int (fd_limit b) \<and>
     c_int (session_limit b) \<and> c_int (use_syslog b) \<and> c_int (shm_perms b) \<and> c_int (overall_load b) \<and> c_int (debug_level b)"

definition bal_typed :: "BALANCER \<Rightarrow> bool" where
  "bal_typed b \<longleftrightarrow> settings_typed b \<and> list_all srv_typed (members b) \<and> list_all srv_typed (clones b)"

definition keeps_typed :: "BALANCER \<Rightarrow> BALANCER \<Rightarrow> bool" where
  "keeps_typed b b' \<longleftrightarrow> (bal_typed b \<longrightarrow> bal_typed b')"

lemma keeps_typed_fields:
  assumes "members b' = members b" and "clones b' = clones b" and "settings_typed b \<Longrightarrow> settings_typed b'"
  shows "keeps_typed b b'"
  using assms by (simp add: keeps_typed_def bal_typed_def)

lemma list_all_upd_server:
  assumes "\<And>s. P s \<Longrightarrow> P (f s)" and "list_all P srvs"
  shows "list_all P (upd_server i f srvs)"
  using assms by (cases "i < length srvs") (simp_all add: upd_server_def list_all_length nth_list_update list_update_beyond)

lemma keeps_typed_upd_ref:
  assumes "\<And>s. srv_typed s \<Longrightarrow> srv_typed (f s)"
  shows "keeps_typed b (upd_ref r f b)"
proof -
  have "settings_typed (upd_member i f b) = settings_typed b" "settings_typed (upd_clone i f b) = settings_typed b" for i
    by (simp_all add: settings_typed_def upd_member_def upd_clone_def)
  then show ?thesis
    using list_all_upd_server [of srv_typed f, OF assms] by (cases r) (simp_all add: keeps_typed_def bal_typed_def upd_ref_def)
qed

lemma srv_typed_new: "c_int port \<Longrightarrow> c_int maxc \<Longrightarrow> srv_typed ((new_server nm st sb port ip maxc maxl)\<lparr>srv_id := k\<rparr>)"
  by (simp add: srv_typed_def new_server_def)

lemma place_server_typed:
  assumes "place_server (new_server nm st sb port ip maxc maxl) srvs n = Inr (srvs', n')" and "c_int port" and "c_int maxc"
    and "list_all srv_typed srvs"
  shows "list_all srv_typed srvs'"
proof -
  obtain k where "srvs' = srvs[k := (new_server nm st sb port ip maxc maxl)\<lparr>srv_id := k\<rparr>]"
    using assms(1) by (auto simp: place_server_def split: option.split_asm if_split_asm)
  then show ?thesis
    using assms(4) srv_typed_new [OF assms(2,3)] by (cases "k < length srvs") (simp_all add: list_all_length nth_list_update list_update_beyond)
qed

lemma create_typed:
  assumes "create_balancer_server m b cl nm st sb port ip maxc maxl = Inr (v, b')" and "c_int port" and "bal_typed b \<Longrightarrow> c_int maxc"
  shows "keeps_typed b b'"
  unfolding keeps_typed_def
proof
  assume b: "bal_typed b"
  have "settings_typed (b\<lparr>members := x, nmembers := k\<rparr>) = settings_typed b" "settings_typed (b\<lparr>clones := x, nclones := k\<rparr>) = settings_typed b" for x k
    by (simp_all add: settings_typed_def)
  then show "bal_typed b'"
    using assms b place_server_typed [of nm st sb port ip maxc maxl]
    by (auto simp: create_balancer_server_def Let_def res_bind_eq_Inr bal_typed_def split: if_split_asm)
qed

section \<open>The admin tool\<close>

lemma atoi_c_int [simp]: "c_int (atoi s)"
  by (simp add: atoi_def)

definition type_stays :: "(SERVER \<Rightarrow> SERVER) \<Rightarrow> bool" where
  "type_stays f \<longleftrightarrow> (\<forall>s. srv_typed s \<longrightarrow> srv_typed (f s))"

interpretation typed: balancer_law keeps_typed type_stays
proof unfold_locales
  show "keeps_typed b b'"
    if "create_balancer_server m b cl nm SERVER_STATE_DISABLED STANDBY_STATE_FALSE (atoi port) ip (default_maxc b) (default_maxl b) = Inr (st, b')"
    for m b cl nm port ip st b'
    by (rule create_typed [OF that]) (simp_all add: bal_typed_def settings_typed_def)
  show "keeps_typed b (upd_ref r f b)" if "type_stays f" for f b r
    by (rule keeps_typed_upd_ref) (use that in \<open>simp add: type_stays_def\<close>)
  show "keeps_typed b (set_cloned_state b)" for b
    by (rule keeps_typed_fields) (simp_all add: set_cloned_state_def Let_def settings_typed_def split: option.splits)
  show "keeps_typed a c" if "keeps_typed a b" "keeps_typed b c" for a b c using that by (simp add: keeps_typed_def)
qed (auto simp: type_stays_def srv_typed_def enable_server_def disable_server_def settings_typed_def intro!: keeps_typed_fields)

lemma admin_keeps_typed:
  assumes "\<not> scan_input input" and "command_prompt env input a = Inr a'"
  shows "keeps_typed (adm_bal a) (adm_bal a')"
  using typed.run_command_lawful [of input env a a'] assms by (simp add: command_prompt_def split: if_splits)

section \<open>The server process\<close>

lemma bal_typed_view: "bal_typed (bal_view b) = bal_typed b"
proof -
  have "srv_typed (server_view s) = srv_typed s" for s by (simp add: srv_typed_def server_view_def)
  moreover have "settings_typed (bal_view b) = settings_typed b" by (simp add: settings_typed_def bal_view_def)
  ultimately show ?thesis by (simp add: bal_typed_def bal_view_def list.pred_map o_def)
qed

lemma view_keeps_typed: "bal_view b' = bal_view b \<Longrightarrow> keeps_typed b b'"
  using bal_typed_view [of b] bal_typed_view [of b'] by (simp add: keeps_typed_def)

lemma server_keeps_typed:
  assumes "server_step l lb lb'"
  shows "keeps_typed (balancer lb) (balancer lb')"
proof -
  obtain ev where "handle_event l ev lb = Inr lb'" using assms by (cases rule: server_step.cases) blast+
  then show ?thesis using framed_handle_event view_keeps_typed by (simp add: framed_def)
qed

section \<open>The monitor\<close>

lemma zero_server_typed: "srv_typed zero_server"
  by (simp add: srv_typed_def zero_server_def)

lemma delete_at_typed: "keeps_typed b (delete_at r b)"
proof -
  have m: "keeps_typed x (upd_member i (\<lambda>x. zero_server) x)" "keeps_typed x (upd_clone i (\<lambda>x. zero_server) x)" for x i
    using keeps_typed_upd_ref [of "\<lambda>x. zero_server" x "Member_ref i"] keeps_typed_upd_ref [of "\<lambda>x. zero_server" x "Clone_ref i"]
      zero_server_typed by (simp_all add: upd_ref_def)
  have s: "keeps_typed x (upd_member i (\<lambda>x. x\<lparr>srv_status := SERVER_STATE_FREE\<rparr>) x)" "keeps_typed x (upd_clone i (\<lambda>x. x\<lparr>srv_status := SERVER_STATE_FREE\<rparr>) x)" for x i
    using keeps_typed_upd_ref [of "\<lambda>x. x\<lparr>srv_status := SERVER_STATE_FREE\<rparr>" x "Member_ref i"]
      keeps_typed_upd_ref [of "\<lambda>x. x\<lparr>srv_status := SERVER_STATE_FREE\<rparr>" x "Clone_ref i"] by (simp_all add: upd_ref_def srv_typed_def)
  have f: "bal_typed (x\<lparr>hash_table := h\<rparr>) = bal_typed x" "bal_typed (x\<lparr>nmembers := n\<rparr>) = bal_typed x" "bal_typed (x\<lparr>nclones := n\<rparr>) = bal_typed x" for x h n
    by (simp_all add: bal_typed_def settings_typed_def)
  show ?thesis
    using m s f by (cases r) (auto simp: keeps_typed_def delete_at_def delete_member_at_def delete_clone_at_def Let_def)
qed

lemma move_hashes_view: "bal_view (move_hashes n hi lo is b) = bal_view b"
  by (induction n hi lo "is" b rule: move_hashes.induct) simp_all

lemma rebalance_view: "bal_view (rebalance_hash qsort b) = bal_view b"
  by (simp add: rebalance_hash_def Let_def move_hashes_view)

lemma c_int_small: "0 \<le> v \<Longrightarrow> v < 65536 \<Longrightarrow> c_int v"
  by (simp add: c_int_def INT_MIN_def INT_MAX_def)

lemma monitor_interval_typed: "c_int (int (unat (w :: 16 word)))"
  by (rule c_int_small) (use unsigned_less [of w] in \<open>simp_all add: unsigned_less\<close>)

lemma monitor_step_typed:
  assumes "monitor_step qsort (pc, b) (pc', b')"
  shows "keeps_typed b b'"
  using assms
proof cases
  case (remove r)
  then show ?thesis using delete_at_typed by simp
next
  case (probe_end r p)
  have "keeps_typed b (upd_ref r (probe_server p) b)"
    by (rule keeps_typed_upd_ref) (simp add: srv_typed_def probe_server_def Let_def)
  then show ?thesis using probe_end typed.Q_cloned typed.Q_trans typed.Q_refl by (auto simp: probe_finish_def)
next
  case (snmp_end r reply)
  then show ?thesis by (auto intro!: keeps_typed_upd_ref simp: srv_typed_def snmp_finish_def split: snmp_reply.split)
next
  case (loading r e)
  then show ?thesis by (auto intro!: keeps_typed_upd_ref simp: srv_typed_def)
next
  case (interval w)
  then show ?thesis using monitor_interval_typed [of w] by (intro keeps_typed_fields) (simp_all add: settings_typed_def)
next
  case rebalance
  then show ?thesis using view_keeps_typed rebalance_view by simp
qed (auto intro!: keeps_typed_fields simp: settings_typed_def)

section \<open>The whole state\<close>

text \<open>Every integer of the server process and of the balancer is a value of its C type.\<close>

definition fits_c :: "LB \<Rightarrow> bool" where
  "fits_c lb \<longleftrightarrow> bal_typed (balancer lb) \<and> nmembers (balancer lb) < 2 ^ 16 \<and> nclones (balancer lb) < 2 ^ 16 \<and>
     (\<forall>v \<in> set (hash_table (balancer lb)). - (2 ^ 15) \<le> v \<and> v < 2 ^ 15) \<and>
     (\<forall>s \<in> set (members (balancer lb)) \<union> set (clones (balancer lb)). c_int (srv_c s)) \<and>
     next_member lb < 2 ^ 16 \<and> next_clone lb < 2 ^ 16 \<and> c_int (uq_head lb) \<and> c_int (uq_rear lb) \<and>
     (\<forall>x \<in> set (sessions lb). c_int (int (member_used_buffer x)) \<and> c_int (int (client_used_buffer x)) \<and> c_int (int (clone_used_buffer x)))"

lemma counts_bounded:
  assumes ok: "lb_ok lb" and i: "i < MAXSERVERS"
  shows "0 \<le> srv_c (members (balancer lb) ! i)" "srv_c (members (balancer lb) ! i) \<le> session_limit (balancer lb)"
    "0 \<le> srv_c (clones (balancer lb) ! i)" "srv_c (clones (balancer lb) ! i) \<le> session_limit (balancer lb)"
proof -
  have "int (length (sessions lb)) = session_limit (balancer lb)" using lb_okD(4) [OF ok] by (simp add: queue_ok_def)
  moreover have "length (filter P (sessions lb)) \<le> length (sessions lb)" for P by (rule length_filter_le)
  ultimately have "int (length (filter P (sessions lb))) \<le> session_limit (balancer lb)" for P by (metis of_nat_le_iff)
  then show "0 \<le> srv_c (members (balancer lb) ! i)" "srv_c (members (balancer lb) ! i) \<le> session_limit (balancer lb)"
    "0 \<le> srv_c (clones (balancer lb) ! i)" "srv_c (clones (balancer lb) ! i) \<le> session_limit (balancer lb)"
    using lb_okD(5) [OF ok] i by (simp_all add: counts_ok_def)
qed

lemma fits_cI:
  assumes ok: "lb_ok lb" and ty: "bal_typed (balancer lb)"
  shows "fits_c lb"
proof -
  let ?b = "balancer lb"
  have t: "table_ok (members ?b) (nmembers ?b)" "table_ok (clones ?b) (nclones ?b)" and h: "hash_ok ?b"
    using lb_okD(1) [OF ok] by (simp_all add: balancer_ok_def)
  have lim: "session_limit ?b \<le> INT_MAX" using ty by (simp add: bal_typed_def settings_typed_def c_int_def)
  have rng: "c_int v" if "0 \<le> v" "v \<le> session_limit ?b" for v using that lim by (simp add: c_int_def INT_MIN_def)
  have small: "c_int (int n)" if "n \<le> 4096" for n using that by (simp add: c_int_def INT_MIN_def INT_MAX_def)
  have "c_int (srv_c s)" if s: "s \<in> set (members ?b) \<union> set (clones ?b)" for s
  proof -
    obtain i where "i < MAXSERVERS" "s = members ?b ! i \<or> s = clones ?b ! i"
      using s table_okD(1) [OF t(1)] table_okD(1) [OF t(2)] by (auto simp: in_set_conv_nth)
    then show ?thesis using counts_bounded [OF ok] rng by metis
  qed
  moreover have "- (2 ^ 15) \<le> v \<and> v < 2 ^ 15" if "v \<in> set (hash_table ?b)" for v
    using hash_okD(2) [OF h that] table_okD(2) [OF t(1)] by auto
  moreover have "c_int (int (member_used_buffer x)) \<and> c_int (int (client_used_buffer x)) \<and> c_int (int (clone_used_buffer x))"
    if "x \<in> set (sessions lb)" for x
    using ok that small by (simp add: lb_ok_def ses_shape_def)
  moreover have "c_int (uq_head lb)" "c_int (uq_rear lb)"
    using lb_okD(4) [OF ok] rng by (auto simp: queue_ok_def)
  ultimately show ?thesis
    using ty table_okD(2) [OF t(1)] table_okD(2) [OF t(2)] lb_okD(2,3) [OF ok] by (auto simp: fits_c_def)
qed

end
