(* ===== verification/Config.thy ===== *)
theory Config
  imports Init C_String
begin

text \<open>
  The configuration file, config.c, and the directives that \<open>initialize_logging\<close> of init.c reads from
  it. The contents of the file are an argument, and so are \<open>inet_aton\<close>, whether memory can be
  allocated, and the compile-time switch \<open>USE_SNMP\<close>. A log message at level EXIT ends the process
  with status -1; any log message resets \<open>errno\<close>, of which the model keeps whether it is zero.
\<close>

section \<open>Lines and words\<close>

definition trim_white_space :: "string option \<Rightarrow> string option" where
  "trim_white_space str =
     (case str of None \<Rightarrow> None
      | Some s \<Rightarrow>
          (case dropWhile isspace s of [] \<Rightarrow> Some []
           | c # cs \<Rightarrow> Some (c # rev (dropWhile isspace (rev cs)))))"

text \<open>What one call of \<open>fgets\<close> with a buffer of \<open>n\<close> characters reads.\<close>

definition fgets :: "nat \<Rightarrow> string \<Rightarrow> string" where
  "fgets n inp =
     (let s = take (n - 1) inp; p = takeWhile (\<lambda>c. c \<noteq> CHR 0x0A) s
      in if length p < length s then p @ [CHR 0x0A] else p)"

lemma fgets_progress:
  assumes "2 \<le> n" and "inp \<noteq> []"
  shows "0 < length (fgets n inp)"
proof -
  have "take (n - 1) inp \<noteq> []" using assms by (cases inp) auto
  then show ?thesis by (auto simp: fgets_def Let_def)
qed

function conf_lines :: "nat \<Rightarrow> string \<Rightarrow> string list" where
  "conf_lines n inp =
     (if inp = [] \<or> n < 2 then [] else fgets n inp # conf_lines n (drop (length (fgets n inp)) inp))"
  by auto
termination
proof (relation "measure (\<lambda>(n, inp). length inp)")
  fix n :: nat and inp :: string
  assume "\<not> (inp = [] \<or> n < 2)"
  then show "((n, drop (length (fgets n inp)) inp), (n, inp)) \<in> measure (\<lambda>(n, inp). length inp)"
    using fgets_progress [of n inp] by auto
qed simp

declare conf_lines.simps [simp del]

text \<open>Directive and value of a line; the buffer is a C string, so it ends at the first NUL.\<close>

definition conf_words :: "string \<Rightarrow> string option \<times> string option" where
  "conf_words line =
     (let (d, rest) = strtok ''='' (takeWhile (\<lambda>c. c \<noteq> CHR 0x00) line);
          (v, rest') = strtok '' ='' rest
      in (trim_white_space d, trim_white_space v))"

section \<open>The parser's state\<close>

record CONF =
  cf_bal :: BALANCER
  cf_errno :: bool
  inServerSection :: bool
  serverStatus :: server_state
  serverClone :: clone_flag
  standbyState :: standby_flag
  serverPort :: int
  serverMaxc :: int
  serverMaxl :: c_float
  serverIP :: "32 word"
  serverName :: string

record CONF_ENV =
  cv_aton :: "string \<Rightarrow> 32 word option"
  cv_malloc :: bool
  cv_snmp :: bool

definition upd_conf :: "(BALANCER \<Rightarrow> BALANCER) \<Rightarrow> CONF \<Rightarrow> CONF" where
  "upd_conf f st = st\<lparr>cf_bal := f (cf_bal st)\<rparr>"

definition conf_exit :: "CONF res" where
  "conf_exit = Inl (Process_exit (- 1))"

definition log_msg :: "CONF \<Rightarrow> CONF" where
  "log_msg st = st\<lparr>cf_errno := False\<rparr>"

definition debug_msg :: "CONF \<Rightarrow> CONF" where
  "debug_msg st = (if debug_level (cf_bal st) > 0 then log_msg st else st)"

text \<open>A directive: the prefix of the line's first word that selects it, and what it does with the value.\<close>

definition directive :: "string \<Rightarrow> nat \<Rightarrow> (string option \<Rightarrow> CONF \<Rightarrow> CONF res) \<Rightarrow> string \<Rightarrow> string option \<Rightarrow> CONF \<Rightarrow> CONF res" where
  "directive name n act d value st = (if strncmp_eq d name n then act value st else Inr st)"

section \<open>Directives of a server section\<close>

definition conf_port :: "string \<Rightarrow> string option \<Rightarrow> CONF \<Rightarrow> CONF res" where
  "conf_port = directive ''port'' 4 (\<lambda>value st. res_bind (deref value) (\<lambda>v.
     case strtol 10 v of (n, conv, erange) \<Rightarrow>
       (let st = st\<lparr>cf_errno := erange, serverPort := int_of_long n\<rparr> in
        if cf_errno st then conf_exit
        else if \<not> (serverPort st > 0 \<and> serverPort st < 65536) then conf_exit
        else Inr (debug_msg st))))"

definition conf_maxc :: "string \<Rightarrow> string option \<Rightarrow> CONF \<Rightarrow> CONF res" where
  "conf_maxc = directive ''maxc'' 4 (\<lambda>value st. res_bind (deref value) (\<lambda>v.
     case strtol 10 v of (n, conv, erange) \<Rightarrow>
       (let st = st\<lparr>cf_errno := erange, serverMaxc := int_of_long n\<rparr> in
        if cf_errno st then conf_exit
        else if \<not> (serverMaxc st \<ge> 0) then conf_exit
        else Inr (debug_msg st))))"

definition conf_maxl :: "string \<Rightarrow> string option \<Rightarrow> CONF \<Rightarrow> CONF res" where
  "conf_maxl = directive ''maxl'' 4 (\<lambda>value st. res_bind (deref value) (\<lambda>v.
     let st = st\<lparr>serverMaxl := f_of_double (atof v)\<rparr> in
     if \<not> f_lt (Fin 0) (serverMaxl st) then conf_exit else Inr (debug_msg st)))"

text \<open>An unknown value is an error only if \<open>errno\<close> happens to be set.\<close>

definition conf_status :: "string \<Rightarrow> string option \<Rightarrow> CONF \<Rightarrow> CONF res" where
  "conf_status = directive ''status'' 5 (\<lambda>value st. res_bind (deref value) (\<lambda>v.
     if strncmp_eq v ''enabled'' 7 then Inr (debug_msg (st\<lparr>serverStatus := SERVER_STATE_ENABLED\<rparr>))
     else if strncmp_eq v ''disabled'' 8 then Inr (debug_msg (st\<lparr>serverStatus := SERVER_STATE_DISABLED\<rparr>))
     else if cf_errno st then conf_exit else Inr st))"

definition conf_standby :: "string \<Rightarrow> string option \<Rightarrow> CONF \<Rightarrow> CONF res" where
  "conf_standby = directive ''standby'' 7 (\<lambda>value st. res_bind (deref value) (\<lambda>v.
     if strncmp_eq v ''true'' 4 then Inr (debug_msg (st\<lparr>standbyState := STANDBY_STATE_TRUE\<rparr>))
     else if strncmp_eq v ''false'' 5 then Inr (debug_msg (st\<lparr>standbyState := STANDBY_STATE_FALSE\<rparr>))
     else if cf_errno st then conf_exit else Inr st))"

definition conf_ip :: "CONF_ENV \<Rightarrow> string \<Rightarrow> string option \<Rightarrow> CONF \<Rightarrow> CONF res" where
  "conf_ip env = directive ''ip'' 2 (\<lambda>value st. res_bind (deref value) (\<lambda>v.
     case cv_aton env v of None \<Rightarrow> conf_exit | Some ip \<Rightarrow> Inr (debug_msg (st\<lparr>serverIP := ip\<rparr>))))"

text \<open>The value \<open>false\<close> assigns the standby state, not the server type.\<close>

definition conf_clone :: "string \<Rightarrow> string option \<Rightarrow> CONF \<Rightarrow> CONF res" where
  "conf_clone = directive ''clone'' 5 (\<lambda>value st. res_bind (deref value) (\<lambda>v.
     if strncmp_eq v ''true'' 4 then Inr (debug_msg (st\<lparr>serverClone := SERVER_CLONE_TRUE\<rparr>))
     else if strncmp_eq v ''false'' 5 then Inr (debug_msg (st\<lparr>standbyState := STANDBY_STATE_FALSE\<rparr>))
     else if cf_errno st then conf_exit else Inr st))"

section \<open>Section brackets\<close>

definition conf_section_end :: "CONF_ENV \<Rightarrow> CONF \<Rightarrow> CONF res" where
  "conf_section_end env st =
     (let st = (debug_msg st)\<lparr>inServerSection := False\<rparr> in
      res_bind (create_balancer_server (cv_malloc env) (cf_bal st) (serverClone st) (serverName st) (serverStatus st)
          (standbyState st) (serverPort st) (serverIP st) (serverMaxc st) (serverMaxl st))
        (\<lambda>(status, b). if status < 0 then Inl (Process_exit 1)
         else Inr (st\<lparr>cf_bal := b, serverPort := 80, serverClone := SERVER_CLONE_FALSE, serverMaxc := default_maxc b,
           serverMaxl := default_maxl b, serverStatus := SERVER_STATE_ENABLED, standbyState := STANDBY_STATE_FALSE\<rparr>)))"

text \<open>
  The name between the brackets: all but the first and the last character are copied into an array of
  16, without a test; for a single bracket the length wraps around.
\<close>

definition conf_section_start :: "string \<Rightarrow> CONF \<Rightarrow> CONF res" where
  "conf_section_start d st =
     (let st = st\<lparr>inServerSection := True\<rparr> in
      if length d < 2 \<or> length d - 2 > SERVERNAME_MAX_LENGTH then Inl Out_of_bounds
      else Inr (debug_msg (st\<lparr>serverName := take (length d - 2) (drop 1 d)\<rparr>)))"

section \<open>Global directives\<close>

definition conf_snmp_community_pw :: "CONF_ENV \<Rightarrow> string \<Rightarrow> string option \<Rightarrow> CONF \<Rightarrow> CONF res" where
  "conf_snmp_community_pw env = directive ''snmp_community_pw'' 17 (\<lambda>value st.
     if cv_snmp env then res_bind (deref value) (\<lambda>v.
       if cv_malloc env then Inr (debug_msg (upd_conf (\<lambda>b. b\<lparr>snmp_community_pw := Some v\<rparr>) st)) else conf_exit)
     else Inr (log_msg st))"

definition conf_snmp_enable :: "CONF_ENV \<Rightarrow> string \<Rightarrow> string option \<Rightarrow> CONF \<Rightarrow> CONF res" where
  "conf_snmp_enable env = directive ''snmp_enable'' 11 (\<lambda>value st.
     if cv_snmp env then res_bind (deref value) (\<lambda>v.
       if strncmp_eq v ''on'' 2 then Inr (debug_msg (upd_conf (\<lambda>b. b\<lparr>snmp_status := SNMP_ENABLED\<rparr>) st))
       else Inr (debug_msg (upd_conf (\<lambda>b. b\<lparr>snmp_status := SNMP_DISABLED\<rparr>) st)))
     else Inr (log_msg st))"

definition conf_shm_run_dir :: "CONF_ENV \<Rightarrow> string \<Rightarrow> string option \<Rightarrow> CONF \<Rightarrow> CONF res" where
  "conf_shm_run_dir env = directive ''shm_run_dir'' 11 (\<lambda>value st. res_bind (deref value) (\<lambda>v.
     if cv_malloc env then Inr (debug_msg (upd_conf (\<lambda>b. b\<lparr>shm_run_dir := Some v\<rparr>) st)) else conf_exit))"

definition conf_session_weight :: "string \<Rightarrow> string option \<Rightarrow> CONF \<Rightarrow> CONF res" where
  "conf_session_weight = directive ''session_weight'' 14 (\<lambda>value st. res_bind (deref value) (\<lambda>v.
     let st = upd_conf (\<lambda>b. b\<lparr>session_weight := f_of_double (atof v)\<rparr>) st in
     if \<not> f_le (Fin 0) (session_weight (cf_bal st)) then conf_exit else Inr (debug_msg st)))"

definition conf_algorithm :: "CONF_ENV \<Rightarrow> string \<Rightarrow> string option \<Rightarrow> CONF \<Rightarrow> CONF res" where
  "conf_algorithm env = directive ''algorithm'' 9 (\<lambda>value st. res_bind (deref value) (\<lambda>v.
     let set_alg = (\<lambda>x. Inr (upd_conf (\<lambda>b. b\<lparr>algorithm := x\<rparr>) (debug_msg st))) in
     if strncmp_eq v ''RR'' 2 then set_alg ALGORITHM_RR
     else if strncmp_eq v ''LC'' 2 then set_alg ALGORITHM_LC
     else if strncmp_eq v ''LL'' 2 then (if cv_snmp env then set_alg ALGORITHM_LL else Inl (Process_exit 1))
     else if strncmp_eq v ''HASH'' 4 then set_alg ALGORITHM_HASH
     else if strncmp_eq v ''STATIC'' 6 then set_alg ALGORITHM_STATIC
     else Inl (Process_exit 1)))"

definition conf_clone_mode :: "string \<Rightarrow> string option \<Rightarrow> CONF \<Rightarrow> CONF res" where
  "conf_clone_mode = directive ''clone_mode'' 10 (\<lambda>value st. res_bind (deref value) (\<lambda>v.
     if strncmp_eq v ''disabled'' 8 then Inr (debug_msg (upd_conf (\<lambda>b. b\<lparr>clone_mode := CLONE_MODE_OFF\<rparr>) st))
     else if strncmp_eq v ''enabled'' 7 then Inr (debug_msg (upd_conf (\<lambda>b. b\<lparr>clone_mode := CLONE_MODE_ON\<rparr>) st))
     else conf_exit))"

definition conf_overload_mode :: "string \<Rightarrow> string option \<Rightarrow> CONF \<Rightarrow> CONF res" where
  "conf_overload_mode = directive ''overload_mode'' 13 (\<lambda>value st. res_bind (deref value) (\<lambda>v.
     if strncmp_eq v ''STRICT'' 5 then Inr (debug_msg (upd_conf (\<lambda>b. b\<lparr>overload_mode := OVERLOAD_MODE_STRICT\<rparr>) st))
     else if strncmp_eq v ''RELAXED'' 5 then Inr (debug_msg (upd_conf (\<lambda>b. b\<lparr>overload_mode := OVERLOAD_MODE_RELAXED\<rparr>) st))
     else conf_exit))"

text \<open>Here \<open>errno\<close> is tested without having been reset, and the sign of the value is not tested.\<close>

definition conf_default_maxc :: "string \<Rightarrow> string option \<Rightarrow> CONF \<Rightarrow> CONF res" where
  "conf_default_maxc = directive ''default_maxc'' 12 (\<lambda>value st. res_bind (deref value) (\<lambda>v.
     case strtol 10 v of (n, conv, erange) \<Rightarrow>
       (let st = upd_conf (\<lambda>b. b\<lparr>default_maxc := int_of_long n\<rparr>) (st\<lparr>cf_errno := cf_errno st \<or> erange\<rparr>) in
        if cf_errno st then conf_exit
        else Inr (debug_msg (st\<lparr>serverMaxc := default_maxc (cf_bal st)\<rparr>)))))"

definition conf_default_maxl :: "string \<Rightarrow> string option \<Rightarrow> CONF \<Rightarrow> CONF res" where
  "conf_default_maxl = directive ''default_maxl'' 12 (\<lambda>value st. res_bind (deref value) (\<lambda>v.
     let st = upd_conf (\<lambda>b. b\<lparr>default_maxl := f_of_double (atof v)\<rparr>) st in
     if \<not> f_le (Fin 0) (default_maxl (cf_bal st)) then conf_exit
     else Inr (debug_msg (st\<lparr>serverMaxl := default_maxl (cf_bal st)\<rparr>))))"

text \<open>The integer directives: the value must be a number and pass a test; \<open>v1\<close> is an \<open>int\<close>.\<close>

definition conf_int ::
  "string \<Rightarrow> nat \<Rightarrow> nat \<Rightarrow> (int \<Rightarrow> bool) \<Rightarrow> (int \<Rightarrow> BALANCER \<Rightarrow> BALANCER) \<Rightarrow> string \<Rightarrow> string option \<Rightarrow> CONF \<Rightarrow> CONF res" where
  "conf_int name n base valid set_field = directive name n (\<lambda>value st. res_bind (deref value) (\<lambda>v.
     case strtol base v of (l, conv, erange) \<Rightarrow>
       (let v1 = int_of_long l; st = st\<lparr>cf_errno := cf_errno st \<or> erange\<rparr> in
        if \<not> conv then conf_exit
        else if \<not> valid v1 then conf_exit
        else Inr (debug_msg (upd_conf (set_field v1) st)))))"

definition conf_hash_rebalance_threshold :: "string \<Rightarrow> string option \<Rightarrow> CONF \<Rightarrow> CONF res" where
  "conf_hash_rebalance_threshold = conf_int ''hash_rebalance_threshold'' 24 10 (\<lambda>v1. \<not> (v1 < 0 \<or> v1 \<ge> 100))
     (\<lambda>v1 b. b\<lparr>hash_rebalance_threshold := v1\<rparr>)"

definition conf_hash_rebalance_size :: "string \<Rightarrow> string option \<Rightarrow> CONF \<Rightarrow> CONF res" where
  "conf_hash_rebalance_size = conf_int ''hash_rebalance_size'' 19 10 (\<lambda>v1. \<not> (v1 < 0 \<or> v1 \<ge> 100))
     (\<lambda>v1 b. b\<lparr>hash_rebalance_size := v1\<rparr>)"

definition conf_hash_rebalance_interval :: "string \<Rightarrow> string option \<Rightarrow> CONF \<Rightarrow> CONF res" where
  "conf_hash_rebalance_interval = conf_int ''hash_rebalance_interval'' 21 10 (\<lambda>v1. \<not> v1 < 0)
     (\<lambda>v1 b. b\<lparr>hash_rebalance_interval := v1\<rparr>)"

definition conf_shm_perms :: "string \<Rightarrow> string option \<Rightarrow> CONF \<Rightarrow> CONF res" where
  "conf_shm_perms = conf_int ''shm_perms'' 9 8 (\<lambda>v1. \<not> (v1 \<le> 0 \<or> v1 \<ge> 777)) (\<lambda>v1 b. b\<lparr>shm_perms := v1\<rparr>)"

definition conf_monitor_interval :: "string \<Rightarrow> string option \<Rightarrow> CONF \<Rightarrow> CONF res" where
  "conf_monitor_interval = conf_int ''monitor_interval'' 16 10 (\<lambda>v1. \<not> v1 < 0) (\<lambda>v1 b. b\<lparr>monitor_interval := word_of_int v1\<rparr>)"

definition conf_connect_timeout :: "string \<Rightarrow> string option \<Rightarrow> CONF \<Rightarrow> CONF res" where
  "conf_connect_timeout = conf_int ''connect_timeout'' 15 10 (\<lambda>v1. \<not> v1 \<le> 0) (\<lambda>v1 b. b\<lparr>connect_timeout := v1\<rparr>)"

definition conf_session_limit :: "string \<Rightarrow> string option \<Rightarrow> CONF \<Rightarrow> CONF res" where
  "conf_session_limit = conf_int ''session_limit'' 13 10 (\<lambda>v1. \<not> v1 < 0) (\<lambda>v1 b. b\<lparr>session_limit := v1\<rparr>)"

definition conf_fd_limit :: "string \<Rightarrow> string option \<Rightarrow> CONF \<Rightarrow> CONF res" where
  "conf_fd_limit = conf_int ''fd_limit'' 8 10 (\<lambda>v1. \<not> v1 < 0) (\<lambda>v1 b. b\<lparr>fd_limit := v1\<rparr>)"

definition conf_use_syslog :: "string \<Rightarrow> string option \<Rightarrow> CONF \<Rightarrow> CONF res" where
  "conf_use_syslog = conf_int ''use_syslog'' 10 10 (\<lambda>v1. \<not> (v1 < 0 \<or> v1 > 1)) (\<lambda>v1 b. b\<lparr>use_syslog := v1\<rparr>)"

definition conf_binding_port :: "string \<Rightarrow> string option \<Rightarrow> CONF \<Rightarrow> CONF res" where
  "conf_binding_port = conf_int ''binding_port'' 12 10 (\<lambda>v1. \<not> v1 \<le> 0) (\<lambda>v1 b. b\<lparr>binding_port := v1\<rparr>)"

text \<open>The three addresses.\<close>

definition conf_addr ::
  "CONF_ENV \<Rightarrow> string \<Rightarrow> nat \<Rightarrow> (32 word \<Rightarrow> BALANCER \<Rightarrow> BALANCER) \<Rightarrow> string \<Rightarrow> string option \<Rightarrow> CONF \<Rightarrow> CONF res" where
  "conf_addr env name n set_field = directive name n (\<lambda>value st. res_bind (deref value) (\<lambda>v.
     case cv_aton env v of None \<Rightarrow> conf_exit | Some ip \<Rightarrow> Inr (debug_msg (upd_conf (set_field ip) st))))"

definition conf_binding_ip :: "CONF_ENV \<Rightarrow> string \<Rightarrow> string option \<Rightarrow> CONF \<Rightarrow> CONF res" where
  "conf_binding_ip env = conf_addr env ''binding_ip'' 10 (\<lambda>ip b. b\<lparr>binding_ip := ip\<rparr>)"

definition conf_member_outbound_ip :: "CONF_ENV \<Rightarrow> string \<Rightarrow> string option \<Rightarrow> CONF \<Rightarrow> CONF res" where
  "conf_member_outbound_ip env = conf_addr env ''member_outbound_ip'' 18
     (\<lambda>ip b. b\<lparr>member_outbound_ip := ip, use_member_outbound_ip := 1\<rparr>)"

definition conf_clone_outbound_ip :: "CONF_ENV \<Rightarrow> string \<Rightarrow> string option \<Rightarrow> CONF \<Rightarrow> CONF res" where
  "conf_clone_outbound_ip env = conf_addr env ''clone_outbound_ip'' 17
     (\<lambda>ip b. b\<lparr>clone_outbound_ip := ip, use_clone_outbound_ip := 1\<rparr>)"

section \<open>The whole file\<close>

fun run_directives :: "(string \<Rightarrow> string option \<Rightarrow> CONF \<Rightarrow> CONF res) list \<Rightarrow> string \<Rightarrow> string option \<Rightarrow> CONF \<Rightarrow> CONF res" where
  "run_directives [] d value st = Inr st"
| "run_directives (f # fs) d value st = res_bind (f d value st) (run_directives fs d value)"

text \<open>Every directive is compared with every line, in this order.\<close>

definition server_directives :: "CONF_ENV \<Rightarrow> (string \<Rightarrow> string option \<Rightarrow> CONF \<Rightarrow> CONF res) list" where
  "server_directives env = [conf_port, conf_maxc, conf_maxl, conf_status, conf_standby, conf_ip env, conf_clone]"

definition global_directives :: "CONF_ENV \<Rightarrow> (string \<Rightarrow> string option \<Rightarrow> CONF \<Rightarrow> CONF res) list" where
  "global_directives env = [conf_snmp_community_pw env, conf_snmp_enable env, conf_shm_run_dir env, conf_session_weight,
     conf_algorithm env, conf_clone_mode, conf_overload_mode, conf_default_maxc, conf_default_maxl,
     conf_hash_rebalance_threshold, conf_hash_rebalance_size, conf_hash_rebalance_interval, conf_shm_perms,
     conf_monitor_interval, conf_connect_timeout, conf_session_limit, conf_fd_limit, conf_use_syslog, conf_binding_port,
     conf_binding_ip env, conf_member_outbound_ip env, conf_clone_outbound_ip env]"

definition conf_line :: "CONF_ENV \<Rightarrow> string \<Rightarrow> CONF \<Rightarrow> CONF res" where
  "conf_line env line st =
     (let (dir, value) = conf_words line in
      res_bind (deref dir) (\<lambda>d.
      res_bind (if inServerSection st then run_directives (server_directives env) d value st else Inr st) (\<lambda>st.
        if strncmp_eq d ''[/'' 2 then conf_section_end env st
        else if strncmp_eq d ''['' 1 then conf_section_start d st
        else run_directives (global_directives env) d value st)))"

fun conf_all :: "CONF_ENV \<Rightarrow> string list \<Rightarrow> CONF \<Rightarrow> CONF res" where
  "conf_all env [] st = Inr st"
| "conf_all env (l # ls) st = res_bind (conf_line env l st) (conf_all env ls)"

text \<open>\<open>ip0\<close> and \<open>name0\<close> are the indeterminate values of the two locals that are not initialised.\<close>

definition conf_start :: "32 word \<Rightarrow> string \<Rightarrow> BALANCER \<Rightarrow> CONF" where
  "conf_start ip0 name0 b = \<lparr>cf_bal = b, cf_errno = False, inServerSection = False, serverStatus = SERVER_STATE_ENABLED,
     serverClone = SERVER_CLONE_FALSE, standbyState = STANDBY_STATE_FALSE, serverPort = 80, serverMaxc = default_maxc b,
     serverMaxl = default_maxl b, serverIP = ip0, serverName = name0\<rparr>"

definition parse_config_file :: "CONF_ENV \<Rightarrow> 32 word \<Rightarrow> string \<Rightarrow> string option \<Rightarrow> BALANCER \<Rightarrow> BALANCER res" where
  "parse_config_file env ip0 name0 conf_file b =
     (case conf_file of None \<Rightarrow> Inl (Process_exit (- 1))
      | Some inp \<Rightarrow> res_bind (conf_all env (conf_lines 1000 inp) (conf_start ip0 name0 b)) (\<lambda>st. Inr (cf_bal st)))"

section \<open>The logging directives\<close>

definition conf_log_file :: "CONF_ENV \<Rightarrow> string \<Rightarrow> string option \<Rightarrow> CONF \<Rightarrow> CONF res" where
  "conf_log_file env = directive ''log_file'' 8 (\<lambda>value st. res_bind (deref value) (\<lambda>v.
     if cv_malloc env then Inr (upd_conf (\<lambda>b. b\<lparr>log_file_path := Some v\<rparr>) st) else conf_exit))"

definition conf_debug_level :: "bool \<Rightarrow> string \<Rightarrow> string option \<Rightarrow> CONF \<Rightarrow> CONF res" where
  "conf_debug_level debug_level_override = directive ''debug_level'' 11 (\<lambda>value st.
     if debug_level_override then Inr st
     else res_bind (deref value) (\<lambda>v.
       case strtol 10 v of (n, conv, erange) \<Rightarrow>
         (let st = upd_conf (\<lambda>b. b\<lparr>debug_level := int_of_long n\<rparr>) (st\<lparr>cf_errno := cf_errno st \<or> erange\<rparr>) in
          if cf_errno st then conf_exit
          else if \<not> (debug_level (cf_bal st) \<ge> 0 \<and> debug_level (cf_bal st) \<le> 6) then conf_exit
          else Inr (if debug_level (cf_bal st) > 0 \<and> foreground (cf_bal st) = FOREGROUND_ON then log_msg st else st))))"

fun log_lines :: "CONF_ENV \<Rightarrow> bool \<Rightarrow> string list \<Rightarrow> CONF \<Rightarrow> CONF res" where
  "log_lines env ovr [] st = Inr st"
| "log_lines env ovr (l # ls) st =
     (let (dir, value) = conf_words l in
      res_bind (deref dir) (\<lambda>d.
      res_bind (run_directives [conf_log_file env, conf_debug_level ovr] d value st) (log_lines env ovr ls)))"

definition initialize_logging :: "CONF_ENV \<Rightarrow> bool \<Rightarrow> bool \<Rightarrow> string option \<Rightarrow> BALANCER \<Rightarrow> BALANCER res" where
  "initialize_logging env ovr log_fopen conf_file b =
     (case conf_file of None \<Rightarrow> Inl (Process_exit (- 1))
      | Some inp \<Rightarrow> res_bind (log_lines env ovr (conf_lines 100 inp) (conf_start 0 [] b)) (\<lambda>st.
          if log_file_path (cf_bal st) = None then Inl (Process_exit (- 1))
          else if \<not> log_fopen then Inl (Process_exit (- 1))
          else Inr ((cf_bal st)\<lparr>log_file_open := True\<rparr>)))"

end
