(* ===== verification/Startup.thy ===== *)
theory Startup
  imports Config Shutdown
begin

text \<open>
  The rest of start-up: the shared memory segment, the daemon, the listening socket (init.c), the
  fork of the monitor (monitor.c), and the order in which \<open>main\<close> of octopus.c runs the steps. The
  results of the system calls are arguments, collected in \<open>START_ENV\<close>; \<open>inet_ntoa\<close> is one of them.
\<close>

section \<open>The outside world\<close>

record START_ENV =
  se_conf :: CONF_ENV
  se_conf_file :: "string option"
  se_ip0 :: "32 word"
  se_name0 :: string
  se_log_fopen :: bool
  se_malloc :: bool
  se_ntoa :: "32 word \<Rightarrow> string"
  se_isdir :: bool
  se_mkdir :: bool
  se_run_file_exists :: bool
  se_open :: bool
  se_ftok :: bool
  se_shmget :: "int option"
  se_shmat :: bool
  se_getrlimit :: "int option"
  se_fork :: int
  se_setsid :: int
  se_chdir :: int
  se_getpid :: int
  se_socket :: int
  se_fcntl :: int
  se_bind :: int
  se_listen :: int
  se_epoll_ctl :: int
  se_exit :: EXIT_ENV

definition start_exit :: "'a res" where
  "start_exit = Inl (Process_exit (- 1))"

section \<open>Shared memory\<close>

definition SHM_FILE_FULLNAME_MAX_LENGTH :: nat where "SHM_FILE_FULLNAME_MAX_LENGTH = 2048"

definition show_int :: "int \<Rightarrow> string" where
  "show_int i = (if i < 0 then CHR ''-'' # show_nat (nat (- i)) else show_nat (nat i))"

text \<open>The name of the run file, cut by \<open>snprintf\<close> to the 512 bytes of its buffer.\<close>

definition run_file_name :: "(32 word \<Rightarrow> string) \<Rightarrow> string \<Rightarrow> BALANCER \<Rightarrow> string" where
  "run_file_name ntoa dir b =
     take 511 (dir @ ''/'' @ ''octopus'' @ ''-'' @ OCTOPUS_VERSION @ ''-'' @ ntoa (binding_ip b) @ ''-'' @ show_int (binding_port b))"

text \<open>
  \<open>initialize_shm\<close>. Whether the run directory passes for a directory is an argument: the result of
  \<open>stat\<close> is not tested. A run file that exists already belongs to another instance and is an error.
\<close>

definition initialize_shm :: "START_ENV \<Rightarrow> BALANCER \<Rightarrow> BALANCER res" where
  "initialize_shm se b =
     (case shm_run_dir b of None \<Rightarrow> start_exit
      | Some dir \<Rightarrow>
          (let temp_name = run_file_name (se_ntoa se) dir b in
           if \<not> se_malloc se then start_exit
           else
             (let b = b\<lparr>shm_run_file := Some temp_name,
                        shm_run_file_fullname := take SHM_FILE_FULLNAME_MAX_LENGTH temp_name\<rparr> in
              if \<not> se_isdir se \<and> \<not> se_mkdir se then start_exit
              else if se_run_file_exists se then start_exit
              else if \<not> se_open se then start_exit
              else if \<not> se_ftok se then start_exit
              else (case se_shmget se of None \<Rightarrow> start_exit
                    | Some k \<Rightarrow>
                        (let b = b\<lparr>shmid := k\<rparr> in if \<not> se_shmat se then start_exit else Inr b)))))"

section \<open>Processes\<close>

text \<open>The fork of the monitor: only the child, which sees 0, changes the balancer.\<close>

definition monitor_start :: "int \<Rightarrow> int \<Rightarrow> BALANCER \<Rightarrow> BALANCER" where
  "monitor_start childpid pid b =
     (if childpid < 0 then b else if childpid = 0 then b\<lparr>monitor_pid := pid\<rparr> else b)"

definition initialize_process :: "START_ENV \<Rightarrow> LB \<Rightarrow> LB res" where
  "initialize_process se lb =
     res_bind
       (if foreground (balancer lb) = FOREGROUND_INIT then
          (if se_fork se < 0 then start_exit
           else if se_fork se \<noteq> 0 then Inl (Process_exit 0)
           else if se_setsid se < 0 then start_exit
           else if se_chdir se < 0 then start_exit
           else Inr (upd_bal (\<lambda>b. b\<lparr>foreground := FOREGROUND_OFF\<rparr>) lb))
        else Inr lb)
       (\<lambda>lb. Inr (upd_bal (\<lambda>b. b\<lparr>master_pid := se_getpid se\<rparr>) lb))"

section \<open>The listening socket\<close>

text \<open>
  A fatal error once \<open>master_pid\<close> is set: \<open>write_log\<close> sends SIGTERM to the process itself, whose handler
  ends it in \<open>clean_exit\<close>, before the \<open>exit(-1)\<close> of \<open>write_log\<close> is reached.
\<close>

definition master_exit :: "START_ENV \<Rightarrow> LB \<Rightarrow> 'a res" where
  "master_exit se lb =
     (if master_pid (balancer lb) > 0
      then Inl (Process_exit (fst (clean_exit (se_exit se) (se_getpid se) (balancer lb)))) else start_exit)"

text \<open>Failures to set the socket options are only logged.\<close>

definition create_serversocket :: "START_ENV \<Rightarrow> LB \<Rightarrow> int res" where
  "create_serversocket se lb =
     (let listener = se_socket se in
      if listener < 0 then master_exit se lb
      else if se_fcntl se < 0 then master_exit se lb
      else if se_bind se < 0 then master_exit se lb
      else if se_listen se < 0 then master_exit se lb
      else Inr listener)"

definition register_listener :: "START_ENV \<Rightarrow> int \<Rightarrow> LB \<Rightarrow> LB res" where
  "register_listener se listenerfd lb =
     (if se_epoll_ctl se < 0 then master_exit se lb else Inr (lb\<lparr>interest := (interest lb)(listenerfd \<mapsto> ro_ev)\<rparr>))"

section \<open>The order of the steps\<close>

text \<open>The command line: \<open>fg\<close> is the option \<open>-f\<close>, \<open>debug\<close> the argument of \<open>-d\<close> if there is one.\<close>

definition set_foreground :: "bool \<Rightarrow> BALANCER \<Rightarrow> BALANCER" where
  "set_foreground fg b = b\<lparr>foreground := (if fg then FOREGROUND_ON else FOREGROUND_INIT)\<rparr>"

text \<open>The server process before \<open>initialize_fds\<close>: no session, no descriptor, the globals as declared.\<close>

definition globals :: "BALANCER \<Rightarrow> LB" where
  "globals b = \<lparr>balancer = b, next_member = 0, next_clone = 0, available_members = [], available_clones = [],
     use_clone = False, using_member_standby = False, using_clone_standby = False, sessions = [],
     unused_sessions = [], uq_head = 0, uq_rear = 0, fds = [], interest = Map.empty\<rparr>"

definition configure :: "START_ENV \<Rightarrow> bool \<Rightarrow> int option \<Rightarrow> BALANCER res" where
  "configure se fg debug =
     res_bind (initialize_balancer (se_malloc se) (cv_snmp (se_conf se)) (case debug of None \<Rightarrow> 0 | Some d \<Rightarrow> d)) (\<lambda>b.
     res_bind (initialize_logging (se_conf se) (debug \<noteq> None) (se_log_fopen se) (se_conf_file se) (set_foreground fg b)) (\<lambda>b.
     parse_config_file (se_conf se) (se_ip0 se) (se_name0 se) (se_conf_file se) b))"

definition start_up :: "START_ENV \<Rightarrow> bool \<Rightarrow> int option \<Rightarrow> (int \<times> LB) res" where
  "start_up se fg debug =
     res_bind (configure se fg debug) (\<lambda>b.
     res_bind (initialize_shm se b) (\<lambda>b.
     res_bind (initialize_fds (se_getrlimit se) (se_malloc se) (globals b)) (\<lambda>lb.
     res_bind (initialize_sessions (se_malloc se) (se_malloc se) lb) (\<lambda>lb.
     res_bind (initialize_process se lb) (\<lambda>lb.
     res_bind (create_serversocket se lb) (\<lambda>listenerfd.
     res_bind (register_listener se listenerfd lb) (\<lambda>lb. Inr (listenerfd, lb))))))))"

end
