(* ===== verification/Config_Props.thy ===== *)
theory Config_Props
  imports Config Monitor_Props
begin

text \<open>
  What the configuration parser guarantees: the settings it accepts are in their ranges and the
  server tables it builds are well formed; a printed list of servers is read back as it was; and
  where the parser does not do what the file says.
\<close>

section \<open>Messages\<close>

lemma msg_simps [simp]:
  "cf_bal (log_msg st) = cf_bal st" "cf_errno (log_msg st) = False" "cf_bal (debug_msg st) = cf_bal st"
  "serverStatus (debug_msg st) = serverStatus st" "serverClone (debug_msg st) = serverClone st"
  "standbyState (debug_msg st) = standbyState st" "serverPort (debug_msg st) = serverPort st"
  "serverMaxc (debug_msg st) = serverMaxc st" "serverMaxl (debug_msg st) = serverMaxl st" "serverIP (debug_msg st) = serverIP st"
  "serverName (debug_msg st) = serverName st" "inServerSection (debug_msg st) = inServerSection st"
  by (simp_all add: log_msg_def debug_msg_def)

lemma debug_msg_no_errno [simp]: "\<not> cf_errno st \<Longrightarrow> debug_msg st = st"
  by (simp add: debug_msg_def log_msg_def)

section \<open>Accepted settings\<close>

definition settings_ok :: "BALANCER \<Rightarrow> bool" where
  "settings_ok b \<longleftrightarrow>
     0 \<le> hash_rebalance_threshold b \<and> hash_rebalance_threshold b < 100 \<and>
     0 \<le> hash_rebalance_size b \<and> hash_rebalance_size b < 100 \<and> 0 \<le> hash_rebalance_interval b \<and>
     0 < shm_perms b \<and> shm_perms b < 777 \<and> 0 < connect_timeout b \<and> 0 \<le> session_limit b \<and> 0 \<le> fd_limit b \<and>
     use_syslog b \<in> {0, 1} \<and> 0 < binding_port b \<and> f_le (Fin 0) (session_weight b) \<and> f_le (Fin 0) (default_maxl b)"

text \<open>A server created from the file: usable, with a valid port, and without connections.\<close>

definition server_conf_ok :: "SERVER \<Rightarrow> bool" where
  "server_conf_ok s \<longleftrightarrow> srv_c s = 0 \<and>
     (srv_status s \<noteq> SERVER_STATE_FREE \<longrightarrow>
        srv_status s \<in> {SERVER_STATE_ENABLED, SERVER_STATE_DISABLED} \<and>
        0 < srv_port s \<and> srv_port s < 65536 \<and> uint (srv_sin_port s) = srv_port s)"

definition servers_ok :: "BALANCER \<Rightarrow> bool" where
  "servers_ok b \<longleftrightarrow> balancer_ok b \<and> (\<forall>s \<in> set (members b) \<union> set (clones b). server_conf_ok s)"

definition conf_inv :: "CONF \<Rightarrow> bool" where
  "conf_inv st \<longleftrightarrow> settings_ok (cf_bal st) \<and> servers_ok (cf_bal st) \<and>
     serverStatus st \<in> {SERVER_STATE_ENABLED, SERVER_STATE_DISABLED} \<and> 0 < serverPort st \<and> serverPort st < 65536"

lemma servers_ok_cong:
  assumes "servers_ok b" and "members b' = members b" and "nmembers b' = nmembers b"
    and "clones b' = clones b" and "nclones b' = nclones b" and "hash_table b' = hash_table b"
  shows "servers_ok b'"
  using assms balancer_ok_cong [of b b'] by (simp add: servers_ok_def)

lemma conf_inv_msg [simp]: "conf_inv (log_msg st) = conf_inv st" "conf_inv (debug_msg st) = conf_inv st"
  by (simp_all add: conf_inv_def log_msg_def debug_msg_def)

lemma conf_inv_locals [simp]:
  "conf_inv (st\<lparr>cf_errno := e\<rparr>) = conf_inv st" "conf_inv (st\<lparr>serverMaxc := n\<rparr>) = conf_inv st"
  "conf_inv (st\<lparr>serverMaxl := x\<rparr>) = conf_inv st" "conf_inv (st\<lparr>standbyState := sb\<rparr>) = conf_inv st"
  "conf_inv (st\<lparr>serverIP := ip\<rparr>) = conf_inv st" "conf_inv (st\<lparr>serverClone := cl\<rparr>) = conf_inv st"
  "conf_inv (st\<lparr>inServerSection := i\<rparr>) = conf_inv st" "conf_inv (st\<lparr>serverName := nm\<rparr>) = conf_inv st"
  by (simp_all add: conf_inv_def)

lemma conf_inv_upd:
  assumes "conf_inv st" and "settings_ok (f (cf_bal st))" and "members (f (cf_bal st)) = members (cf_bal st)"
    and "nmembers (f (cf_bal st)) = nmembers (cf_bal st)" and "clones (f (cf_bal st)) = clones (cf_bal st)"
    and "nclones (f (cf_bal st)) = nclones (cf_bal st)" and "hash_table (f (cf_bal st)) = hash_table (cf_bal st)"
  shows "conf_inv (upd_conf f st)"
  using assms servers_ok_cong [of "cf_bal st"] by (simp add: conf_inv_def upd_conf_def)

text \<open>
  An invariant of the parser's state: it is one as soon as every directive, the start and the end of a
  section keep it. This is stated once, for the ranges of the settings here and for the C types later.
\<close>

definition keeps_inv :: "(CONF \<Rightarrow> bool) \<Rightarrow> (string \<Rightarrow> string option \<Rightarrow> CONF \<Rightarrow> CONF res) \<Rightarrow> bool" where
  "keeps_inv J f \<longleftrightarrow> (\<forall>d value st st'. J st \<longrightarrow> f d value st = Inr st' \<longrightarrow> J st')"

abbreviation keeps_conf :: "(string \<Rightarrow> string option \<Rightarrow> CONF \<Rightarrow> CONF res) \<Rightarrow> bool" where
  "keeps_conf \<equiv> keeps_inv conf_inv"

lemma keeps_inv_directive:
  assumes "\<And>v st st'. J st \<Longrightarrow> act v st = Inr st' \<Longrightarrow> J st'"
  shows "keeps_inv J (directive name n act)"
  using assms by (auto simp: keeps_inv_def directive_def split: if_splits)

lemma keeps_inv_value:
  assumes "\<And>v st st'. J st \<Longrightarrow> act v st = Inr st' \<Longrightarrow> J st'"
  shows "keeps_inv J (directive name n (\<lambda>value st. res_bind (deref value) (\<lambda>v. act v st)))"
  by (rule keeps_inv_directive) (use assms in \<open>auto simp: res_bind_eq_Inr\<close>)

lemma keeps_invD: "keeps_inv J f \<Longrightarrow> J st \<Longrightarrow> f d v st = Inr st' \<Longrightarrow> J st'"
  by (simp only: keeps_inv_def)

lemma keeps_inv_run:
  assumes "\<forall>f\<in>set fs. keeps_inv J f"
  shows "keeps_inv J (run_directives fs)"
  using assms
proof (induction fs)
  case (Cons f fs)
  then have f: "keeps_inv J f" and fs: "keeps_inv J (run_directives fs)" by simp_all
  have "J st'" if i: "J st" and r: "run_directives (f # fs) d v st = Inr st'" for d v st st'
  proof -
    obtain st1 where "f d v st = Inr st1" and "run_directives fs d v st1 = Inr st'"
      using r by (auto simp: res_bind_eq_Inr)
    then show ?thesis using i f fs keeps_invD by metis
  qed
  then show ?case by (simp only: keeps_inv_def) blast
qed (simp add: keeps_inv_def)

locale conf_law =
  fixes J :: "CONF \<Rightarrow> bool"
  assumes in_section: "f \<in> set (server_directives env) \<Longrightarrow> keeps_inv J f"
    and at_top: "f \<in> set (global_directives env) \<Longrightarrow> keeps_inv J f"
    and logging: "f \<in> {conf_log_file env, conf_debug_level ovr} \<Longrightarrow> keeps_inv J f"
    and section_end: "J st \<Longrightarrow> conf_section_end env st = Inr st' \<Longrightarrow> J st'"
    and section_start: "J st \<Longrightarrow> conf_section_start d st = Inr st' \<Longrightarrow> J st'"
begin

lemma kept_by_line:
  assumes "J st" and "conf_line env l st = Inr st'"
  shows "J st'"
proof -
  obtain d v where w: "conf_words l = (Some d, v)"
    using assms(2) by (auto simp: conf_line_def res_bind_eq_Inr split: prod.split_asm)
  obtain st1 where st1: "(if inServerSection st then run_directives (server_directives env) d v st else Inr st) = Inr st1"
    and r: "(if strncmp_eq d ''[/'' 2 then conf_section_end env st1 else if strncmp_eq d ''['' 1 then conf_section_start d st1
        else run_directives (global_directives env) d v st1) = Inr st'"
    using assms(2) w by (auto simp: conf_line_def res_bind_eq_Inr)
  have run: "keeps_inv J (run_directives (server_directives env))" "keeps_inv J (run_directives (global_directives env))"
    by (rule keeps_inv_run, simp add: in_section at_top)+
  have st: "J st1"
    by (cases "inServerSection st") (use st1 assms(1) keeps_invD [OF run(1) assms(1)] in simp_all)
  show ?thesis
    using r section_end [OF st] section_start [OF st] keeps_invD [OF run(2) st] by (simp split: if_split_asm)
qed

lemma kept_by_lines: "J st \<Longrightarrow> conf_all env ls st = Inr st' \<Longrightarrow> J st'"
  by (induction ls arbitrary: st) (auto simp: res_bind_eq_Inr dest: kept_by_line)

lemma kept_by_parser:
  assumes "parse_config_file env ip0 name0 conf_file b = Inr b'" and "J (conf_start ip0 name0 b)"
  shows "\<exists>st. J st \<and> b' = cf_bal st"
proof -
  obtain inp st where "conf_all env (conf_lines 1000 inp) (conf_start ip0 name0 b) = Inr st" "b' = cf_bal st"
    using assms(1) by (auto simp: parse_config_file_def res_bind_eq_Inr split: option.split_asm)
  then show ?thesis using kept_by_lines assms(2) by blast
qed

lemma kept_by_log_lines: "J st \<Longrightarrow> log_lines env ovr ls st = Inr st' \<Longrightarrow> J st'"
proof (induction ls arbitrary: st)
  case (Cons l ls)
  then obtain d v st1 where 1: "run_directives [conf_log_file env, conf_debug_level ovr] d v st = Inr st1" and r: "log_lines env ovr ls st1 = Inr st'"
    by (auto simp: Let_def split: prod.split_asm elim!: res_bindE simp del: run_directives.simps)
  have "\<forall>f\<in>set [conf_log_file env, conf_debug_level ovr]. keeps_inv J f" using logging by auto
  then have "keeps_inv J (run_directives [conf_log_file env, conf_debug_level ovr])" by (rule keeps_inv_run)
  then have "J st1" using Cons.prems(1) 1 by (rule keeps_invD)
  then show ?case using Cons.IH r by blast
qed simp

lemma kept_by_initialize_logging:
  assumes "initialize_logging env ovr log_fopen conf_file b = Inr b'" and "J (conf_start 0 [] b)"
  shows "\<exists>st. J st \<and> b' = (cf_bal st)\<lparr>log_file_open := True\<rparr>"
proof -
  obtain inp st where "log_lines env ovr (conf_lines 100 inp) (conf_start 0 [] b) = Inr st" "b' = (cf_bal st)\<lparr>log_file_open := True\<rparr>"
    using assms(1) by (auto simp: initialize_logging_def res_bind_eq_Inr split: option.split_asm if_split_asm)
  then show ?thesis using kept_by_log_lines [OF assms(2)] by blast
qed

end

lemmas conf_split = Let_def conf_exit_def

lemma keeps_conf_server: "\<forall>f\<in>set (server_directives env). keeps_conf f"
proof -
  have "keeps_conf conf_port" unfolding conf_port_def
    by (rule keeps_inv_value) (auto simp: conf_split split: prod.split_asm if_split_asm, simp add: conf_inv_def)
  moreover have "keeps_conf conf_status" unfolding conf_status_def
    by (rule keeps_inv_value) (auto simp: conf_split split: if_splits, simp_all add: conf_inv_def)
  moreover have "keeps_conf conf_maxc" "keeps_conf conf_maxl" "keeps_conf conf_standby" "keeps_conf (conf_ip env)" "keeps_conf conf_clone"
    unfolding conf_maxc_def conf_maxl_def conf_standby_def conf_ip_def conf_clone_def
    by (rule keeps_inv_value; auto simp: conf_split split: prod.split_asm if_split_asm option.split_asm)+
  ultimately show ?thesis by (simp add: server_directives_def)
qed

lemma keeps_conf_int:
  assumes "\<And>b v. settings_ok b \<Longrightarrow> valid v \<Longrightarrow> settings_ok (set_field v b)"
    and "\<And>b v. members (set_field v b) = members b" "\<And>b v. nmembers (set_field v b) = nmembers b"
    and "\<And>b v. clones (set_field v b) = clones b" "\<And>b v. nclones (set_field v b) = nclones b"
    and "\<And>b v. hash_table (set_field v b) = hash_table b"
  shows "keeps_conf (conf_int name n base valid set_field)"
proof -
  have "conf_inv (upd_conf (set_field v) (st\<lparr>cf_errno := e\<rparr>))" if "conf_inv st" and "valid v" for v st e
    by (rule conf_inv_upd) (use that assms in \<open>simp_all add: conf_inv_def\<close>)
  then show ?thesis unfolding conf_int_def
    by (intro keeps_inv_value) (auto simp: conf_split split: prod.split_asm if_split_asm)
qed

lemma keeps_conf_ints:
  "keeps_conf conf_hash_rebalance_threshold" "keeps_conf conf_hash_rebalance_size" "keeps_conf conf_hash_rebalance_interval"
  "keeps_conf conf_shm_perms" "keeps_conf conf_monitor_interval" "keeps_conf conf_connect_timeout" "keeps_conf conf_session_limit"
  "keeps_conf conf_fd_limit" "keeps_conf conf_use_syslog" "keeps_conf conf_binding_port"
  unfolding conf_hash_rebalance_threshold_def conf_hash_rebalance_size_def conf_hash_rebalance_interval_def conf_shm_perms_def
    conf_monitor_interval_def conf_connect_timeout_def conf_session_limit_def conf_fd_limit_def conf_use_syslog_def conf_binding_port_def
  by (rule keeps_conf_int; auto simp: settings_ok_def)+

lemma keeps_conf_global: "\<forall>f\<in>set (global_directives env). keeps_conf f"
proof -
  have addr: "keeps_conf (conf_addr env name n set_field)"
    if "\<And>b v. settings_ok b \<Longrightarrow> settings_ok (set_field v b)"
      and "\<And>b v. members (set_field v b) = members b" "\<And>b v. nmembers (set_field v b) = nmembers b"
      and "\<And>b v. clones (set_field v b) = clones b" "\<And>b v. nclones (set_field v b) = nclones b"
      and "\<And>b v. hash_table (set_field v b) = hash_table b" for name n set_field
    unfolding conf_addr_def
    by (rule keeps_inv_value)
      (auto simp: conf_split split: option.split_asm intro!: conf_inv_upd that, simp add: conf_inv_def)
  have "keeps_conf (conf_binding_ip env)" "keeps_conf (conf_member_outbound_ip env)" "keeps_conf (conf_clone_outbound_ip env)"
    unfolding conf_binding_ip_def conf_member_outbound_ip_def conf_clone_outbound_ip_def
    by (rule addr; simp add: settings_ok_def)+
  moreover have "keeps_conf (conf_snmp_community_pw env)" "keeps_conf (conf_snmp_enable env)"
    unfolding conf_snmp_community_pw_def conf_snmp_enable_def
    by (rule keeps_inv_directive; auto simp: conf_split res_bind_eq_Inr split: if_split_asm intro!: conf_inv_upd;
        simp add: conf_inv_def settings_ok_def)+
  moreover have "keeps_conf (conf_shm_run_dir env)" "keeps_conf conf_session_weight" "keeps_conf (conf_algorithm env)" "keeps_conf conf_clone_mode" "keeps_conf conf_overload_mode"
    "keeps_conf conf_default_maxc" "keeps_conf conf_default_maxl"
    unfolding conf_shm_run_dir_def conf_session_weight_def conf_algorithm_def
      conf_clone_mode_def conf_overload_mode_def conf_default_maxc_def conf_default_maxl_def
    by (rule keeps_inv_value; auto simp: conf_split split: prod.split_asm if_split_asm intro!: conf_inv_upd;
        simp add: conf_inv_def settings_ok_def upd_conf_def)+
  ultimately show ?thesis using keeps_conf_ints by (simp add: global_directives_def)
qed

text \<open>The end of a section adds a server that has a port and no connections.\<close>

lemma place_server_servers:
  assumes "table_ok srvs n" and "place_server s srvs n = Inr (srvs', n')"
    and "\<And>i. server_conf_ok (s\<lparr>srv_id := i\<rparr>)" and "\<forall>x\<in>set srvs. server_conf_ok x"
  shows "\<forall>x\<in>set srvs'. server_conf_ok x"
proof -
  obtain i where "srvs' = srvs[i := s\<lparr>srv_id := i\<rparr>]" using place_server_slot [OF assms(1,2)] by metis
  then show ?thesis using assms(3,4) set_update_subset_insert [of srvs i] by auto
qed

lemma create_balancer_server_servers:
  assumes ok: "servers_ok b" and st: "st \<in> {SERVER_STATE_ENABLED, SERVER_STATE_DISABLED}" and port: "0 < port" "port < 65536"
    and res: "create_balancer_server m b cl nm st sb port ip maxc maxl = Inr (r, b')"
  shows "servers_ok b'"
proof -
  let ?s = "new_server nm st sb port ip maxc maxl"
  have s: "server_conf_ok (?s\<lparr>srv_id := i\<rparr>)" for i
    using st port by (auto simp: server_conf_ok_def new_server_def uint_word_of_int_eq take_bit_int_eq_self)
  have "balancer_ok b'" using create_balancer_server_ok [OF _ _ res] ok st by (auto simp: servers_ok_def)
  moreover have t: "table_ok (members b) (nmembers b)" "table_ok (clones b) (nclones b)"
    "\<forall>x\<in>set (members b). server_conf_ok x" "\<forall>x\<in>set (clones b). server_conf_ok x"
    using ok by (auto simp: servers_ok_def balancer_ok_def)
  moreover have "\<forall>x\<in>set (members b') \<union> set (clones b'). server_conf_ok x"
    using res t(3,4) place_server_servers [OF t(1) _ s t(3)] place_server_servers [OF t(2) _ s t(4)]
    by (fastforce simp: create_balancer_server_def Let_def res_bind_eq_Inr split: if_split_asm)
  ultimately show ?thesis by (simp add: servers_ok_def)
qed

lemma create_balancer_server_settings:
  "create_balancer_server m b cl nm st sb port ip maxc maxl = Inr (r, b') \<Longrightarrow> settings_ok b' = settings_ok b"
  by (auto simp: create_balancer_server_def Let_def res_bind_eq_Inr settings_ok_def split: if_split_asm)

lemma conf_inv_section_end:
  assumes "conf_inv st" and "conf_section_end env st = Inr st'"
  shows "conf_inv st'"
proof -
  obtain r b where c: "create_balancer_server (cv_malloc env) (cf_bal st) (serverClone st) (serverName st) (serverStatus st)
      (standbyState st) (serverPort st) (serverIP st) (serverMaxc st) (serverMaxl st) = Inr (r, b)"
    and st': "cf_bal st' = b" "serverPort st' = 80" "serverStatus st' = SERVER_STATE_ENABLED"
    using assms(2) by (fastforce simp: conf_section_end_def Let_def res_bind_eq_Inr split: if_split_asm)
  show ?thesis
    using assms(1) create_balancer_server_servers [OF _ _ _ _ c] create_balancer_server_settings [OF c] st'
    by (simp add: conf_inv_def)
qed

lemma keeps_conf_logging: "\<forall>f\<in>set [conf_log_file env, conf_debug_level ovr]. keeps_conf f"
proof -
  have "keeps_conf (conf_log_file env)" unfolding conf_log_file_def
    by (rule keeps_inv_value) (auto simp: conf_split split: if_split_asm intro!: conf_inv_upd, simp add: conf_inv_def settings_ok_def)
  moreover have "conf_inv (upd_conf (\<lambda>b. b\<lparr>debug_level := n\<rparr>) st)" if "conf_inv st" for n st
    by (rule conf_inv_upd) (use that in \<open>simp_all add: conf_inv_def settings_ok_def\<close>)
  then have "keeps_conf (conf_debug_level ovr)" unfolding conf_debug_level_def
    by (intro keeps_inv_directive) (auto simp: conf_split elim!: res_bindE split: if_split_asm prod.split_asm)
  ultimately show ?thesis by simp
qed

interpretation accepted: conf_law conf_inv
  by unfold_locales
    (use keeps_conf_server keeps_conf_global keeps_conf_logging conf_inv_section_end in \<open>auto simp: conf_section_start_def Let_def split: if_split_asm\<close>)

lemma parsed_config_ok:
  assumes "parse_config_file env ip0 name0 conf_file b = Inr b'" and "settings_ok b" and "servers_ok b"
  shows "settings_ok b'" and "servers_ok b'"
proof -
  have "conf_inv (conf_start ip0 name0 b)" using assms(2,3) by (simp add: conf_inv_def conf_start_def)
  then show "settings_ok b'" "servers_ok b'" using accepted.kept_by_parser [OF assms(1)] by (auto simp: conf_inv_def)
qed

text \<open>
  C8. Whatever the configuration file contains, when the parser accepts it the settings are in the
  ranges the program relies on (percentages below 100, positive timeout and port, non-negative limits
  and weights, permissions below 777), and every server it created is enabled or disabled, has a port
  between 1 and 65535 that is also the port of its socket address, and stands in a well-formed table.
\<close>

theorem parse_config_file_ok:
  assumes "parse_config_file env ip0 name0 conf_file b = Inr b'" and "settings_ok b" and "servers_ok b"
  shows "settings_ok b' \<and> servers_ok b'"
  using parsed_config_ok [OF assms] by blast

section \<open>Reading back a printed configuration\<close>

text \<open>Text without white space, \<open>=\<close> and NUL, and the two kinds of lines made from it.\<close>

definition plain :: "string \<Rightarrow> bool" where
  "plain s \<longleftrightarrow> s \<noteq> [] \<and> (\<forall>c\<in>set s. \<not> isspace c \<and> c \<noteq> CHR ''='' \<and> c \<noteq> CHR 0x00)"

definition conf_entry :: "string \<Rightarrow> string \<Rightarrow> string" where
  "conf_entry key v = key @ '' = '' @ v @ [CHR 0x0A]"

definition conf_bracket :: "string \<Rightarrow> string" where
  "conf_bracket s = s @ [CHR 0x0A]"

lemma isspace_simps [simp]: "isspace CHR '' ''" "isspace CHR 0x0A"
  by (simp_all add: isspace_def)

lemma plainD:
  assumes "plain s" and "c \<in> set s"
  shows "\<not> isspace c" "c \<noteq> CHR ''=''" "c \<noteq> CHR 0x00" "c \<noteq> CHR '' ''" "c \<noteq> CHR 0x0A"
proof -
  have c: "\<not> isspace c \<and> c \<noteq> CHR ''='' \<and> c \<noteq> CHR 0x00" using assms unfolding plain_def by blast
  then show "\<not> isspace c" "c \<noteq> CHR ''=''" "c \<noteq> CHR 0x00" by blast+
  show "c \<noteq> CHR '' ''" "c \<noteq> CHR 0x0A" using c isspace_simps by metis+
qed

lemma plain_show_nat: "plain (show_nat n)"
proof -
  have "\<not> isspace c \<and> c \<noteq> CHR ''='' \<and> c \<noteq> CHR 0x00" if "c \<in> set (show_nat n)" for c
  proof -
    obtain d where d: "d < 10" "c = digit_char d" using show_nat_digits [of n] \<open>c \<in> set (show_nat n)\<close> by blast
    then have "of_char c = d + 48" by (simp add: digit_char_def)
    then have "c \<noteq> CHR 0x00" using d(1) by (auto simp: of_char_def)
    then show ?thesis using digit_char_plain(1,5) [OF d(1)] d(2) by simp
  qed
  then show ?thesis by (simp add: plain_def)
qed

lemma takeWhile_not_NUL:
  assumes "\<forall>c\<in>set s. c \<noteq> CHR 0x00"
  shows "takeWhile (\<lambda>c. c \<noteq> CHR 0x00) s = s"
  using assms by (simp add: takeWhile_eq_all_conv)

lemma dropWhile_front:
  assumes "s \<noteq> []" and "\<forall>c\<in>set s. \<not> P c"
  shows "dropWhile P (s @ t) = s @ t"
  using assms by (cases s) auto

lemma trim_plain:
  assumes "plain s" and "\<forall>c\<in>set t. isspace c"
  shows "trim_white_space (Some (s @ t)) = Some s"
proof -
  obtain c cs where s: "s = c # cs" using assms(1) by (cases s) (auto simp: plain_def)
  have c: "\<not> isspace c" and cs: "\<forall>x\<in>set (rev cs). \<not> isspace x" using assms(1) s by (auto simp: plain_def)
  have "dropWhile isspace (rev t @ rev cs) = rev cs"
    using assms(2) cs dropWhile_front [of "rev cs" isspace "[]"] dropWhile_append2 [of "rev t" isspace "rev cs"]
    by (cases "rev cs = []") auto
  then show ?thesis using c s by (simp add: trim_white_space_def)
qed

lemma takeWhile_stop: "\<forall>c\<in>set s. P c \<Longrightarrow> \<not> P x \<Longrightarrow> takeWhile P (s @ x # t) = s"
  by (simp add: takeWhile_append2)

lemma dropWhile_stop: "\<forall>c\<in>set s. P c \<Longrightarrow> \<not> P x \<Longrightarrow> dropWhile P (s @ x # t) = x # t"
  by (simp add: dropWhile_append2)

lemma conf_words_entry:
  assumes "plain k" and "plain v"
  shows "conf_words (conf_entry k v) = (Some k, Some v)"
proof -
  have k: "\<forall>c\<in>set (k @ '' ''). c \<noteq> CHR ''=''" "k @ '' '' \<noteq> []" and v: "\<forall>c\<in>set (v @ [CHR 0x0A]). c \<notin> set '' =''" "v @ [CHR 0x0A] \<noteq> []"
    using plainD [OF assms(1)] plainD [OF assms(2)] by auto
  have "takeWhile (\<lambda>c. c \<noteq> CHR 0x00) (conf_entry k v) = (k @ '' '') @ CHR ''='' # CHR '' '' # v @ [CHR 0x0A]"
    using plainD(3) [OF assms(1)] plainD(3) [OF assms(2)] takeWhile_not_NUL [of "conf_entry k v"] by (auto simp: conf_entry_def)
  moreover have "strtok ''='' ((k @ '' '') @ CHR ''='' # CHR '' '' # v @ [CHR 0x0A]) = (Some (k @ '' ''), CHR '' '' # v @ [CHR 0x0A])"
    using k dropWhile_front [of "k @ '' ''" "\<lambda>c. c \<in> set ''=''" "CHR ''='' # CHR '' '' # v @ [CHR 0x0A]"]
      takeWhile_stop [of "k @ '' ''" "\<lambda>c. c \<notin> set ''=''" "CHR ''=''" "CHR '' '' # v @ [CHR 0x0A]"]
      dropWhile_stop [of "k @ '' ''" "\<lambda>c. c \<notin> set ''=''" "CHR ''=''" "CHR '' '' # v @ [CHR 0x0A]"]
    unfolding strtok_def Let_def by simp
  moreover have "strtok '' ='' (CHR '' '' # v @ [CHR 0x0A]) = (Some (v @ [CHR 0x0A]), [])"
    using v dropWhile_front [of "v @ [CHR 0x0A]" "\<lambda>c. c \<in> set '' =''" "[]"]
      takeWhile_eq_all_conv [of "\<lambda>c. c \<notin> set '' =''" "v @ [CHR 0x0A]"] dropWhile_eq_Nil_conv [of "\<lambda>c. c \<notin> set '' =''" "v @ [CHR 0x0A]"]
    unfolding strtok_def Let_def by simp
  ultimately show ?thesis
    using trim_plain [OF assms(1), of "'' ''"] trim_plain [OF assms(2), of "[CHR 0x0A]"] by (simp add: conf_words_def)
qed

lemma conf_words_bracket:
  assumes "plain s"
  shows "conf_words (conf_bracket s) = (Some s, None)"
proof -
  have s: "\<forall>c\<in>set (s @ [CHR 0x0A]). c \<noteq> CHR ''=''" "\<forall>c\<in>set (s @ [CHR 0x0A]). c \<noteq> CHR 0x00" "s @ [CHR 0x0A] \<noteq> []"
    using plainD [OF assms] by auto
  then have "strtok ''='' (s @ [CHR 0x0A]) = (Some (s @ [CHR 0x0A]), [])"
    using dropWhile_front [of "s @ [CHR 0x0A]" "\<lambda>c. c \<in> set ''=''" "[]"]
      takeWhile_eq_all_conv [of "\<lambda>c. c \<notin> set ''=''" "s @ [CHR 0x0A]"] dropWhile_eq_Nil_conv [of "\<lambda>c. c \<notin> set ''=''" "s @ [CHR 0x0A]"]
    unfolding strtok_def Let_def by simp
  then show ?thesis
    using trim_plain [OF assms, of "[CHR 0x0A]"] takeWhile_not_NUL [OF s(2)]
    by (simp add: conf_words_def conf_bracket_def strtok_def trim_white_space_def)
qed

text \<open>Lines that fit into the buffer are read one by one.\<close>

definition whole_line :: "nat \<Rightarrow> string \<Rightarrow> bool" where
  "whole_line n l \<longleftrightarrow> (\<exists>p. l = p @ [CHR 0x0A] \<and> CHR 0x0A \<notin> set p \<and> length p + 1 < n)"

lemma fgets_whole_line:
  assumes "whole_line n l"
  shows "fgets n (l @ rest) = l"
proof -
  obtain p where p: "l = p @ [CHR 0x0A]" "CHR 0x0A \<notin> set p" "length p + 1 < n" using assms by (auto simp: whole_line_def)
  define s where "s = take (n - 1 - length l) rest"
  have t: "take (n - 1) (l @ rest) = p @ CHR 0x0A # s" using p(1,3) by (simp add: s_def take_Cons')
  have "takeWhile (\<lambda>c. c \<noteq> CHR 0x0A) (p @ CHR 0x0A # s) = p" using p(2) by (intro takeWhile_stop) auto
  then show ?thesis unfolding fgets_def t Let_def using p(1) by simp
qed

lemma conf_lines_concat:
  assumes "\<forall>l\<in>set ls. whole_line n l"
  shows "conf_lines n (concat ls) = ls"
  using assms
proof (induction ls)
  case Nil
  then show ?case by (simp add: conf_lines.simps)
next
  case (Cons l ls)
  then have l: "whole_line n l" by simp
  then have "l \<noteq> []" "\<not> n < 2" by (auto simp: whole_line_def)
  then show ?case using Cons fgets_whole_line [OF l, of "concat ls"] by (subst conf_lines.simps) simp
qed

text \<open>A server as an administrator would write it down, and its section of the file.\<close>

record SERVER_SPEC =
  sp_clone :: clone_flag
  sp_name :: string
  sp_status :: server_state
  sp_standby :: standby_flag
  sp_port :: nat
  sp_ip :: "32 word"
  sp_maxc :: nat

definition show_status :: "server_state \<Rightarrow> string" where
  "show_status st = (if st = SERVER_STATE_ENABLED then ''enabled'' else ''disabled'')"

definition show_bool :: "bool \<Rightarrow> string" where
  "show_bool x = (if x then ''true'' else ''false'')"

definition print_section :: "(32 word \<Rightarrow> string) \<Rightarrow> SERVER_SPEC \<Rightarrow> string list" where
  "print_section show_ip s =
     [conf_bracket (''['' @ sp_name s @ '']''), conf_entry ''ip'' (show_ip (sp_ip s)),
      conf_entry ''port'' (show_nat (sp_port s)), conf_entry ''maxc'' (show_nat (sp_maxc s)),
      conf_entry ''status'' (show_status (sp_status s)), conf_entry ''clone'' (show_bool (sp_clone s = SERVER_CLONE_TRUE)),
      conf_entry ''standby'' (show_bool (sp_standby s = STANDBY_STATE_TRUE)), conf_bracket (''[/'' @ sp_name s @ '']'')]"

definition print_config :: "(32 word \<Rightarrow> string) \<Rightarrow> SERVER_SPEC list \<Rightarrow> string" where
  "print_config show_ip ss = concat (concat (map (print_section show_ip) ss))"

definition spec_ok :: "SERVER_SPEC \<Rightarrow> bool" where
  "spec_ok s \<longleftrightarrow> plain (sp_name s) \<and> hd (sp_name s) \<noteq> CHR ''/'' \<and> length (sp_name s) \<le> SERVERNAME_MAX_LENGTH \<and>
     sp_status s \<in> {SERVER_STATE_ENABLED, SERVER_STATE_DISABLED} \<and> 0 < sp_port s \<and> sp_port s < 65536 \<and> int (sp_maxc s) \<le> INT_MAX"

text \<open>What \<open>inet_aton\<close> promises for an address as it is usually written.\<close>

definition aton_inverse :: "(32 word \<Rightarrow> string) \<Rightarrow> CONF_ENV \<Rightarrow> bool" where
  "aton_inverse show_ip env \<longleftrightarrow> (\<forall>ip. cv_aton env (show_ip ip) = Some ip \<and> plain (show_ip ip) \<and> length (show_ip ip) < 100)"

fun create_all :: "SERVER_SPEC list \<Rightarrow> BALANCER \<Rightarrow> BALANCER res" where
  "create_all [] b = Inr b"
| "create_all (s # ss) b =
     res_bind (create_balancer_server True b (sp_clone s) (sp_name s) (sp_status s) (sp_standby s) (int (sp_port s)) (sp_ip s)
         (int (sp_maxc s)) (default_maxl b))
       (\<lambda>(r, b'). create_all ss b')"

subsection \<open>The effect of each line\<close>

lemmas directive_simps = directive_def strncmp_eq_def

lemmas other_directive_defs = global_directives_def conf_snmp_community_pw_def conf_snmp_enable_def conf_shm_run_dir_def conf_session_weight_def
  conf_algorithm_def conf_clone_mode_def conf_overload_mode_def conf_default_maxc_def conf_default_maxl_def
  conf_hash_rebalance_threshold_def conf_hash_rebalance_size_def conf_hash_rebalance_interval_def conf_shm_perms_def
  conf_monitor_interval_def conf_connect_timeout_def conf_session_limit_def conf_fd_limit_def conf_use_syslog_def
  conf_binding_port_def conf_binding_ip_def conf_member_outbound_ip_def conf_clone_outbound_ip_def conf_int_def conf_addr_def

lemma other_directives:
  assumes "k \<in> {''ip'', ''port'', ''maxc'', ''status'', ''clone'', ''standby''}"
  shows "run_directives (global_directives env) k v st = Inr st"
  using assms
  by (elim insertE emptyE; hypsubst) (simp_all add: other_directive_defs directive_simps)

lemmas server_directive_defs = server_directives_def conf_port_def conf_maxc_def conf_maxl_def conf_status_def conf_standby_def
  conf_ip_def conf_clone_def directive_simps

lemma plain_keys: "k \<in> {''ip'', ''port'', ''maxc'', ''status'', ''clone'', ''standby''} \<Longrightarrow> plain k"
  by (auto simp: plain_def isspace_def)

lemma section_entry:
  assumes "k \<in> {''ip'', ''port'', ''maxc'', ''status'', ''clone'', ''standby''}" and "plain v" and "inServerSection st"
  shows "conf_line env (conf_entry k v) st = run_directives (server_directives env) k (Some v) st"
proof -
  have "\<not> strncmp_eq k ''[/'' 2" "\<not> strncmp_eq k ''['' 1" using assms(1) by (auto simp: strncmp_eq_def)
  then have "conf_line env (conf_entry k v) st = res_bind (run_directives (server_directives env) k (Some v) st) Inr"
    using conf_words_entry [OF plain_keys [OF assms(1)] assms(2)] assms(3) other_directives [OF assms(1)]
    by (simp add: conf_line_def)
  then show ?thesis by (simp add: res_bind_def split: sum.split)
qed

lemma section_values:
  assumes "inServerSection st" and "\<not> cf_errno st"
  shows "aton_inverse show_ip env \<Longrightarrow> conf_line env (conf_entry ''ip'' (show_ip ip)) st = Inr (st\<lparr>serverIP := ip\<rparr>)"
    and "0 < p \<Longrightarrow> p < 65536 \<Longrightarrow> conf_line env (conf_entry ''port'' (show_nat p)) st = Inr (st\<lparr>cf_errno := False, serverPort := int p\<rparr>)"
    and "int n \<le> INT_MAX \<Longrightarrow> conf_line env (conf_entry ''maxc'' (show_nat n)) st = Inr (st\<lparr>cf_errno := False, serverMaxc := int n\<rparr>)"
    and "s \<in> {SERVER_STATE_ENABLED, SERVER_STATE_DISABLED} \<Longrightarrow> conf_line env (conf_entry ''status'' (show_status s)) st = Inr (st\<lparr>serverStatus := s\<rparr>)"
    and "conf_line env (conf_entry ''standby'' (show_bool x)) st = Inr (st\<lparr>standbyState := (if x then STANDBY_STATE_TRUE else STANDBY_STATE_FALSE)\<rparr>)"
    and "conf_line env (conf_entry ''clone'' (show_bool x)) st
      = Inr (if x then st\<lparr>serverClone := SERVER_CLONE_TRUE\<rparr> else st\<lparr>standbyState := STANDBY_STATE_FALSE\<rparr>)"
proof -
  have pb: "plain (show_bool x)" "plain (show_status s)" by (simp_all add: plain_def show_bool_def show_status_def isspace_def)
  show "conf_line env (conf_entry ''ip'' (show_ip ip)) st = Inr (st\<lparr>serverIP := ip\<rparr>)" if "aton_inverse show_ip env"
    using section_entry [of "''ip''" "show_ip ip" st env] assms that by (simp add: aton_inverse_def server_directive_defs)
  have r: "strtol 10 (show_nat n) = (int n, True, False) \<and> int_of_long (int n) = int n" if "int n \<le> INT_MAX" for n
    using that strtol_show_nat [of n] int_of_long_id [of "int n"] by (simp add: INT_MAX_def INT_MIN_def LONG_MAX_def)
  show "conf_line env (conf_entry ''port'' (show_nat p)) st = Inr (st\<lparr>cf_errno := False, serverPort := int p\<rparr>)" if "0 < p" "p < 65536"
    using section_entry [of "''port''" "show_nat p" st env] plain_show_nat assms that r [of p]
    by (simp add: server_directive_defs INT_MAX_def)
  show "conf_line env (conf_entry ''maxc'' (show_nat n)) st = Inr (st\<lparr>cf_errno := False, serverMaxc := int n\<rparr>)" if "int n \<le> INT_MAX"
    using section_entry [of "''maxc''" "show_nat n" st env] plain_show_nat assms r [OF that] by (simp add: server_directive_defs)
  show "conf_line env (conf_entry ''status'' (show_status s)) st = Inr (st\<lparr>serverStatus := s\<rparr>)"
    if "s \<in> {SERVER_STATE_ENABLED, SERVER_STATE_DISABLED}"
    using section_entry [of "''status''" "show_status s" st env] pb(2) assms that
    by (auto simp: server_directive_defs show_status_def)
  show "conf_line env (conf_entry ''standby'' (show_bool x)) st = Inr (st\<lparr>standbyState := (if x then STANDBY_STATE_TRUE else STANDBY_STATE_FALSE)\<rparr>)"
    using section_entry [of "''standby''" "show_bool x" st env] pb(1) assms by (simp add: server_directive_defs show_bool_def)
  show "conf_line env (conf_entry ''clone'' (show_bool x)) st
      = Inr (if x then st\<lparr>serverClone := SERVER_CLONE_TRUE\<rparr> else st\<lparr>standbyState := STANDBY_STATE_FALSE\<rparr>)"
    using section_entry [of "''clone''" "show_bool x" st env] pb(1) assms by (simp add: server_directive_defs show_bool_def)
qed

lemma section_brackets:
  assumes "plain nm" and "hd nm \<noteq> CHR ''/''" and "\<not> cf_errno st"
  shows "length nm \<le> SERVERNAME_MAX_LENGTH \<Longrightarrow> \<not> inServerSection st \<Longrightarrow>
      conf_line env (conf_bracket (''['' @ nm @ '']'')) st = Inr (st\<lparr>inServerSection := True, serverName := nm\<rparr>)"
    and "conf_line env (conf_bracket (''[/'' @ nm @ '']'')) st = conf_section_end env st"
proof -
  have p: "plain (''['' @ nm @ '']'')" "plain (''[/'' @ nm @ '']'')" using assms(1) by (auto simp: plain_def isspace_def)
  obtain c cs where nm: "nm = c # cs" "c \<noteq> CHR ''/''" using assms(1,2) by (cases nm) (auto simp: plain_def)
  then have b: "\<not> strncmp_eq (''['' @ nm @ '']'') ''[/'' 2" "strncmp_eq (''['' @ nm @ '']'') ''['' 1" "strncmp_eq (''[/'' @ nm @ '']'') ''[/'' 2"
    by (simp_all add: strncmp_eq_def)
  show "conf_line env (conf_bracket (''['' @ nm @ '']'')) st = Inr (st\<lparr>inServerSection := True, serverName := nm\<rparr>)"
    if "length nm \<le> SERVERNAME_MAX_LENGTH" and "\<not> inServerSection st"
    using conf_words_bracket [OF p(1)] b assms(3) that by (simp add: conf_line_def conf_section_start_def)
  have "run_directives (server_directives env) (''[/'' @ nm @ '']'') None st = Inr st" by (simp add: server_directive_defs)
  then show "conf_line env (conf_bracket (''[/'' @ nm @ '']'')) st = conf_section_end env st"
    using conf_words_bracket [OF p(2)] b by (simp add: conf_line_def)
qed

text \<open>Between sections the parser is idle: the values of the last server have been reset.\<close>

definition conf_idle :: "CONF \<Rightarrow> bool" where
  "conf_idle st \<longleftrightarrow> \<not> cf_errno st \<and> \<not> inServerSection st \<and> serverClone st = SERVER_CLONE_FALSE \<and>
     serverMaxl st = default_maxl (cf_bal st)"

lemma create_balancer_server_status:
  assumes "create_balancer_server True b cl nm st sb port ip maxc maxl = Inr (r, b')" and "0 < port" and "port < 65536"
  shows "r = 0" and "default_maxl b' = default_maxl b"
proof -
  have "uint (word_of_int port :: 16 word) = port" using assms(2,3) by (simp add: uint_word_of_int_eq take_bit_int_eq_self)
  then have "(word_of_int port :: 16 word) \<noteq> 0" using assms(2) by auto
  then show "r = 0" "default_maxl b' = default_maxl b"
    using assms(1) by (auto simp: create_balancer_server_def Let_def res_bind_eq_Inr split: if_split_asm)
qed

lemma conf_section_end_idle:
  assumes m: "cv_malloc env" and e: "\<not> cf_errno st" and p: "0 < serverPort st" "serverPort st < 65536"
  obtains f where "\<forall>b. conf_idle (f b) \<and> cf_bal (f b) = b"
    and "conf_section_end env st =
      res_bind (create_balancer_server True (cf_bal st) (serverClone st) (serverName st) (serverStatus st) (standbyState st)
        (serverPort st) (serverIP st) (serverMaxc st) (serverMaxl st)) (\<lambda>(r, b). Inr (f b))"
proof -
  define f where "f b = st\<lparr>inServerSection := False, cf_bal := b, serverPort := 80, serverClone := SERVER_CLONE_FALSE,
    serverMaxc := default_maxc b, serverMaxl := default_maxl b, serverStatus := SERVER_STATE_ENABLED, standbyState := STANDBY_STATE_FALSE\<rparr>" for b
  have "conf_idle (f b) \<and> cf_bal (f b) = b" for b using e by (simp add: conf_idle_def f_def)
  moreover have "conf_section_end env st =
      res_bind (create_balancer_server True (cf_bal st) (serverClone st) (serverName st) (serverStatus st) (standbyState st)
        (serverPort st) (serverIP st) (serverMaxc st) (serverMaxl st)) (\<lambda>(r, b). Inr (f b))" (is "_ = res_bind ?c _")
  proof (cases ?c)
    case (Inr x)
    then obtain r b' where x: "?c = Inr (r, b')" by (cases x) auto
    then have "r = 0" using create_balancer_server_status(1) [OF _ p] by blast
    then show ?thesis using x m e by (simp add: conf_section_end_def Let_def f_def)
  qed (use m e in \<open>simp add: conf_section_end_def Let_def\<close>)
  ultimately show ?thesis using that by blast
qed

lemma conf_all_append: "conf_all env (xs @ ys) st = res_bind (conf_all env xs st) (conf_all env ys)"
  by (induction xs arbitrary: st) (auto simp: res_bind_def split: sum.split)

lemma conf_all_section:
  assumes s: "spec_ok s" and idle: "conf_idle st" and env: "aton_inverse show_ip env" "cv_malloc env"
  obtains f where "\<forall>b. conf_idle (f b) \<and> cf_bal (f b) = b"
    and "conf_all env (print_section show_ip s) st =
      res_bind (create_balancer_server True (cf_bal st) (sp_clone s) (sp_name s) (sp_status s) (sp_standby s) (int (sp_port s)) (sp_ip s)
        (int (sp_maxc s)) (default_maxl (cf_bal st))) (\<lambda>(r, b). Inr (f b))"
proof -
  define st2 where "st2 = st\<lparr>inServerSection := True, serverName := sp_name s, serverIP := sp_ip s, cf_errno := False,
    serverPort := int (sp_port s), serverMaxc := int (sp_maxc s), serverStatus := sp_status s\<rparr>"
  define st3 where "st3 = (if sp_clone s = SERVER_CLONE_TRUE then st2\<lparr>serverClone := SERVER_CLONE_TRUE\<rparr>
    else st2\<lparr>standbyState := STANDBY_STATE_FALSE\<rparr>)"
  define st4 where "st4 = st3\<lparr>standbyState := sp_standby s\<rparr>"
  have i: "\<not> cf_errno st" "\<not> inServerSection st" "serverClone st = SERVER_CLONE_FALSE" "serverMaxl st = default_maxl (cf_bal st)"
    using idle by (simp_all add: conf_idle_def)
  have sp: "plain (sp_name s)" "hd (sp_name s) \<noteq> CHR ''/''" "length (sp_name s) \<le> SERVERNAME_MAX_LENGTH"
    "sp_status s \<in> {SERVER_STATE_ENABLED, SERVER_STATE_DISABLED}" "0 < sp_port s" "sp_port s < 65536" "int (sp_maxc s) \<le> INT_MAX"
    using s by (simp_all add: spec_ok_def)
  have f4: "inServerSection st4" "\<not> cf_errno st4" "cf_bal st4 = cf_bal st" "serverClone st4 = sp_clone s" "serverName st4 = sp_name s"
    "serverStatus st4 = sp_status s" "standbyState st4 = sp_standby s" "serverPort st4 = int (sp_port s)" "serverIP st4 = sp_ip s"
    "serverMaxc st4 = int (sp_maxc s)" "serverMaxl st4 = default_maxl (cf_bal st)"
    using i by (cases "sp_clone s"; simp add: st4_def st3_def st2_def)+
  have f3: "inServerSection st3" "\<not> cf_errno st3" by (simp_all add: st3_def st2_def)
  have sb: "(if sp_standby s = STANDBY_STATE_TRUE then STANDBY_STATE_TRUE else STANDBY_STATE_FALSE) = sp_standby s"
    by (cases "sp_standby s") simp_all
  have l2: "conf_all env (take 5 (print_section show_ip s)) st = Inr st2"
    using sp i env(1) by (simp add: print_section_def section_brackets(1) [simplified] section_values st2_def)
  have l3: "conf_line env (conf_entry ''clone'' (show_bool (sp_clone s = SERVER_CLONE_TRUE))) st2 = Inr st3"
    using section_values(6) [of st2 env "sp_clone s = SERVER_CLONE_TRUE"] by (simp add: st2_def st3_def)
  have l4: "conf_line env (conf_entry ''standby'' (show_bool (sp_standby s = STANDBY_STATE_TRUE))) st3 = Inr st4"
    using section_values(5) [OF f3, of env "sp_standby s = STANDBY_STATE_TRUE"] sb by (simp add: st4_def)
  have l5: "conf_line env (conf_bracket (''[/'' @ sp_name s @ '']'')) st4 = conf_section_end env st4"
    using section_brackets(2) [OF sp(1,2) f4(2)] .
  have "print_section show_ip s = take 5 (print_section show_ip s) @
      [conf_entry ''clone'' (show_bool (sp_clone s = SERVER_CLONE_TRUE)),
       conf_entry ''standby'' (show_bool (sp_standby s = STANDBY_STATE_TRUE)), conf_bracket (''[/'' @ sp_name s @ '']'')]"
    by (simp add: print_section_def)
  then have "conf_all env (print_section show_ip s) st = conf_all env
      [conf_entry ''clone'' (show_bool (sp_clone s = SERVER_CLONE_TRUE)),
       conf_entry ''standby'' (show_bool (sp_standby s = STANDBY_STATE_TRUE)), conf_bracket (''[/'' @ sp_name s @ '']'')] st2"
    using conf_all_append [of env "take 5 (print_section show_ip s)"] l2 by (metis res_bind_Inr)
  then have all: "conf_all env (print_section show_ip s) st = conf_section_end env st4"
    using l3 l4 l5 by (simp add: res_bind_def split: sum.split)
  have p4: "0 < serverPort st4" "serverPort st4 < 65536" using f4(8) sp(5,6) by simp_all
  obtain f where f: "\<forall>b. conf_idle (f b) \<and> cf_bal (f b) = b"
    and e: "conf_section_end env st4 =
      res_bind (create_balancer_server True (cf_bal st4) (serverClone st4) (serverName st4) (serverStatus st4) (standbyState st4)
        (serverPort st4) (serverIP st4) (serverMaxc st4) (serverMaxl st4)) (\<lambda>(r, b). Inr (f b))"
    by (rule conf_section_end_idle [OF env(2) f4(2) p4])
  show ?thesis by (rule that [OF f]) (simp only: all e f4)
qed

lemma conf_all_sections:
  assumes "\<forall>s\<in>set ss. spec_ok s" and "conf_idle st" and "aton_inverse show_ip env" and "cv_malloc env"
  shows "res_bind (conf_all env (concat (map (print_section show_ip) ss)) st) (\<lambda>st. Inr (cf_bal st)) = create_all ss (cf_bal st)"
  using assms(1,2)
proof (induction ss arbitrary: st)
  case (Cons s ss)
  then have s: "spec_ok s" by simp
  obtain f where f: "\<forall>b. conf_idle (f b) \<and> cf_bal (f b) = b"
    and eq: "conf_all env (print_section show_ip s) st =
      res_bind (create_balancer_server True (cf_bal st) (sp_clone s) (sp_name s) (sp_status s) (sp_standby s) (int (sp_port s)) (sp_ip s)
        (int (sp_maxc s)) (default_maxl (cf_bal st))) (\<lambda>(r, b). Inr (f b))" (is "_ = res_bind ?c _")
    by (rule conf_all_section [OF s Cons.prems(2) assms(3,4)])
  show ?case
  proof (cases ?c)
    case (Inr x)
    then obtain r b where "?c = Inr (r, b)" by (cases x) auto
    then show ?thesis using eq f Cons.IH [of "f b"] Cons.prems(1) by (simp add: conf_all_append)
  qed (use eq in \<open>simp add: conf_all_append\<close>)
qed simp

lemma show_nat_length: "n < 10 ^ k \<Longrightarrow> 0 < k \<Longrightarrow> length (show_nat n) \<le> k"
proof (induction n arbitrary: k rule: show_nat.induct)
  case (1 n)
  show ?case
  proof (cases "n < 10")
    case True
    then show ?thesis using 1(3) by (subst show_nat.simps) simp
  next
    case False
    then have "k \<noteq> 1" using 1(2) by auto
    then obtain j where k: "k = Suc j" "0 < j" using 1(3) by (cases k) auto
    then have "n div 10 < 10 ^ j" using 1(2) by simp
    then show ?thesis using 1(1) [OF False] k False by (subst show_nat.simps) simp
  qed
qed

lemma whole_entry:
  assumes "plain k" and "plain v" and "length k < 30" and "length v + 40 < n"
  shows "whole_line n (conf_entry k v)"
proof -
  have "CHR 0x0A \<notin> set (k @ '' = '' @ v)" using plainD(5) [OF assms(1)] plainD(5) [OF assms(2)] by auto
  then show ?thesis unfolding whole_line_def using assms(3,4)
    by (intro exI [of _ "k @ '' = '' @ v"]) (simp add: conf_entry_def)
qed

lemma whole_bracket:
  assumes "plain s" and "length s < 100"
  shows "whole_line 1000 (conf_bracket s)"
proof -
  have "CHR 0x0A \<notin> set s" using plainD(5) [OF assms(1)] by auto
  then show ?thesis unfolding whole_line_def using assms(2) by (intro exI [of _ s]) (simp add: conf_bracket_def)
qed

lemma print_section_lines:
  assumes s: "spec_ok s" and a: "aton_inverse show_ip env"
  shows "\<forall>l\<in>set (print_section show_ip s). whole_line 1000 l"
proof -
  have sp: "plain (sp_name s)" "length (sp_name s) \<le> 16" "sp_port s < 65536" "int (sp_maxc s) \<le> INT_MAX"
    using s by (simp_all add: spec_ok_def)
  have "plain (''['' @ sp_name s @ '']'')" "plain (''[/'' @ sp_name s @ '']'')" using sp(1) by (auto simp: plain_def isspace_def)
  then have "whole_line 1000 (conf_bracket (''['' @ sp_name s @ '']''))" "whole_line 1000 (conf_bracket (''[/'' @ sp_name s @ '']''))"
    using whole_bracket sp(2) by simp_all
  moreover have "length (show_nat (sp_port s)) \<le> 10" "length (show_nat (sp_maxc s)) \<le> 10"
    using show_nat_length [of "sp_port s" 10] show_nat_length [of "sp_maxc s" 10] sp(3,4) by (simp_all add: INT_MAX_def)
  moreover have "plain (show_bool x)" "plain (show_status st)" "length (show_bool x) < 100" "length (show_status st) < 100" for x st
    by (simp_all add: plain_def show_bool_def show_status_def isspace_def)
  moreover have "plain (show_ip (sp_ip s))" "length (show_ip (sp_ip s)) < 100" using a by (simp_all add: aton_inverse_def)
  moreover have "whole_line 1000 (conf_entry k v)"
    if "k \<in> {''ip'', ''port'', ''maxc'', ''status'', ''clone'', ''standby''}" and "plain v" and "length v < 100" for k v
    by (rule whole_entry [OF plain_keys [OF that(1)] that(2)]) (use that in auto)
  ultimately show ?thesis
    unfolding print_section_def using plain_show_nat by simp
qed

text \<open>
  C7. Writing a list of servers down as sections of the configuration file and parsing the file does to
  the balancer exactly what creating these servers one after the other does, with the names, states,
  addresses, ports and limits that were written, errors (a full table) included.
\<close>

theorem config_roundtrip:
  assumes "\<forall>s\<in>set ss. spec_ok s" and "aton_inverse show_ip env" and "cv_malloc env"
  shows "parse_config_file env ip0 name0 (Some (print_config show_ip ss)) b = create_all ss b"
proof -
  let ?ls = "concat (map (print_section show_ip) ss)"
  have "\<forall>l\<in>set ?ls. whole_line 1000 l" using print_section_lines assms(1,2) by fastforce
  then have "conf_lines 1000 (print_config show_ip ss) = ?ls" using conf_lines_concat by (simp add: print_config_def)
  moreover have "conf_idle (conf_start ip0 name0 b)" "cf_bal (conf_start ip0 name0 b) = b"
    by (simp_all add: conf_idle_def conf_start_def)
  ultimately show ?thesis
    using conf_all_sections [OF assms(1) _ assms(2,3)] by (simp add: parse_config_file_def)
qed

section \<open>A directive that does not do what it says\<close>

text \<open>
  \<open>clone = false\<close> does not say that a server is a member, it takes the server out of standby: a
  section that sets \<open>standby = true\<close> and then \<open>clone = false\<close> creates an active member.
\<close>

theorem clone_false_clears_standby:
  assumes n: "plain nm" "hd nm \<noteq> CHR ''/''" "length nm \<le> SERVERNAME_MAX_LENGTH" and p: "0 < port" "port < 65536"
    and env: "aton_inverse show_ip env" "cv_malloc env"
  shows "parse_config_file env ip0 name0 (Some (concat [conf_bracket (''['' @ nm @ '']''), conf_entry ''ip'' (show_ip ip),
      conf_entry ''port'' (show_nat port), conf_entry ''standby'' ''true'', conf_entry ''clone'' ''false'', conf_bracket (''[/'' @ nm @ '']'')])) b
    = res_bind (create_balancer_server True b SERVER_CLONE_FALSE nm SERVER_STATE_ENABLED STANDBY_STATE_FALSE (int port) ip
        (default_maxc b) (default_maxl b)) (\<lambda>(r, b'). Inr b')"
proof -
  let ?ls = "[conf_bracket (''['' @ nm @ '']''), conf_entry ''ip'' (show_ip ip), conf_entry ''port'' (show_nat port),
    conf_entry ''standby'' ''true'', conf_entry ''clone'' ''false'', conf_bracket (''[/'' @ nm @ '']'')]"
  define st where "st = (conf_start ip0 name0 b)\<lparr>inServerSection := True, serverName := nm, serverIP := ip, cf_errno := False,
    serverPort := int port, standbyState := STANDBY_STATE_FALSE\<rparr>"
  have v: "show_bool True = ''true''" "show_bool False = ''false''" by (simp_all add: show_bool_def)
  have "set ?ls \<subseteq> set (print_section show_ip \<lparr>sp_clone = SERVER_CLONE_FALSE, sp_name = nm, sp_status = SERVER_STATE_ENABLED,
      sp_standby = STANDBY_STATE_TRUE, sp_port = port, sp_ip = ip, sp_maxc = 0\<rparr>)" (is "_ \<subseteq> set (print_section _ ?s)")
    using v by (simp add: print_section_def)
  moreover have "spec_ok ?s" using n p by (simp add: spec_ok_def INT_MAX_def)
  ultimately have "conf_lines 1000 (concat ?ls) = ?ls" using print_section_lines [OF _ env(1)] conf_lines_concat by blast
  moreover have "conf_all env ?ls (conf_start ip0 name0 b) = conf_section_end env st"
    using n p env section_values(5) [where x = True] section_values(6) [where x = False] section_values(1,2) section_brackets [simplified]
    unfolding v by (simp add: st_def conf_start_def res_bind_def split: sum.split)
  moreover obtain f where f: "\<forall>b. conf_idle (f b) \<and> cf_bal (f b) = b"
    and e: "conf_section_end env st = res_bind (create_balancer_server True (cf_bal st) (serverClone st) (serverName st) (serverStatus st)
        (standbyState st) (serverPort st) (serverIP st) (serverMaxc st) (serverMaxl st)) (\<lambda>(r, b). Inr (f b))"
    by (rule conf_section_end_idle [OF env(2), of st]) (use p in \<open>simp_all add: st_def\<close>)
  ultimately show ?thesis
    using f by (simp add: parse_config_file_def st_def conf_start_def res_bind_def split: sum.split prod.split)
qed

section \<open>Witnesses\<close>

text \<open>\<open>inet_aton\<close> also reads an address that is a single decimal number.\<close>

definition sample_conf_env :: CONF_ENV where
  "sample_conf_env = \<lparr>cv_aton = \<lambda>s. Some (word_of_int (fst (strtol 10 s))), cv_malloc = True, cv_snmp = False\<rparr>"

definition decimal_ip :: "32 word \<Rightarrow> string" where
  "decimal_ip ip = show_nat (unat ip)"

lemma sample_aton: "aton_inverse decimal_ip sample_conf_env" "cv_malloc sample_conf_env"
proof -
  have b: "unat ip < 10 ^ 10" for ip :: "32 word" using unsigned_less [of ip, where ?'a = nat] by simp
  then have "length (decimal_ip ip) < 100" for ip using show_nat_length [OF b [of ip]] by (simp add: decimal_ip_def)
  moreover have "cv_aton sample_conf_env (decimal_ip ip) = Some ip" for ip
  proof -
    have "int (unat ip) \<le> LONG_MAX" using b [of ip] less_imp_le [of "unat ip" "10 ^ 10"] of_nat_le_iff [of "unat ip" "10 ^ 10", where ?'a = int]
      unfolding LONG_MAX_def by (simp del: of_nat_unat)
    then show ?thesis using strtol_show_nat [of "unat ip"] by (simp add: sample_conf_env_def decimal_ip_def)
  qed
  ultimately show "aton_inverse decimal_ip sample_conf_env" by (simp add: aton_inverse_def decimal_ip_def plain_show_nat)
qed (simp add: sample_conf_env_def)

lemma sample_balancer_conf: "settings_ok sample_balancer" "servers_ok sample_balancer"
proof -
  show "settings_ok sample_balancer" by (simp add: settings_ok_def sample_balancer_def)
  have "\<forall>s\<in>set (members sample_balancer) \<union> set (clones sample_balancer). server_conf_ok s"
    by (simp add: sample_balancer_def empty_table_def server_conf_ok_def)
  then show "servers_ok sample_balancer" using sample_balancer_ok by (simp add: servers_ok_def)
qed

lemma parse_session_limit:
  "parse_config_file sample_conf_env 0 [] (Some (conf_entry ''session_limit'' (show_nat 100))) sample_balancer
   = Inr (sample_balancer\<lparr>session_limit := 100\<rparr>)"
proof -
  have p: "plain ''session_limit''" by (simp add: plain_def isspace_def)
  have l: "length (show_nat 100) < 100" using show_nat_length [of 100 3] by simp
  then have "conf_lines 1000 (conf_entry ''session_limit'' (show_nat 100)) = [conf_entry ''session_limit'' (show_nat 100)]"
    using conf_lines_concat [of "[conf_entry ''session_limit'' (show_nat 100)]" 1000] whole_entry [OF p plain_show_nat] by simp
  moreover have "strtol 10 (show_nat 100) = (100, True, False)" "int_of_long 100 = 100"
    using strtol_show_nat [of 100] int_of_long_id [of 100] by (simp_all add: LONG_MAX_def INT_MAX_def INT_MIN_def)
  ultimately show ?thesis
    using conf_words_entry [OF p plain_show_nat, of 100]
    by (simp add: parse_config_file_def conf_line_def conf_start_def strncmp_eq_def directive_def upd_conf_def other_directive_defs)
qed

theorem parse_config_file_ok_witness:
  "\<exists>b'. parse_config_file sample_conf_env 0 [] (Some (conf_entry ''session_limit'' (show_nat 100))) sample_balancer = Inr b'
    \<and> session_limit b' = 100 \<and> settings_ok b' \<and> servers_ok b'"
  using parse_config_file_ok [OF parse_session_limit sample_balancer_conf] parse_session_limit by simp

definition sample_spec :: SERVER_SPEC where
  "sample_spec = \<lparr>sp_clone = SERVER_CLONE_FALSE, sp_name = ''web1'', sp_status = SERVER_STATE_DISABLED, sp_standby = STANDBY_STATE_TRUE,
     sp_port = 8080, sp_ip = 16909060, sp_maxc = 50\<rparr>"

lemma sample_spec_ok: "spec_ok sample_spec"
  by (simp add: spec_ok_def sample_spec_def plain_def isspace_def INT_MAX_def)

theorem config_roundtrip_witness:
  "\<exists>b'. parse_config_file sample_conf_env 0 [] (Some (print_config decimal_ip [sample_spec])) sample_balancer = Inr b'
    \<and> nmembers b' = 1 \<and> srv_name (members b' ! 0) = ''web1'' \<and> srv_port (members b' ! 0) = 8080
    \<and> srv_standby_state (members b' ! 0) = STANDBY_STATE_TRUE \<and> srv_maxc (members b' ! 0) = 50"
  using config_roundtrip [of "[sample_spec]" decimal_ip sample_conf_env 0 "[]" sample_balancer] sample_spec_ok sample_aton
  by (simp add: sample_spec_def sample_balancer_def create_balancer_server_def place_server_def new_server_def)

theorem clone_false_clears_standby_witness:
  "\<exists>b'. parse_config_file sample_conf_env 0 [] (Some (concat [conf_bracket (''['' @ ''web1'' @ '']''), conf_entry ''ip'' (decimal_ip 7),
      conf_entry ''port'' (show_nat 80), conf_entry ''standby'' ''true'', conf_entry ''clone'' ''false'', conf_bracket (''[/'' @ ''web1'' @ '']'')])) sample_balancer
    = Inr b' \<and> srv_name (members b' ! 0) = ''web1'' \<and> srv_standby_state (members b' ! 0) = STANDBY_STATE_FALSE"
proof -
  have n: "plain ''web1''" "hd ''web1'' \<noteq> CHR ''/''" "length ''web1'' \<le> SERVERNAME_MAX_LENGTH" by (simp_all add: plain_def isspace_def)
  have p: "(0::nat) < 80" "(80::nat) < 65536" by simp_all
  show ?thesis unfolding clone_false_clears_standby [OF n p sample_aton, of 0 "[]" 7 sample_balancer]
    by (simp add: sample_balancer_def create_balancer_server_def place_server_def new_server_def)
qed

end
