(* ===== verification/Startup_Props.thy ===== *)
theory Startup_Props
  imports Startup Config_Props
begin

text \<open>
  Start-up as a whole establishes the invariant of the server process: the server tables that the
  configuration file describes, no sessions in use, and as many sessions as there are descriptors for.
\<close>

section \<open>Logging and shared memory keep the configuration\<close>

lemma initialize_balancer_conf:
  assumes "initialize_balancer m snmp d = Inr b"
  shows "settings_ok b" and "servers_ok b"
proof -
  have "f_le (Fin 0) (to_float (1 / 10))" by code_simp
  then show "settings_ok b" using assms by (auto simp: initialize_balancer_def settings_ok_def split: if_split_asm)
  have "\<forall>s\<in>set (members b) \<union> set (clones b). server_conf_ok s"
    using assms by (auto simp: initialize_balancer_def server_conf_ok_def split: if_split_asm)
  then show "servers_ok b" using initialize_balancer_ok [OF assms] by (simp add: servers_ok_def)
qed

lemma configure_ok:
  assumes "configure se fg debug = Inr b"
  shows "settings_ok b" and "servers_ok b"
proof -
  obtain b0 b1 where b0: "initialize_balancer (se_malloc se) (cv_snmp (se_conf se)) (case debug of None \<Rightarrow> 0 | Some d \<Rightarrow> d) = Inr b0"
    and b1: "initialize_logging (se_conf se) (debug \<noteq> None) (se_log_fopen se) (se_conf_file se) (set_foreground fg b0) = Inr b1"
    and b: "parse_config_file (se_conf se) (se_ip0 se) (se_name0 se) (se_conf_file se) b1 = Inr b"
    using assms by (auto simp: configure_def res_bind_eq_Inr)
  have "settings_ok (set_foreground fg b0)" "servers_ok (set_foreground fg b0)"
    using initialize_balancer_conf [OF b0] servers_ok_cong [of b0] by (simp_all add: set_foreground_def settings_ok_def)
  then have "conf_inv (conf_start 0 [] (set_foreground fg b0))" by (simp add: conf_inv_def conf_start_def)
  then obtain st where "conf_inv st" and st: "b1 = (cf_bal st)\<lparr>log_file_open := True\<rparr>"
    using accepted.kept_by_initialize_logging [OF b1] by blast
  then have "settings_ok b1" "servers_ok b1" using servers_ok_cong [of "cf_bal st"] by (simp_all add: conf_inv_def settings_ok_def)
  then show "settings_ok b" "servers_ok b" using parsed_config_ok [OF b] by simp_all
qed

lemma initialize_shm_ok:
  assumes "initialize_shm se b = Inr b'" and "settings_ok b" and "servers_ok b"
  shows "settings_ok b'" and "servers_ok b'"
  using assms servers_ok_cong [of b]
  by (auto simp: initialize_shm_def start_exit_def Let_def settings_ok_def split: option.split_asm if_split_asm)

section \<open>The state after start-up\<close>

text \<open>Fields that the last steps, daemon and listening socket, do not touch.\<close>

lemma initialize_process_frame:
  assumes "initialize_process se lb = Inr lb'"
  shows "\<exists>fg pid. lb' = upd_bal (\<lambda>b. b\<lparr>foreground := fg, master_pid := pid\<rparr>) lb"
proof (cases "foreground (balancer lb) = FOREGROUND_INIT")
  case True
  then have "lb' = upd_bal (\<lambda>b. b\<lparr>master_pid := se_getpid se\<rparr>) (upd_bal (\<lambda>b. b\<lparr>foreground := FOREGROUND_OFF\<rparr>) lb)"
    using assms by (simp add: initialize_process_def start_exit_def split: if_split_asm)
  then have "lb' = upd_bal (\<lambda>b. b\<lparr>foreground := FOREGROUND_OFF, master_pid := se_getpid se\<rparr>) lb" by (simp add: upd_bal_def)
  then show ?thesis by blast
next
  case False
  then have "lb' = upd_bal (\<lambda>b. b\<lparr>master_pid := se_getpid se\<rparr>) lb"
    using assms by (simp add: initialize_process_def)
  then have "lb' = upd_bal (\<lambda>b. b\<lparr>foreground := foreground (balancer lb), master_pid := se_getpid se\<rparr>) lb"
    by (simp add: upd_bal_def)
  then show ?thesis by blast
qed

text \<open>\<open>master_exit\<close> is what the effects of a fatal message amount to in the master process.\<close>

lemma master_exit_fatal:
  assumes "master_pid (balancer lb) = se_getpid se" and "monitor_pid (balancer lb) \<noteq> se_getpid se"
  shows "master_exit se lb = Inl (Process_exit
    (fatal_status (se_exit se) (se_getpid se) (log_fatal date d (Some (balancer lb))) (balancer lb)))"
  using assms by (auto simp: master_exit_def start_exit_def fatal_status_def log_fatal_def)

text \<open>A port that cannot be bound ends the process with status 0, that of a regular shutdown.\<close>

lemma bind_failure_status:
  assumes "initialize_process se lb = Inr lb'" and "0 < se_getpid se" and "ex_malloc (se_exit se)" and "ex_shmctl (se_exit se) = 0"
    and "0 \<le> se_socket se" and "0 \<le> se_fcntl se" and "se_bind se < 0"
  shows "create_serversocket se lb' = Inl (Process_exit 0)"
proof -
  have "master_pid (balancer lb') = se_getpid se" using assms(1) by (auto simp: initialize_process_def res_bind_eq_Inr upd_bal_def)
  then show ?thesis using assms(2-) by (simp add: create_serversocket_def master_exit_def clean_exit_def Let_def)
qed

text \<open>A server process with fresh sessions and idle servers satisfies the invariant.\<close>

lemma fresh_lb_ok:
  assumes b: "servers_ok (balancer lb)" and n: "0 < session_limit (balancer lb)"
    and lb: "next_member lb = 0" "next_clone lb = 0" "sessions lb = map blank_session [0..<nat (session_limit (balancer lb))]"
      "unused_sessions lb = map Some [0..<nat (session_limit (balancer lb))]" "uq_head lb = 0" "uq_rear lb = 0" "set (fds lb) \<subseteq> {None}"
  shows "lb_ok lb"
proof -
  have t: "length (members (balancer lb)) = MAXSERVERS" "length (clones (balancer lb)) = MAXSERVERS"
    using b table_okD(1) by (auto simp: servers_ok_def balancer_ok_def)
  then have "srv_c (members (balancer lb) ! i) = 0 \<and> srv_c (clones (balancer lb) ! i) = 0" if "i < MAXSERVERS" for i
    using b that nth_mem by (fastforce simp: servers_ok_def server_conf_ok_def)
  then have "counts_ok lb" by (simp add: counts_ok_def lb(3) filter_map o_def)
  moreover have "queue_ok lb" using n lb by (auto simp: queue_ok_def)
  ultimately show ?thesis using b lb by (auto simp: lb_ok_def servers_ok_def)
qed

lemma supportable_sessions_bound:
  assumes "0 < session_limit_of b"
  shows "3 * session_limit_of b + 4 \<le> fd_limit b"
proof -
  have s: "session_limit_of b \<le> supportable_sessions b" by (simp add: session_limit_of_def)
  have "0 \<le> fd_limit b - 4"
  proof (rule ccontr)
    assume "\<not> 0 \<le> fd_limit b - 4"
    then have "supportable_sessions b \<le> 0" by (simp add: supportable_sessions_def c_div_def)
    then show False using s assms by simp
  qed
  then show ?thesis using s c_div_nonneg [of "fd_limit b - 4" 3] by (simp add: supportable_sessions_def)
qed

lemma started_ok:
  assumes "start_up se fg debug = Inr (listenerfd, lb)" and "0 < session_limit (balancer lb)"
  shows "lb_ok lb \<and> settings_ok (balancer lb) \<and> servers_ok (balancer lb) \<and> 0 \<le> listenerfd
    \<and> sessions lb = map blank_session [0..<nat (session_limit (balancer lb))]
    \<and> 3 * session_limit (balancer lb) + 4 \<le> fd_limit (balancer lb)"
proof -
  obtain b b' lb1 lb2 lb3 where s: "configure se fg debug = Inr b" "initialize_shm se b = Inr b'"
    "initialize_fds (se_getrlimit se) (se_malloc se) (globals b') = Inr lb1" "initialize_sessions (se_malloc se) (se_malloc se) lb1 = Inr lb2"
    "initialize_process se lb2 = Inr lb3" "create_serversocket se lb3 = Inr listenerfd" "register_listener se listenerfd lb3 = Inr lb"
    using assms(1) by (auto simp: start_up_def res_bind_eq_Inr)
  have c: "settings_ok b'" "servers_ok b'" using initialize_shm_ok [OF s(2)] configure_ok [OF s(1)] by simp_all
  define limit where "limit = (case se_getrlimit se of Some rlim_cur \<Rightarrow> int_of_long rlim_cur | None \<Rightarrow> 0)"
  have m: "se_malloc se" and lim: "0 \<le> limit" and lb1: "lb1 = (globals (b'\<lparr>fd_limit := limit\<rparr>))\<lparr>fds := replicate (nat limit) None\<rparr>"
    using s(3) unfolding initialize_fds_def limit_def [symmetric] by (auto simp: Let_def globals_def upd_bal_def split: if_split_asm)
  obtain fg pid where lb3: "lb3 = upd_bal (\<lambda>b. b\<lparr>foreground := fg, master_pid := pid\<rparr>) lb2" using initialize_process_frame [OF s(5)] by blast
  have lb: "lb = lb3\<lparr>interest := (interest lb3)(listenerfd \<mapsto> ro_ev)\<rparr>" "0 \<le> listenerfd"
    using s(6,7) by (auto simp: register_listener_def create_serversocket_def master_exit_def start_exit_def Let_def split: if_split_asm)
  have l2: "session_limit (balancer lb2) = session_limit_of (balancer lb1)"
    using s(4) by (auto simp: initialize_sessions_def initialize_unused_session_def Let_def upd_bal_def split: if_split_asm prod.split_asm)
  then have pos: "0 < session_limit_of (balancer lb1)" using assms(2) lb lb3 by (simp add: upd_bal_def)
  have lb2: "lb2 = lb1\<lparr>balancer := (balancer lb1)\<lparr>session_limit := session_limit_of (balancer lb1)\<rparr>,
      sessions := map blank_session [0..<nat (session_limit_of (balancer lb1))],
      unused_sessions := map Some [0..<nat (session_limit_of (balancer lb1))], uq_head := 0, uq_rear := 0\<rparr>"
    using s(4) initialize_sessions_eq [OF pos] m by simp
  have b: "servers_ok (balancer lb)" "settings_ok (balancer lb)"
    using c servers_ok_cong [of b' "balancer lb"] lim pos by (simp_all add: lb lb3 lb2 lb1 globals_def upd_bal_def settings_ok_def)
  have "3 * session_limit (balancer lb) + 4 \<le> fd_limit (balancer lb)"
    using supportable_sessions_bound [OF pos] by (simp add: lb lb3 lb2 upd_bal_def)
  moreover have "lb_ok lb" by (rule fresh_lb_ok [OF b(1) assms(2)]) (auto simp: lb lb3 lb2 lb1 globals_def upd_bal_def)
  ultimately show ?thesis using b lb(2) by (simp add: lb lb3 lb2 upd_bal_def)
qed

text \<open>
  C5. When start-up succeeds with room for at least one session, the invariant of the server process
  holds before the first event: the settings are in their ranges, the server tables are those of the
  configuration file, no server has a connection, every session is unused, and the descriptors suffice
  for a client, a member and a clone of every session beside the four of the process.
\<close>

theorem start_up_ok:
  assumes "start_up se fg debug = Inr (listenerfd, lb)" and "0 < session_limit (balancer lb)"
  shows "lb_ok lb \<and> settings_ok (balancer lb) \<and> servers_ok (balancer lb) \<and> 0 \<le> listenerfd
    \<and> sessions lb = map blank_session [0..<nat (session_limit (balancer lb))]
    \<and> 3 * session_limit (balancer lb) + 4 \<le> fd_limit (balancer lb)"
  by (rule started_ok [OF assms])

section \<open>A start-up that succeeds\<close>

definition sample_conf_lines :: "string list" where
  "sample_conf_lines = [conf_entry ''log_file'' ''/l'', conf_entry ''shm_run_dir'' ''/r'']"

definition sample_start :: START_ENV where
  "sample_start = \<lparr>se_conf = sample_conf_env, se_conf_file = Some (concat sample_conf_lines), se_ip0 = 0, se_name0 = [],
     se_log_fopen = True, se_malloc = True, se_ntoa = decimal_ip, se_isdir = True, se_mkdir = False, se_run_file_exists = False,
     se_open = True, se_ftok = True, se_shmget = Some 7, se_shmat = True, se_getrlimit = Some 1024, se_fork = 0, se_setsid = 1,
     se_chdir = 0, se_getpid = 42, se_socket = 5, se_fcntl = 0, se_bind = 0, se_listen = 0, se_epoll_ctl = 0,
     se_exit = \<lparr>ex_malloc = True, ex_shmctl = 0\<rparr>\<rparr>"

lemma sample_conf_lines_read: "100 \<le> n \<Longrightarrow> conf_lines n (concat sample_conf_lines) = sample_conf_lines"
  by (rule conf_lines_concat) (auto simp: sample_conf_lines_def plain_def isspace_def intro!: whole_entry)

lemma sample_conf_words:
  "conf_words (conf_entry ''log_file'' ''/l'') = (Some ''log_file'', Some ''/l'')"
  "conf_words (conf_entry ''shm_run_dir'' ''/r'') = (Some ''shm_run_dir'', Some ''/r'')"
  by (rule conf_words_entry; simp add: plain_def isspace_def)+

lemma sample_configure:
  "\<exists>b. configure sample_start False None = Inr b \<and> shm_run_dir b = Some ''/r'' \<and> session_limit b = 0"
  using sample_conf_lines_read [of 100] sample_conf_lines_read [of 1000]
  by (simp add: configure_def sample_start_def initialize_balancer_def initialize_logging_def parse_config_file_def sample_conf_env_def
      set_foreground_def sample_conf_lines_def sample_conf_words conf_line_def conf_start_def conf_log_file_def conf_debug_level_def
      upd_conf_def other_directive_defs directive_simps)

lemma sample_started: "\<exists>lb. start_up sample_start False None = Inr (5, lb) \<and> session_limit (balancer lb) = 340"
proof -
  obtain b where b: "configure sample_start False None = Inr b" "shm_run_dir b = Some ''/r''" "session_limit b = 0"
    using sample_configure by blast
  obtain b' where b': "initialize_shm sample_start b = Inr b'" "session_limit b' = 0"
    using b(2,3) by (simp add: initialize_shm_def sample_start_def Let_def)
  define lb1 where "lb1 = (globals (b'\<lparr>fd_limit := 1024\<rparr>))\<lparr>fds := replicate 1024 None\<rparr>"
  have lb1: "initialize_fds (se_getrlimit sample_start) (se_malloc sample_start) (globals b') = Inr lb1"
    using int_of_long_id [of 1024]
    by (simp add: initialize_fds_def sample_start_def lb1_def globals_def upd_bal_def INT_MAX_def INT_MIN_def)
  have lim: "session_limit_of (balancer lb1) = 340"
    using b'(2) by (simp add: lb1_def globals_def session_limit_of_def supportable_sessions_def c_div_def)
  then obtain lb2 where lb2: "initialize_sessions (se_malloc sample_start) (se_malloc sample_start) lb1 = Inr lb2" "session_limit (balancer lb2) = 340"
    using initialize_sessions_eq [of lb1] by (simp add: sample_start_def)
  obtain lb3 where lb3: "initialize_process sample_start lb2 = Inr lb3" "session_limit (balancer lb3) = 340"
    using lb2(2) by (cases "foreground (balancer lb2) = FOREGROUND_INIT") (simp_all add: initialize_process_def sample_start_def upd_bal_def)
  define lb where "lb = lb3\<lparr>interest := (interest lb3)(5 \<mapsto> ro_ev)\<rparr>"
  have "create_serversocket sample_start lb3 = Inr 5" "register_listener sample_start 5 lb3 = Inr lb"
    by (simp_all add: create_serversocket_def register_listener_def sample_start_def lb_def)
  then have s: "start_up sample_start False None = Inr (5, lb)"
    using b(1) b'(1) lb1 lb2(1) lb3(1) by (simp add: start_up_def)
  have l: "session_limit (balancer lb) = 340" using lb3(2) by (simp add: lb_def)
  show ?thesis using l s by blast
qed

theorem start_up_ok_witness:
  "\<exists>lb. start_up sample_start False None = Inr (5, lb) \<and> lb_ok lb \<and> session_limit (balancer lb) = 340 \<and> length (sessions lb) = 340"
proof -
  obtain lb where "start_up sample_start False None = Inr (5, lb)" "session_limit (balancer lb) = 340" using sample_started by blast
  then show ?thesis using start_up_ok [of sample_start False None 5 lb] by simp
qed

end
