(* ===== verification/Startup_Types.thy ===== *)
theory Startup_Types
  imports C_Types Startup_Props
begin

text \<open>
  Start-up establishes the C types: whatever the configuration file contains, the settings and servers
  that the parser produces are values of their types, although numbers in the file may be larger than
  an \<open>int\<close> and are cut by the conversion.
\<close>

section \<open>The parser\<close>

definition conf_typed :: "CONF \<Rightarrow> bool" where
  "conf_typed st \<longleftrightarrow> bal_typed (cf_bal st) \<and> c_int (serverPort st) \<and> c_int (serverMaxc st)"

lemma conf_typed_log [simp]: "conf_typed (log_msg st) = conf_typed st" "conf_typed (debug_msg st) = conf_typed st"
  by (simp_all add: conf_typed_def log_msg_def debug_msg_def)

lemma conf_typed_locals [simp]:
  "conf_typed (st\<lparr>cf_errno := e\<rparr>) = conf_typed st" "conf_typed (st\<lparr>serverStatus := s\<rparr>) = conf_typed st"
  "conf_typed (st\<lparr>serverMaxl := x\<rparr>) = conf_typed st" "conf_typed (st\<lparr>standbyState := sb\<rparr>) = conf_typed st"
  "conf_typed (st\<lparr>serverIP := ip\<rparr>) = conf_typed st" "conf_typed (st\<lparr>serverClone := cl\<rparr>) = conf_typed st"
  "conf_typed (st\<lparr>inServerSection := i\<rparr>) = conf_typed st" "conf_typed (st\<lparr>serverName := nm\<rparr>) = conf_typed st"
  "conf_typed st \<Longrightarrow> conf_typed (st\<lparr>serverPort := int_of_long n\<rparr>)"
  "conf_typed st \<Longrightarrow> conf_typed (st\<lparr>serverMaxc := int_of_long n\<rparr>)"
  "conf_typed st \<Longrightarrow> conf_typed (st\<lparr>serverMaxc := default_maxc (cf_bal st)\<rparr>)"
  by (simp_all add: conf_typed_def bal_typed_def settings_typed_def)

lemma conf_typed_upd:
  assumes "conf_typed st" and "keeps_typed (cf_bal st) (f (cf_bal st))"
  shows "conf_typed (upd_conf f st)"
  using assms by (simp add: conf_typed_def upd_conf_def keeps_typed_def)

lemma typed_server: "\<forall>f\<in>set (server_directives env). keeps_inv conf_typed f"
proof -
  have "keeps_inv conf_typed conf_port" "keeps_inv conf_typed conf_maxc" "keeps_inv conf_typed conf_maxl" "keeps_inv conf_typed conf_status"
    "keeps_inv conf_typed conf_standby" "keeps_inv conf_typed (conf_ip env)" "keeps_inv conf_typed conf_clone"
    unfolding conf_port_def conf_maxc_def conf_maxl_def conf_status_def conf_standby_def conf_ip_def conf_clone_def
    by (rule keeps_inv_value; auto simp: conf_split split: prod.split_asm if_split_asm option.split_asm)+
  then show ?thesis by (simp add: server_directives_def)
qed

lemma typed_int:
  assumes "\<And>b v. c_int v \<Longrightarrow> keeps_typed b (set_field v b)"
  shows "keeps_inv conf_typed (conf_int name n base valid set_field)"
proof -
  have "conf_typed (upd_conf (set_field (int_of_long l)) (st\<lparr>cf_errno := e\<rparr>))" if "conf_typed st" for l st e
    by (rule conf_typed_upd) (use that assms in simp_all)
  then show ?thesis unfolding conf_int_def
    by (intro keeps_inv_value) (auto simp: conf_split split: prod.split_asm if_split_asm)
qed

lemma typed_ints:
  "keeps_inv conf_typed conf_hash_rebalance_threshold" "keeps_inv conf_typed conf_hash_rebalance_size"
  "keeps_inv conf_typed conf_hash_rebalance_interval" "keeps_inv conf_typed conf_shm_perms" "keeps_inv conf_typed conf_monitor_interval"
  "keeps_inv conf_typed conf_connect_timeout" "keeps_inv conf_typed conf_session_limit" "keeps_inv conf_typed conf_fd_limit"
  "keeps_inv conf_typed conf_use_syslog" "keeps_inv conf_typed conf_binding_port"
  unfolding conf_hash_rebalance_threshold_def conf_hash_rebalance_size_def conf_hash_rebalance_interval_def conf_shm_perms_def
    conf_monitor_interval_def conf_connect_timeout_def conf_session_limit_def conf_fd_limit_def conf_use_syslog_def conf_binding_port_def
  by (rule typed_int; rule keeps_typed_fields; simp add: settings_typed_def)+

lemma typed_addr:
  assumes "\<And>b v. keeps_typed b (set_field v b)"
  shows "keeps_inv conf_typed (conf_addr env name n set_field)"
  unfolding conf_addr_def
  by (rule keeps_inv_value) (auto simp: conf_split split: option.split_asm intro!: conf_typed_upd assms)

lemma typed_global: "\<forall>f\<in>set (global_directives env). keeps_inv conf_typed f"
proof -
  have "keeps_inv conf_typed (conf_binding_ip env)" "keeps_inv conf_typed (conf_member_outbound_ip env)" "keeps_inv conf_typed (conf_clone_outbound_ip env)"
    unfolding conf_binding_ip_def conf_member_outbound_ip_def conf_clone_outbound_ip_def
    by (rule typed_addr; rule keeps_typed_fields; simp add: settings_typed_def c_int_def INT_MIN_def INT_MAX_def)+
  moreover have "keeps_inv conf_typed (conf_snmp_community_pw env)" "keeps_inv conf_typed (conf_snmp_enable env)"
    unfolding conf_snmp_community_pw_def conf_snmp_enable_def
    by (rule keeps_inv_directive; auto simp: conf_split res_bind_eq_Inr split: if_split_asm intro!: conf_typed_upd keeps_typed_fields;
        simp add: settings_typed_def)+
  moreover have "keeps_inv conf_typed (conf_shm_run_dir env)" "keeps_inv conf_typed conf_session_weight" "keeps_inv conf_typed (conf_algorithm env)"
    "keeps_inv conf_typed conf_clone_mode" "keeps_inv conf_typed conf_overload_mode" "keeps_inv conf_typed conf_default_maxl"
    unfolding conf_shm_run_dir_def conf_session_weight_def conf_algorithm_def conf_clone_mode_def conf_overload_mode_def conf_default_maxl_def
    by (rule keeps_inv_value; auto simp: conf_split split: prod.split_asm if_split_asm intro!: conf_typed_upd keeps_typed_fields;
        simp add: settings_typed_def)+
  moreover have "keeps_inv conf_typed conf_default_maxc" unfolding conf_default_maxc_def
    by (rule keeps_inv_value) (auto simp: conf_split split: prod.split_asm if_split_asm,
        simp add: conf_typed_def upd_conf_def bal_typed_def settings_typed_def)
  ultimately show ?thesis using typed_ints by (simp add: global_directives_def)
qed

lemma typed_logging: "f \<in> {conf_log_file env, conf_debug_level ovr} \<Longrightarrow> keeps_inv conf_typed f"
proof -
  have "keeps_inv conf_typed (conf_log_file env)" unfolding conf_log_file_def
    by (rule keeps_inv_value) (auto simp: conf_split split: if_split_asm intro!: conf_typed_upd keeps_typed_fields; simp add: settings_typed_def)
  moreover have "conf_typed (upd_conf (\<lambda>b. b\<lparr>debug_level := int_of_long n\<rparr>) st)" if "conf_typed st" for n st
    by (rule conf_typed_upd [OF that], rule keeps_typed_fields) (simp_all add: settings_typed_def)
  then have "keeps_inv conf_typed (conf_debug_level ovr)" unfolding conf_debug_level_def
    by (intro keeps_inv_directive) (auto simp: conf_split elim!: res_bindE split: if_split_asm prod.split_asm)
  ultimately show "f \<in> {conf_log_file env, conf_debug_level ovr} \<Longrightarrow> keeps_inv conf_typed f" by auto
qed

lemma typed_section_end:
  assumes "conf_typed st" and "conf_section_end env st = Inr st'"
  shows "conf_typed st'"
proof -
  obtain r b where c: "create_balancer_server (cv_malloc env) (cf_bal st) (serverClone st) (serverName st) (serverStatus st)
      (standbyState st) (serverPort st) (serverIP st) (serverMaxc st) (serverMaxl st) = Inr (r, b)"
    and st': "cf_bal st' = b" "serverPort st' = 80" "serverMaxc st' = default_maxc b"
    using assms(2) by (fastforce simp: conf_section_end_def Let_def res_bind_eq_Inr split: if_split_asm)
  have "bal_typed b" using create_typed [OF c] assms(1) by (simp add: conf_typed_def keeps_typed_def)
  then show ?thesis using st' c_int_small by (simp add: conf_typed_def bal_typed_def settings_typed_def)
qed

interpretation conf_types: conf_law conf_typed
  by unfold_locales
    (use typed_server typed_global typed_logging typed_section_end in \<open>auto simp: conf_section_start_def Let_def split: if_split_asm\<close>)

section \<open>The steps of start-up\<close>

lemma initialize_balancer_typed:
  assumes "initialize_balancer m snmp d = Inr b" and "c_int d"
  shows "bal_typed b"
  using assms zero_server_typed
  by (auto simp: initialize_balancer_def bal_typed_def settings_typed_def list_all_length c_int_def INT_MIN_def INT_MAX_def split: if_split_asm)

lemma conf_start_typed: "bal_typed b \<Longrightarrow> conf_typed (conf_start ip0 name0 b)"
  using c_int_small by (simp add: conf_start_def conf_typed_def bal_typed_def settings_typed_def)

text \<open>The option \<open>-d\<close> and the kernel pass values of type \<open>int\<close>.\<close>

definition env_typed :: "START_ENV \<Rightarrow> int option \<Rightarrow> bool" where
  "env_typed se debug \<longleftrightarrow> pred_option c_int debug \<and> pred_option c_int (se_shmget se) \<and> c_int (se_getpid se)"

lemma configure_typed:
  assumes "configure se fg debug = Inr b" and "pred_option c_int debug"
  shows "bal_typed b"
proof -
  obtain b0 b1 where b0: "initialize_balancer (se_malloc se) (cv_snmp (se_conf se)) (case debug of None \<Rightarrow> 0 | Some d \<Rightarrow> d) = Inr b0"
    and b1: "initialize_logging (se_conf se) (debug \<noteq> None) (se_log_fopen se) (se_conf_file se) (set_foreground fg b0) = Inr b1"
    and b: "parse_config_file (se_conf se) (se_ip0 se) (se_name0 se) (se_conf_file se) b1 = Inr b"
    using assms(1) by (auto simp: configure_def res_bind_eq_Inr)
  have "bal_typed b0" by (rule initialize_balancer_typed [OF b0]) (use assms(2) in \<open>cases debug; simp\<close>)
  then have "bal_typed (set_foreground fg b0)" by (simp add: bal_typed_def settings_typed_def set_foreground_def)
  then obtain st where "conf_typed st" "b1 = (cf_bal st)\<lparr>log_file_open := True\<rparr>"
    using conf_types.kept_by_initialize_logging [OF b1] conf_start_typed by blast
  then have "bal_typed b1" by (simp add: conf_typed_def bal_typed_def settings_typed_def)
  then show ?thesis using conf_types.kept_by_parser [OF b] conf_start_typed by (auto simp: conf_typed_def)
qed

lemma initialize_shm_typed:
  assumes "initialize_shm se b = Inr b'" and "bal_typed b" and "pred_option c_int (se_shmget se)"
  shows "bal_typed b'"
  using assms
  by (auto simp: initialize_shm_def start_exit_def Let_def bal_typed_def settings_typed_def split: option.split_asm if_split_asm)

lemma c_div_3_c_int: "c_int n \<Longrightarrow> 0 \<le> n \<Longrightarrow> c_int (c_div (n - 4) 3)"
proof -
  assume n: "c_int n" "0 \<le> n"
  have "\<bar>c_div (n - 4) 3\<bar> \<le> \<bar>n - 4\<bar> div 3" by (simp add: c_div_def abs_mult abs_sgn_eq)
  also have "\<dots> \<le> INT_MAX" using n by (simp add: c_int_def INT_MIN_def INT_MAX_def)
  finally show ?thesis by (auto simp: c_int_def INT_MIN_def INT_MAX_def abs_le_iff)
qed

lemma initialize_fds_typed:
  assumes "initialize_fds rl m lb = Inr lb'" and "bal_typed (balancer lb)"
  shows "bal_typed (balancer lb')" and "0 \<le> fd_limit (balancer lb')"
  using assms by (auto simp: initialize_fds_def Let_def bal_typed_def settings_typed_def split: option.split_asm if_split_asm)

lemma initialize_sessions_typed:
  assumes "initialize_sessions m m2 lb = Inr lb'" and "bal_typed (balancer lb)" and "0 \<le> fd_limit (balancer lb)"
  shows "bal_typed (balancer lb')"
proof -
  have "c_int (session_limit_of (balancer lb))"
    using assms(2,3) c_div_3_c_int by (auto simp: session_limit_of_def supportable_sessions_def bal_typed_def settings_typed_def)
  moreover have "balancer lb' = (balancer lb)\<lparr>session_limit := session_limit_of (balancer lb)\<rparr>"
    using assms(1) by (auto simp: initialize_sessions_def initialize_unused_session_def Let_def upd_bal_def split: if_split_asm prod.split_asm)
  ultimately show ?thesis using assms(2) by (simp add: bal_typed_def settings_typed_def)
qed

lemma start_up_typed:
  assumes "start_up se fg debug = Inr (fd, lb)" and "env_typed se debug"
  shows "bal_typed (balancer lb)"
proof -
  obtain b b1 lb1 lb2 lb3 where s: "configure se fg debug = Inr b" "initialize_shm se b = Inr b1"
    "initialize_fds (se_getrlimit se) (se_malloc se) (globals b1) = Inr lb1"
    "initialize_sessions (se_malloc se) (se_malloc se) lb1 = Inr lb2" "initialize_process se lb2 = Inr lb3"
    "register_listener se fd lb3 = Inr lb"
    using assms(1) by (auto simp: start_up_def res_bind_eq_Inr)
  have "bal_typed b1" using configure_typed [OF s(1)] initialize_shm_typed [OF s(2)] assms(2) by (simp add: env_typed_def)
  then have "bal_typed (balancer (globals b1))" by (simp add: globals_def)
  then have "bal_typed (balancer lb2)" using initialize_fds_typed [OF s(3)] initialize_sessions_typed [OF s(4)] by simp
  then have "bal_typed (balancer lb3)"
    using s(5) assms(2)
    by (auto simp: initialize_process_def res_bind_eq_Inr start_exit_def bal_typed_def settings_typed_def env_typed_def split: if_split_asm)
  then show ?thesis using s(6) by (auto simp: register_listener_def master_exit_def start_exit_def split: if_split_asm)
qed

end
