(* ===== verification/Command_Line.thy ===== *)
theory Command_Line
  imports Startup
begin

text \<open>
  The command lines of the two programs: \<open>main\<close> of octopus.c up to the start-up, \<open>main\<close> of admin.c, and
  the loop of the admin tool around its commands. \<open>getopt\<close> is modelled as GNU getopt does it: clustered
  letters, arguments in the same or in the next word, operands moved behind the options, \<open>--\<close> as their end.
\<close>

section \<open>getopt\<close>

text \<open>An option letter with its argument, or a letter that is unknown or lacks its argument (\<open>'?'\<close>).\<close>

datatype getopt_item = Opt char "string option" | Bad char

text \<open>Whether a letter of the option string takes an argument; \<open>None\<close> for a letter that is not there.\<close>

definition opt_kind :: "string \<Rightarrow> char \<Rightarrow> bool option" where
  "opt_kind optstring c =
     (if c = CHR '':'' then None
      else case dropWhile (\<lambda>x. x \<noteq> c) optstring of [] \<Rightarrow> None | x # r \<Rightarrow> Some (r \<noteq> [] \<and> hd r = CHR '':''))"

text \<open>The letters of one word; \<open>rest\<close> are the words behind it.\<close>

fun getopt_letters :: "string \<Rightarrow> string \<Rightarrow> string list \<Rightarrow> getopt_item list \<times> string list" where
  "getopt_letters os [] rest = ([], rest)"
| "getopt_letters os (c # cs) rest =
     (case opt_kind os c of
        None \<Rightarrow> (let (its, rest') = getopt_letters os cs rest in (Bad c # its, rest'))
      | Some False \<Rightarrow> (let (its, rest') = getopt_letters os cs rest in (Opt c None # its, rest'))
      | Some True \<Rightarrow>
          if cs \<noteq> [] then ([Opt c (Some cs)], rest)
          else (case rest of [] \<Rightarrow> ([Bad c], []) | w # ws \<Rightarrow> ([Opt c (Some w)], ws)))"

lemma getopt_letters_rest: "length (snd (getopt_letters os cs rest)) \<le> length rest"
  by (induction os cs rest rule: getopt_letters.induct) (auto split: option.split bool.split list.split prod.split)

text \<open>All items in the order in which \<open>getopt\<close> returns them, and the operands behind \<open>optind\<close>.\<close>

function getopt :: "string \<Rightarrow> string list \<Rightarrow> getopt_item list \<times> string list" where
  "getopt os [] = ([], [])"
| "getopt os (w # ws) =
     (if w = ''--'' then ([], ws)
      else if length w \<le> 1 \<or> hd w \<noteq> CHR ''-'' then (let (its, ops) = getopt os ws in (its, w # ops))
      else
        (let its = fst (getopt_letters os (tl w) ws); (its', ops) = getopt os (snd (getopt_letters os (tl w) ws))
         in (its @ its', ops)))"
  by pat_completeness auto
termination
  by (relation "measure (length \<circ> snd)") (simp_all add: getopt_letters_rest le_imp_less_Suc)

section \<open>The server\<close>

record MAIN_OPTS =
  param_conf_file :: "string option"
  param_foreground :: bool
  temporary_debug_level :: "int option"

definition no_options :: MAIN_OPTS where
  "no_options = \<lparr>param_conf_file = None, param_foreground = False, temporary_debug_level = None\<rparr>"

text \<open>
  The loop over the options. \<open>usage\<close> exits with status 0; an unknown letter is logged as a fatal error
  while the balancer pointer is still null.
\<close>

fun main_options :: "getopt_item list \<Rightarrow> MAIN_OPTS \<Rightarrow> MAIN_OPTS res" where
  "main_options [] o1 = Inr o1"
| "main_options (Bad c # its) o1 = start_exit"
| "main_options (Opt c arg # its) o1 =
     (if c = CHR ''h'' then Inl (Process_exit 0)
      else if c = CHR ''c'' then main_options its (o1\<lparr>param_conf_file := arg\<rparr>)
      else if c = CHR ''f'' then main_options its (o1\<lparr>param_foreground := True\<rparr>)
      else if c = CHR ''d'' then res_bind (deref arg) (\<lambda>v. main_options its (o1\<lparr>temporary_debug_level := Some (atoi v)\<rparr>))
      else Inl Aborted)"

text \<open>
  \<open>main\<close> up to the event loop; \<open>files\<close> gives the contents of the files that can be opened. Without \<open>-c\<close>
  the name of the configuration file is null, and no file is opened.
\<close>

definition octopus_main :: "START_ENV \<Rightarrow> (string \<Rightarrow> string option) \<Rightarrow> string list \<Rightarrow> (int \<times> LB) res" where
  "octopus_main se files argv =
     (if length argv = 1 then Inl (Process_exit 0)
      else
        (let (its, operands) = getopt ''d:hc:f'' (tl argv) in
         res_bind (main_options its no_options) (\<lambda>o1.
           if operands \<noteq> [] then start_exit
           else start_up (se\<lparr>se_conf_file := Option.bind (param_conf_file o1) files\<rparr>)
                  (param_foreground o1) (temporary_debug_level o1))))"

section \<open>The admin tool\<close>

record ADMIN_OPTS =
  run_dir :: string
  use_run_file :: "string option"
  cli_input :: "string option"
  opt_readonly :: bool
  opt_ignore_version :: bool
  opt_csv :: bool

definition DEFAULT_SHM_RUN_DIR :: string where "DEFAULT_SHM_RUN_DIR = ''/var/run/octopuslb/''"

definition no_admin_options :: ADMIN_OPTS where
  "no_admin_options = \<lparr>run_dir = DEFAULT_SHM_RUN_DIR, use_run_file = None, cli_input = None, opt_readonly = False,
     opt_ignore_version = False, opt_csv = False\<rparr>"

fun admin_options :: "getopt_item list \<Rightarrow> ADMIN_OPTS \<Rightarrow> ADMIN_OPTS res" where
  "admin_options [] o1 = Inr o1"
| "admin_options (Bad c # its) o1 = Inl (Process_exit 1)"
| "admin_options (Opt c arg # its) o1 =
     (if c = CHR ''d'' then res_bind (deref arg) (\<lambda>v. admin_options its (o1\<lparr>run_dir := v\<rparr>))
      else if c = CHR ''f'' then res_bind (deref arg) (\<lambda>v. admin_options its (o1\<lparr>use_run_file := Some v\<rparr>))
      else if c = CHR ''e'' then res_bind (deref arg) (\<lambda>v. admin_options its (o1\<lparr>cli_input := Some v\<rparr>))
      else if c = CHR ''h'' then Inl (Process_exit 0)
      else if c = CHR ''r'' then admin_options its (o1\<lparr>opt_readonly := True\<rparr>)
      else if c = CHR ''i'' then admin_options its (o1\<lparr>opt_ignore_version := True\<rparr>)
      else if c = CHR ''m'' then admin_options its (o1\<lparr>opt_csv := True\<rparr>)
      else Inl Aborted)"

text \<open>
  Options and attaching. \<open>dirs\<close> are the regular files of a directory; the other arguments of the
  commands are in \<open>env\<close>, whose list of files and version flag the options determine.
\<close>

definition admin_env :: "ADMIN_ENV \<Rightarrow> (string \<Rightarrow> string list) \<Rightarrow> ADMIN_OPTS \<Rightarrow> ADMIN_ENV" where
  "admin_env env dirs o1 = env\<lparr>ad_files := dirs (run_dir o1), ad_ignore := opt_ignore_version o1\<rparr>"

definition admin_attach :: "ADMIN_ENV \<Rightarrow> (string \<Rightarrow> string list) \<Rightarrow> string list \<Rightarrow> ADMIN \<Rightarrow> (ADMIN_OPTS \<times> ADMIN) res" where
  "admin_attach env dirs argv a =
     (let (its, operands) = getopt ''mirhd:f:e:'' (tl argv) in
      res_bind (admin_options its no_admin_options) (\<lambda>o1.
        if operands \<noteq> [] then Inl (Process_exit 1)
        else
          (let a = (if opt_readonly o1 then a\<lparr>readonly := True\<rparr> else a); env = admin_env env dirs o1 in
           case use_run_file o1 of
             Some run_file \<Rightarrow> res_bind (connect_to_shm (ad_shm env run_file) (ad_ignore env) a) (\<lambda>a. Inr (o1, a))
           | None \<Rightarrow> res_bind (cmd_scan_for_instances env a) (\<lambda>(v, a). Inr (o1, a)))))"

text \<open>
  The interactive loop, with fuel for its turns: \<open>fgets\<close> delivers the lines, and at the end of the
  input it returns NULL, upon which the loop goes on. The result is \<open>None\<close> when the fuel runs out.
\<close>

fun prompt_loop :: "nat \<Rightarrow> ADMIN_ENV \<Rightarrow> string list \<Rightarrow> ADMIN \<Rightarrow> fault option" where
  "prompt_loop 0 env ls a = None"
| "prompt_loop (Suc n) env [] a = prompt_loop n env [] a"
| "prompt_loop (Suc n) env (l # ls) a =
     (case command_prompt env l a of Inl e \<Rightarrow> Some e | Inr a' \<Rightarrow> prompt_loop n env ls a')"

text \<open>With the option \<open>-e\<close> there is one command, and its result is the exit status.\<close>

definition run_single :: "ADMIN_ENV \<Rightarrow> string \<Rightarrow> ADMIN \<Rightarrow> fault" where
  "run_single env input a =
     (case command_line env input a of Inl e \<Rightarrow> e | Inr a' \<Rightarrow> Process_exit (command_return_value a'))"

end
