(* ===== verification/Show.thy ===== *)
theory Show
  imports Startup
begin

text \<open>
  What the commands \<open>show\<close> and \<open>info\<close> of the admin tool print, character by character, in the format
  for people and in the comma-separated format for other programs (option \<open>-m\<close>). The conversions of
  \<open>printf\<close> that they use are modelled; \<open>%f\<close> rounds the exact value half to even. The sign of a zero and of
  a NaN is not part of the float model, so that \<open>-0.000000\<close> and \<open>-nan\<close> do not occur. A server name that
  fills its 16 bytes is followed by the padding of the structure, which is zero.
\<close>

section \<open>printf\<close>

text \<open>\<open>%Ns\<close> and \<open>%Nd\<close>: blanks on the left up to the width.\<close>

definition pad :: "nat \<Rightarrow> string \<Rightarrow> string" where
  "pad n s = replicate (n - length s) CHR '' '' @ s"

definition pad_zero :: "nat \<Rightarrow> string \<Rightarrow> string" where
  "pad_zero n s = replicate (n - length s) CHR ''0'' @ s"

text \<open>The digits of \<open>%.df\<close>, and the conversion itself with a text for the sign of numbers not below zero.\<close>

definition fixed_digits :: "nat \<Rightarrow> rat \<Rightarrow> string" where
  "fixed_digits d x =
     (let k = nat (round_half_even (\<bar>x\<bar> * 10 ^ d))
      in show_nat (k div 10 ^ d) @ ''.'' @ pad_zero d (show_nat (k mod 10 ^ d)))"

fun show_f :: "string \<Rightarrow> nat \<Rightarrow> c_float \<Rightarrow> string" where
  "show_f nonneg d (Fin x) = (if x < 0 then ''-'' else nonneg) @ fixed_digits d x"
| "show_f nonneg d (Inf neg) = (if neg then ''-'' else nonneg) @ ''inf''"
| "show_f nonneg d NaN = nonneg @ ''nan''"

definition show_lu :: "64 word \<Rightarrow> string" where
  "show_lu w = show_nat (unat w)"

section \<open>Names of the enumerations\<close>

fun server_status :: "server_state \<Rightarrow> string" where
  "server_status SERVER_STATE_FREE = ''Free''"
| "server_status SERVER_STATE_DELETED = ''Deleted''"
| "server_status SERVER_STATE_FAILED = ''Failed''"
| "server_status SERVER_STATE_DISABLED = ''Disabled''"
| "server_status SERVER_STATE_ENABLED = ''Enabled''"

fun cloning_status :: "clone_mode_t \<Rightarrow> string" where
  "cloning_status CLONE_MODE_OFF = ''Disabled''"
| "cloning_status CLONE_MODE_ON = ''Enabled''"
| "cloning_status CLONE_MODE_FAILED = ''Failed''"

fun overload_status :: "overload_mode_t \<Rightarrow> string" where
  "overload_status OVERLOAD_MODE_RELAXED = ''Relaxed''"
| "overload_status OVERLOAD_MODE_STRICT = ''Strict''"

fun algorithm_status :: "algorithm_t \<Rightarrow> string" where
  "algorithm_status ALGORITHM_RR = ''Round Robin''"
| "algorithm_status ALGORITHM_LC = ''Least Connections''"
| "algorithm_status ALGORITHM_LL = ''Least Load''"
| "algorithm_status ALGORITHM_HASH = ''Hash''"
| "algorithm_status ALGORITHM_STATIC = ''Static''"

fun standby_status :: "standby_flag \<Rightarrow> string" where
  "standby_status STANDBY_STATE_TRUE = ''(S)''"
| "standby_status STANDBY_STATE_FALSE = []"

section \<open>show\<close>

text \<open>The numbers of the slots of a table that are listed.\<close>

definition listed :: "SERVER list \<Rightarrow> nat \<Rightarrow> nat list" where
  "listed srvs n = filter (\<lambda>i. srv_status (srvs ! i) \<noteq> SERVER_STATE_FREE) [0..<n]"

fun commas :: "string list \<Rightarrow> string" where
  "commas [] = []"
| "commas [f] = f"
| "commas (f # fs) = f @ '','' @ commas fs"

definition csv_fields :: "(32 word \<Rightarrow> string) \<Rightarrow> string \<Rightarrow> nat \<Rightarrow> SERVER \<Rightarrow> string list" where
  "csv_fields ntoa kind i s =
     [kind, show_nat i, srv_name s, server_status (srv_status s), standby_status (srv_standby_state s),
      ntoa (srv_sin_addr s), show_int (srv_port s), show_int (srv_c s), show_int (srv_maxc s),
      show_lu (srv_completed_c s), show_lu (srv_bsent s), show_lu (srv_brecv s),
      show_f [] 6 (srv_load s), show_f [] 6 (srv_maxl s), show_int (srv_e_load s)]"

definition show_csv :: "(32 word \<Rightarrow> string) \<Rightarrow> BALANCER \<Rightarrow> string" where
  "show_csv ntoa b =
     concat (map (\<lambda>i. commas (csv_fields ntoa ''Member'' i (members b ! i)) @ ''\<newline>'') (listed (members b) (nmembers b)))
     @ concat (map (\<lambda>i. commas (csv_fields ntoa ''Clone'' i (clones b ! i)) @ ''\<newline>'') (listed (clones b) (nclones b)))"

text \<open>The first line: the balancer.\<close>

definition show_general :: "(32 word \<Rightarrow> string) \<Rightarrow> BALANCER \<Rightarrow> string" where
  "show_general ntoa b =
     ntoa (binding_ip b) @ '':'' @ show_int (binding_port b) @ '', Algorithm: '' @ algorithm_status (algorithm b)
     @ '', Cloning: '' @ cloning_status (clone_mode b)
     @ (if snmp_status b = SNMP_ENABLED
        then '', Overload: '' @ overload_status (overload_mode b)
          @ (if overall_load b \<ge> 0 then '', Load @ '' @ show_int (overall_load b) @ ''%'' else [])
        else [])
     @ ''\<newline>''"

definition show_headings :: "bool \<Rightarrow> BALANCER \<Rightarrow> string" where
  "show_headings extended b =
     pad 9 ''type'' @ '' '' @ pad 3 ''#'' @ '' '' @ pad 16 ''name'' @ ''  '' @ pad 8 ''status'' @ '' '' @ pad 16 ''ip-address''
     @ '' '' @ pad 4 ''port'' @ '' '' @ pad 5 ''c'' @ '' ''
     @ (if extended then pad 5 ''maxc'' @ '' '' @ pad 7 ''hc'' @ '' '' @ pad 12 ''bsent'' @ '' '' @ pad 12 ''brecv'' else [])
     @ (if snmp_status b = SNMP_ENABLED
        then (if extended then '' '' @ pad 5 ''load'' @ ''  '' @ pad 5 ''maxl'' @ '' '' else []) @ pad 7 ''loading''
        else [])
     @ ''\<newline>''"

text \<open>The line of a server: \<open>lead\<close> is the part that differs between members and clones.\<close>

definition show_load :: "c_float \<Rightarrow> string" where
  "show_load l = (if l = SNMP_LOAD_NOT_INIT then ''     - '' else if l = SNMP_LOAD_FAILED then ''   ??? ''
     else '' '' @ show_f '' '' 2 l @ '' '')"

definition show_server :: "(32 word \<Rightarrow> string) \<Rightarrow> bool \<Rightarrow> BALANCER \<Rightarrow> string \<Rightarrow> nat \<Rightarrow> SERVER \<Rightarrow> string" where
  "show_server ntoa extended b lead i s =
     lead @ '' '' @ pad 3 (show_nat i) @ '' '' @ pad 16 (srv_name s) @ ''  '' @ pad 8 (server_status (srv_status s)) @ '' ''
     @ pad 16 (ntoa (srv_sin_addr s)) @ '' '' @ pad 4 (show_int (srv_port s)) @ '' '' @ pad 5 (show_int (srv_c s)) @ '' ''
     @ (if extended
        then pad 5 (show_int (srv_maxc s)) @ '' '' @ pad 7 (show_lu (srv_completed_c s)) @ '' '' @ pad 12 (show_lu (srv_bsent s))
          @ '' '' @ pad 12 (show_lu (srv_brecv s))
        else [])
     @ (if snmp_status b = SNMP_ENABLED
        then (if extended then show_load (srv_load s) @ '' '' @ show_f '' '' 2 (srv_maxl s) @ '' '' else [])
          @ (if f_le (Fin 0) (srv_load s) then ''   '' @ pad 3 (show_int (srv_e_load s)) @ ''%'' else [])
        else [])
     @ ''\<newline>''"

definition member_lead :: "SERVER \<Rightarrow> string" where
  "member_lead s = pad 3 (standby_status (srv_standby_state s)) @ pad 6 ''Member''"

definition clone_lead :: "SERVER \<Rightarrow> string" where
  "clone_lead s = '' '' @ pad 3 (standby_status (srv_standby_state s)) @ pad 5 ''Clone''"

definition cmd_show :: "(32 word \<Rightarrow> string) \<Rightarrow> bool \<Rightarrow> bool \<Rightarrow> BALANCER \<Rightarrow> string" where
  "cmd_show ntoa csv extended b =
     (if csv then show_csv ntoa b
      else show_general ntoa b @ show_headings extended b
        @ concat (map (\<lambda>i. show_server ntoa extended b (member_lead (members b ! i)) i (members b ! i)) (listed (members b) (nmembers b)))
        @ concat (map (\<lambda>i. show_server ntoa extended b (clone_lead (clones b ! i)) i (clones b ! i)) (listed (clones b) (nclones b))))"

section \<open>info\<close>

abbreviation TAB :: string where "TAB \<equiv> [CHR 0x09]"

text \<open>A line: the label, the white space behind it and the value.\<close>

definition info_line :: "string \<Rightarrow> string \<Rightarrow> string \<Rightarrow> string" where
  "info_line label gap v = label @ gap @ v @ ''\<newline>''"

definition info_process :: "BALANCER \<Rightarrow> string" where
  "info_process b =
     ''Process info\<newline>'' @ ''============\<newline>''
     @ info_line ''Octopus version :'' TAB (version b)
     @ info_line ''Balancer PID:'' (TAB @ TAB) (show_int (master_pid b))
     @ info_line ''Monitor PID:'' (TAB @ TAB) (show_int (monitor_pid b))
     @ info_line ''Shared Memory ID:'' TAB (show_int (shmid b))
     @ info_line ''Shared Memory file:'' TAB (shm_run_file_fullname b)
     @ info_line ''Debug Level:'' (TAB @ TAB) (show_int (debug_level b))
     @ ''\<newline>''"

definition info_network :: "(32 word \<Rightarrow> string) \<Rightarrow> BALANCER \<Rightarrow> string" where
  "info_network ntoa b =
     ''Network info\<newline>'' @ ''============\<newline>''
     @ info_line ''Listening IP:'' (TAB @ TAB) (ntoa (binding_ip b))
     @ info_line ''Listening TCP port:'' TAB (show_int (binding_port b))
     @ info_line ''Member outbound IP:'' TAB (ntoa (member_outbound_ip b))
     @ info_line ''Clone outbound IP:'' TAB (ntoa (clone_outbound_ip b))
     @ info_line ''File Descriptor Limit:'' TAB (show_int (fd_limit b))
     @ info_line ''Session Limit:'' (TAB @ TAB) (show_int (session_limit b))
     @ ''\<newline>''"

definition info_algorithm :: "BALANCER \<Rightarrow> string" where
  "info_algorithm b =
     ''Balancing algorithm info\<newline>'' @ ''========================\<newline>''
     @ info_line ''Algorithm:'' (TAB @ TAB) (algorithm_status (algorithm b))
     @ info_line ''Clone mode:'' (TAB @ TAB) (cloning_status (clone_mode b))
     @ info_line ''Overload mode:'' (TAB @ TAB) (overload_status (overload_mode b))
     @ info_line ''Session Weight:'' (TAB @ TAB) (show_f [] 6 (session_weight b))
     @ info_line ''Default max conn limit:'' TAB (show_int (default_maxc b))
     @ info_line ''Default max load limit:'' TAB (show_f [] 6 (default_maxl b))
     @ ''\<newline>''"

fun snmp_text :: "snmp_status_t \<Rightarrow> string" where
  "snmp_text SNMP_ENABLED = ''Enabled''"
| "snmp_text SNMP_DISABLED = ''Disabled''"
| "snmp_text SNMP_NOT_INCLUDED = ''Not compiled!''"

definition info_monitor :: "BALANCER \<Rightarrow> string" where
  "info_monitor b =
     ''Monitor info\<newline>'' @ ''============\<newline>''
     @ info_line ''Interval:'' (TAB @ TAB) (show_nat (unat (monitor_interval b)))
     @ info_line ''Check timeout:'' (TAB @ TAB) (show_int (connect_timeout b))
     @ info_line ''SNMP status:'' (TAB @ TAB) (snmp_text (snmp_status b))
     @ ''\<newline>''"

definition info_hash :: "BALANCER \<Rightarrow> string" where
  "info_hash b =
     ''URI Hash info\<newline>'' @ ''=============\<newline>''
     @ info_line ''Table size:'' (TAB @ TAB) (show_nat HASHTABLESIZE)
     @ info_line ''Rebalance threshold: '' TAB (show_int (hash_rebalance_threshold b) @ ''%'')
     @ info_line ''Rebalance size:'' (TAB @ TAB) (show_int (hash_rebalance_size b) @ ''%'')
     @ info_line ''Rebalance interval: '' TAB (show_int (hash_rebalance_interval b) @ '' seconds'')
     @ pad 16 ''Server_Name'' @ '' | '' @ pad 10 ''URI_Assignments'' @ ''\<newline>''
     @ concat (map (\<lambda>i. pad 16 (srv_name (members b ! i)) @ '' '' @ pad 8 (show_nat (unat (srv_hash_table_usage (members b ! i)))) @ ''\<newline>'')
         (listed (members b) (nmembers b)))"

definition cmd_info :: "(32 word \<Rightarrow> string) \<Rightarrow> BALANCER \<Rightarrow> string" where
  "cmd_info ntoa b = info_process b @ info_network ntoa b @ info_algorithm b @ info_monitor b @ info_hash b"

section \<open>Reading the comma-separated format\<close>

text \<open>The fields of a text between the occurrences of a character, as a reader of the output splits it.\<close>

fun split_on :: "char \<Rightarrow> string \<Rightarrow> string list" where
  "split_on c [] = [[]]"
| "split_on c (x # xs) = (if x = c then [] # split_on c xs else (x # hd (split_on c xs)) # tl (split_on c xs))"

definition csv_rows :: "string \<Rightarrow> string list list" where
  "csv_rows t = map (split_on CHR '','') (butlast (split_on CHR ''\<newline>'' t))"

lemma split_on_not_Nil [simp]: "split_on c xs \<noteq> []"
  by (cases xs) simp_all

lemma split_on_append: "c \<notin> set xs \<Longrightarrow> split_on c (xs @ c # ys) = xs # split_on c ys"
  by (induction xs) auto

lemma split_on_single: "c \<notin> set xs \<Longrightarrow> split_on c xs = [xs]"
  by (induction xs) auto

lemma split_commas: "fs \<noteq> [] \<Longrightarrow> \<forall>f \<in> set fs. CHR '','' \<notin> set f \<Longrightarrow> split_on CHR '','' (commas fs) = fs"
  by (induction fs rule: commas.induct) (simp_all add: split_on_single split_on_append)

lemma set_commas: "set (commas fs) \<subseteq> insert CHR '','' (\<Union> (set ` set fs))"
  by (induction fs rule: commas.induct) auto

lemma split_lines:
  "\<forall>l \<in> set ls. CHR ''\<newline>'' \<notin> set l \<Longrightarrow> split_on CHR ''\<newline>'' (concat (map (\<lambda>l. l @ ''\<newline>'') ls)) = ls @ [[]]"
  by (induction ls) (simp_all add: split_on_append)

text \<open>A table of fields without separators in them comes back.\<close>

lemma csv_rows_lines:
  assumes "\<forall>fs \<in> set rows. fs \<noteq> [] \<and> (\<forall>f \<in> set fs. CHR '','' \<notin> set f \<and> CHR ''\<newline>'' \<notin> set f)"
  shows "csv_rows (concat (map (\<lambda>fs. commas fs @ ''\<newline>'') rows)) = rows"
proof -
  have "CHR ''\<newline>'' \<notin> set (commas fs)" if "fs \<in> set rows" for fs
    using assms that set_commas [of fs] by fastforce
  then have "split_on CHR ''\<newline>'' (concat (map (\<lambda>l. l @ ''\<newline>'') (map commas rows))) = map commas rows @ [[]]"
    by (intro split_lines) simp
  then have "csv_rows (concat (map (\<lambda>fs. commas fs @ ''\<newline>'') rows)) = map (split_on CHR '','') (map commas rows)"
    by (simp add: csv_rows_def o_def)
  also have "\<dots> = rows" using assms by (simp add: split_commas map_idI)
  finally show ?thesis .
qed

section \<open>Reading numbers back\<close>

lemma strtol_show_int:
  assumes "LONG_MIN \<le> i" and "i \<le> LONG_MAX"
  shows "strtol 10 (show_int i) = (i, True, False)"
proof (cases "i < 0")
  case False
  then show ?thesis using strtol_show_nat [of "nat i"] assms(2) by (simp add: show_int_def)
next
  case True
  let ?n = "nat (- i)"
  have "dropWhile isspace (show_int i) = show_int i" "sign_of (show_int i) = (True, show_nat ?n)"
    using True by (simp_all add: show_int_def sign_of_def isspace_def)
  then show ?thesis
    using True assms digits_of_show_nat [of "[]" ?n] digits_val_show_nat [of ?n]
    by (simp add: strtol_def LONG_MAX_def LONG_MIN_def)
qed

lemma atoi_show_int:
  assumes "INT_MIN \<le> i" and "i \<le> INT_MAX"
  shows "atoi (show_int i) = i"
proof -
  have "LONG_MIN \<le> i" "i \<le> LONG_MAX" using assms by (simp_all add: LONG_MIN_def LONG_MAX_def INT_MIN_def INT_MAX_def)
  then show ?thesis using strtol_show_int [of i] int_of_long_id [OF assms] by (simp add: atoi_def)
qed

text \<open>What is printed for numbers has no separators in it.\<close>

definition sep_free :: "string \<Rightarrow> bool" where
  "sep_free s \<longleftrightarrow> CHR '','' \<notin> set s \<and> CHR ''\<newline>'' \<notin> set s"

lemma sep_free_simps [simp]:
  "sep_free (xs @ ys) \<longleftrightarrow> sep_free xs \<and> sep_free ys" "sep_free []"
  "sep_free (c # xs) \<longleftrightarrow> c \<noteq> CHR '','' \<and> c \<noteq> CHR ''\<newline>'' \<and> sep_free xs" "sep_free (replicate n CHR ''0'')"
  by (auto simp: sep_free_def)

lemma digit_char_sep: "d < 10 \<Longrightarrow> digit_char d \<noteq> CHR '','' \<and> digit_char d \<noteq> CHR ''\<newline>''"
proof -
  assume d: "d < 10"
  then have n: "of_char (digit_char d) = d + 48" by (simp add: digit_char_def)
  then show ?thesis using d by (auto simp: of_char_def)
qed

lemma sep_free_show_nat [simp]: "sep_free (show_nat n)"
proof -
  have "c \<noteq> CHR '','' \<and> c \<noteq> CHR ''\<newline>''" if c: "c \<in> set (show_nat n)" for c
  proof -
    obtain d where "d < 10" and "c = digit_char d" using bspec [OF show_nat_digits c] by (elim exE conjE)
    then show ?thesis using digit_char_sep by simp
  qed
  then show ?thesis by (auto simp: sep_free_def)
qed

lemma sep_free_numbers [simp]: "sep_free (show_int i)" "sep_free (show_lu w)" "sep_free (fixed_digits d x)"
  by (simp_all add: show_int_def show_lu_def fixed_digits_def pad_zero_def Let_def)

lemma sep_free_show_f [simp]: "sep_free (show_f [] d l)"
  by (cases l) simp_all

lemma sep_free_words [simp]: "sep_free (server_status st)" "sep_free (standby_status sb)"
  by (cases st; simp) (cases sb; simp)

section \<open>Property\<close>

text \<open>What a reader recovers from a row, and what the server table holds.\<close>

type_synonym csv_row = "string \<times> int \<times> string \<times> string \<times> string \<times> string \<times> int \<times> int \<times> int \<times> nat \<times> nat \<times> nat \<times> string \<times> string \<times> int"

definition csv_read :: "string list \<Rightarrow> csv_row" where
  "csv_read r = (r ! 0, atoi (r ! 1), r ! 2, r ! 3, r ! 4, r ! 5, atoi (r ! 6), atoi (r ! 7), atoi (r ! 8),
     digits_val 10 0 (r ! 9), digits_val 10 0 (r ! 10), digits_val 10 0 (r ! 11), r ! 12, r ! 13, atoi (r ! 14))"

definition csv_record :: "(32 word \<Rightarrow> string) \<Rightarrow> string \<Rightarrow> SERVER list \<Rightarrow> nat \<Rightarrow> csv_row" where
  "csv_record ntoa kind srvs i =
     (let s = srvs ! i in
      (kind, int i, srv_name s, server_status (srv_status s), standby_status (srv_standby_state s), ntoa (srv_sin_addr s),
       srv_port s, srv_c s, srv_maxc s, unat (srv_completed_c s), unat (srv_bsent s), unat (srv_brecv s),
       show_f [] 6 (srv_load s), show_f [] 6 (srv_maxl s), srv_e_load s))"

definition printable_server :: "SERVER \<Rightarrow> bool" where
  "printable_server s \<longleftrightarrow> sep_free (srv_name s) \<and> c_int (srv_port s) \<and> c_int (srv_c s) \<and> c_int (srv_maxc s) \<and> c_int (srv_e_load s)"

lemma atoi_show_nat_slot: "i \<le> MAXSERVERS \<Longrightarrow> atoi (show_nat i) = int i"
  using atoi_show_int [of "int i"] by (simp add: show_int_def INT_MIN_def INT_MAX_def)

lemma csv_read_fields:
  assumes "printable_server (srvs ! i)" and "i \<le> MAXSERVERS"
  shows "csv_read (csv_fields ntoa kind i (srvs ! i)) = csv_record ntoa kind srvs i"
  using assms atoi_show_nat_slot
  by (simp add: csv_read_def csv_fields_def csv_record_def Let_def atoi_show_int printable_server_def c_int_def show_lu_def digits_val_show_nat)

lemma csv_fields_sep_free:
  assumes "printable_server s" and "sep_free kind" and "sep_free (ntoa (srv_sin_addr s))"
  shows "\<forall>f \<in> set (csv_fields ntoa kind i s). CHR '','' \<notin> set f \<and> CHR ''\<newline>'' \<notin> set f"
proof -
  have "\<forall>f \<in> set (csv_fields ntoa kind i s). sep_free f" using assms by (simp add: csv_fields_def printable_server_def)
  then show ?thesis by (simp add: sep_free_def)
qed

text \<open>
  C26. Splitting the comma-separated output of \<open>show\<close> at line ends and commas and reading the numbers
  gives back the server tables: one row for every slot in use, members first, in the order of the
  slots, with its number, name, status, standby mark, address, port, connection counts, byte counters,
  loads and loading. It holds as long as no name contains a comma or a line end.
\<close>

theorem show_csv_roundtrip:
  assumes "\<And>w. sep_free (ntoa w)" and "nmembers b \<le> MAXSERVERS" and "nclones b \<le> MAXSERVERS"
    and "\<And>i. i < nmembers b \<Longrightarrow> printable_server (members b ! i)" and "\<And>i. i < nclones b \<Longrightarrow> printable_server (clones b ! i)"
  shows "map csv_read (csv_rows (cmd_show ntoa True extended b))
    = map (csv_record ntoa ''Member'' (members b)) (filter (\<lambda>i. srv_status (members b ! i) \<noteq> SERVER_STATE_FREE) [0..<nmembers b])
      @ map (csv_record ntoa ''Clone'' (clones b)) (filter (\<lambda>i. srv_status (clones b ! i) \<noteq> SERVER_STATE_FREE) [0..<nclones b])"
proof -
  define ms where "ms = map (\<lambda>i. csv_fields ntoa ''Member'' i (members b ! i)) (listed (members b) (nmembers b))"
  define cs where "cs = map (\<lambda>i. csv_fields ntoa ''Clone'' i (clones b ! i)) (listed (clones b) (nclones b))"
  have l: "i < n" if "i \<in> set (listed srvs n)" for i srvs n using that by (simp add: listed_def)
  have k: "sep_free ''Member''" "sep_free ''Clone''" by simp_all
  have "\<forall>fs \<in> set (ms @ cs). fs \<noteq> [] \<and> (\<forall>f \<in> set fs. CHR '','' \<notin> set f \<and> CHR ''\<newline>'' \<notin> set f)"
    using csv_fields_sep_free [OF assms(4) k(1) assms(1)] csv_fields_sep_free [OF assms(5) k(2) assms(1)] l
    by (fastforce simp: ms_def cs_def csv_fields_def)
  from csv_rows_lines [OF this] have rows: "csv_rows (cmd_show ntoa True extended b) = ms @ cs"
    by (simp add: cmd_show_def show_csv_def ms_def cs_def o_def)
  have "csv_read (csv_fields ntoa ''Member'' i (members b ! i)) = csv_record ntoa ''Member'' (members b) i"
    if "i \<in> set (listed (members b) (nmembers b))" for i
    using l [OF that] assms(2,4) by (intro csv_read_fields) simp_all
  moreover have "csv_read (csv_fields ntoa ''Clone'' i (clones b ! i)) = csv_record ntoa ''Clone'' (clones b) i"
    if "i \<in> set (listed (clones b) (nclones b))" for i
    using l [OF that] assms(3,5) by (intro csv_read_fields) simp_all
  ultimately show ?thesis by (simp add: rows ms_def cs_def listed_def)
qed

definition web_balancer :: BALANCER where
  "web_balancer = sample_balancer\<lparr>nmembers := 2, members := empty_table[1 := new_server ''web'' SERVER_STATE_ENABLED STANDBY_STATE_FALSE 80 0 500 (Fin 4)]\<rparr>"

theorem show_csv_roundtrip_witness:
  "map csv_read (csv_rows (cmd_show (\<lambda>w. show_nat (unat w)) True True web_balancer))
    = [(''Member'', 1, ''web'', ''Enabled'', [], ''0'', 80, 0, 500, 0, 0, 0, ''-1.000000'', ''4.000000'', 0)]"
proof -
  let ?s = "new_server ''web'' SERVER_STATE_ENABLED STANDBY_STATE_FALSE 80 0 500 (Fin 4)"
  have m: "nmembers web_balancer = 2" "nclones web_balancer = 0" "members web_balancer ! 0 = zero_server" "members web_balancer ! 1 = ?s"
    by (simp_all add: web_balancer_def sample_balancer_def)
  have two: "i = 0 \<or> i = 1" if "i < 2" for i :: nat using that by linarith
  have p: "printable_server zero_server" "printable_server ?s"
    by (simp_all add: printable_server_def c_int_def INT_MIN_def INT_MAX_def zero_server_def new_server_def)
  have n: "show_nat 0 = ''0''" "show_nat 1 = ''1''" "show_nat 4 = ''4''" by (code_simp, code_simp, code_simp)
  have c: "srv_completed_c zero_server = 0" by (simp add: zero_server_def)
  have z: "replicate 5 CHR ''0'' = ''00000''" by (simp add: numeral_eq_Suc)
  have f: "show_f [] 6 (Fin (- 1)) = ''-1.000000''" "show_f [] 6 (Fin 4) = ''4.000000''"
    using n z by (simp_all add: fixed_digits_def round_half_even_def pad_zero_def)
  have "printable_server (members web_balancer ! i)" if "i < 2" for i using two [OF that] m p by auto
  then have "map csv_read (csv_rows (cmd_show (\<lambda>w. show_nat (unat w)) True True web_balancer))
    = map (csv_record (\<lambda>w. show_nat (unat w)) ''Member'' (members web_balancer)) (filter (\<lambda>i. srv_status (members web_balancer ! i) \<noteq> SERVER_STATE_FREE) [0..<2])"
    using show_csv_roundtrip [of "\<lambda>w. show_nat (unat w)" web_balancer True] by (simp add: m)
  also have "filter (\<lambda>i. srv_status (members web_balancer ! i) \<noteq> SERVER_STATE_FREE) [0..<2] = [1]"
    using m by (simp add: upt_rec zero_server_def new_server_def)
  finally show ?thesis using m f n(1) c by (simp add: csv_record_def new_server_def SNMP_LOAD_NOT_INIT_def)
qed

end
