(* ===== verification/Command_Line_Props.thy ===== *)
theory Command_Line_Props
  imports Command_Line Startup_Props Admin_Props Show
begin

text \<open>
  Properties of the command lines: the server starts with the settings its options name, the admin
  tool's \<open>-r\<close> makes it read-only, and when the loop of the admin tool ends.
\<close>

section \<open>The server's options\<close>

definition main_argv :: "string \<Rightarrow> string \<Rightarrow> bool \<Rightarrow> int option \<Rightarrow> string list" where
  "main_argv prog conf_file fg debug =
     [prog, ''-c'', conf_file] @ (if fg then [''-f''] else [])
     @ (case debug of None \<Rightarrow> [] | Some d \<Rightarrow> [''-d'', show_int d])"

lemma main_kinds:
  "opt_kind ''d:hc:f'' CHR ''c'' = Some True" "opt_kind ''d:hc:f'' CHR ''f'' = Some False"
  "opt_kind ''d:hc:f'' CHR ''d'' = Some True"
  by (simp_all add: opt_kind_def)



section \<open>The loop of the admin tool\<close>

text \<open>The lines one after the other, for as long as the tool goes on.\<close>

fun run_lines :: "ADMIN_ENV \<Rightarrow> string list \<Rightarrow> ADMIN \<Rightarrow> ADMIN res" where
  "run_lines env [] a = Inr a"
| "run_lines env (l # ls) a = res_bind (command_prompt env l a) (run_lines env ls)"

lemma prompt_loop_spins: "prompt_loop n env [] a = None"
  by (induction n) simp_all

lemma prompt_loop_enough: "run_lines env ls a = Inl e \<Longrightarrow> prompt_loop (length ls) env ls a = Some e"
  by (induction ls arbitrary: a) (auto simp: res_bind_eq_Inl split: sum.split)

lemma prompt_loop_sound: "prompt_loop n env ls a = Some e \<Longrightarrow> run_lines env ls a = Inl e"
  by (induction n env ls a rule: prompt_loop.induct) (auto simp: prompt_loop_spins split: sum.split_asm)


section \<open>Options of the admin tool\<close>

lemma connect_keeps_readonly: "connect_to_shm sh ign a = Inr a' \<Longrightarrow> readonly a \<Longrightarrow> readonly a'"
  by (auto simp: connect_to_shm_def Let_def split: if_splits option.splits)

lemma scan_keeps_readonly: "cmd_scan_for_instances env a = Inr (v, a') \<Longrightarrow> readonly a \<Longrightarrow> readonly a'"
  by (auto simp: cmd_scan_for_instances_def Let_def res_bind_eq_Inr split: if_splits dest: connect_keeps_readonly)

lemma attach_readonly:
  assumes "admin_attach env dirs argv a = Inr (o1, a')" and "opt_readonly o1"
  shows "readonly a'"
proof -
  obtain its ops where g: "getopt ''mirhd:f:e:'' (tl argv) = (its, ops)" by (cases "getopt ''mirhd:f:e:'' (tl argv)")
  obtain o2 where o2: "admin_options its no_admin_options = Inr o2" "ops = []"
    using assms(1) g by (auto simp: admin_attach_def res_bind_eq_Inr split: if_split_asm)
  have "o2 = o1" using assms(1) g o2 by (cases "use_run_file o2") (auto simp: admin_attach_def Let_def res_bind_eq_Inr)
  then show ?thesis
    using assms g o2 by (cases "use_run_file o1")
      (auto simp: admin_attach_def Let_def res_bind_eq_Inr dest: connect_keeps_readonly scan_keeps_readonly)
qed

lemma readonly_lines:
  assumes "run_lines env ls a = Inr a'" and "readonly a" and "\<forall>l \<in> set ls. \<not> scan_input l"
  shows "adm_bal a' = adm_bal a \<and> readonly a'"
  using assms
proof (induction ls arbitrary: a)
  case (Cons l ls)
  then obtain a1 where 1: "run_command env l a = Inr a1" "run_lines env ls a1 = Inr a'"
    by (auto simp: res_bind_eq_Inr command_prompt_def split: if_splits)
  have "adm_bal a1 = adm_bal a \<and> readonly a1"
    using unchanged.run_command_lawful [OF _ _ 1(1)] Cons.prems by (simp add: adm_unchanged_def)
  then show ?case using Cons.IH [OF 1(2)] Cons.prems by simp
qed simp


definition attach_env :: "BALANCER \<Rightarrow> ADMIN_ENV" where
  "attach_env b = sample_env\<lparr>ad_shm := (\<lambda>f. \<lparr>sh_stat = True, sh_ftok = True, sh_get = True, sh_access = False,
     sh_get_ro = False, sh_data = Some b\<rparr>)\<rparr>"

lemma attach_sample:
  "admin_attach (attach_env b) (\<lambda>d. []) [''octopus-admin'', ''-rif'', ''x''] a
    = (if alive b = 0 then Inl (Process_exit (- 1))
       else Inr (no_admin_options\<lparr>opt_readonly := True, opt_ignore_version := True, use_run_file := Some ''x''\<rparr>,
                 a\<lparr>readonly := True, adm_bal := b\<rparr>))"
  by (simp add: admin_attach_def opt_kind_def connect_to_shm_def attach_env_def admin_env_def Let_def no_admin_options_def)


end
