(* ===== verification/Spec2Isabelle.thy ===== *)
theory Spec2Isabelle
  imports Monitor_Props Duplex Startup_Types Command_Line_Props
begin

text \<open>
  A verification of the Octopus load balancer (src/src/*.c), a TCP load balancer written in C.

  \<^bold>\<open>The program.\<close> Three programs share one structure, \<open>BALANCER\<close>, in a shared memory segment: the server
  process (octopus.c, connect.c, algorithms.c) accepts clients, chooses a member server and perhaps a
  clone for each, and relays bytes in a loop over epoll events; the monitor process (monitor.c) frees
  deleted servers, probes the others, computes their load and rebalances the table of URI hashes; the
  admin tool (admin.c) reads and changes the balancer by commands. The server process is started by
  init.c, which reads a configuration file (config.c), and stopped by signals.c.

  \<^bold>\<open>The model.\<close> Structures are records with the fields of the C structures, enumerations are datatypes,
  bit masks and fixed-width unsigned integers are words, \<open>float\<close> and \<open>double\<close> are exact rationals with
  rounding to the format (C_Float). Arrays are lists of their declared length. A C function is a
  function on the state it reads and writes; one that can go wrong returns \<open>fault + state\<close>, where a
  fault is a NULL dereference, an access outside an array, a division by zero, a conversion or a read
  that C leaves undefined, or a call of \<open>exit\<close> (Prelude). The results of system calls, of \<open>malloc\<close>, of the
  SNMP library and of \<open>inet_aton\<close> and \<open>inet_ntoa\<close> are arguments; \<open>qsort\<close> is an argument with its contract
  \<open>sorts_by_load\<close>, which insertion sort satisfies (\<open>sort_key_sorts_by_load\<close>).

  \<^item> Prelude, C_Float, C_String: faults and sequencing, C integers, floats, string functions of the
    C library (\<open>strtok\<close>, \<open>strtol\<close>, \<open>atof\<close>, ...).
  \<^item> Balancer (octopus.h): servers, balancer, \<open>set_cloned_state\<close>, \<open>create_balancer_server\<close>; the invariants
    \<open>table_ok\<close> of a server table and \<open>hash_ok\<close> of the hash table with its usage counters.
  \<^item> Algorithms, Selection (algorithms.c): the scans for available servers, round robin, least
    connections, least load, the URI parser, the DJB hash, the static and the hash algorithm; that each
    picks an eligible server, and which one.
  \<^item> Buffers, Sessions, Connect, Relay, Accepting (octopus.c, connect.c): session records, descriptor
    table, the queue of unused sessions, connecting, the six read and write handlers, accepting and the
    dispatch of events. Session_Inv and Server_Props: the invariant \<open>lb_ok\<close> and that events keep it and do not
    fault. Server_Frame: what of the shared balancer the server process leaves alone. Streams and Duplex:
    a session implements two lossless ordered byte channels, used at the same time, and delivers.
  \<^item> Logging (logging.c): \<open>write_log\<close> with its sinks, the suppression of repeated messages, fatal messages.
  \<^item> Monitor, Monitor_Props (monitor.c): deletion, health checks, loads, rebalancing, one round of the loop.
    Interleaving: the round in small steps, between which the other processes run.
  \<^item> Config, Config_Props (config.c, \<open>initialize_logging\<close> of init.c): lines and words, every directive, the
    server sections; ranges of the accepted settings, reading back a printed configuration.
  \<^item> Init, Startup, Startup_Props (init.c, \<open>main\<close> of octopus.c): balancer defaults, shared memory, descriptors,
    sessions, daemon, listening socket, in the order of \<open>main\<close>; start-up establishes \<open>lb_ok\<close>.
  \<^item> Command_Line, Command_Line_Props: \<open>getopt\<close>, the options of both programs, the loop of the admin tool.
  \<^item> Admin, Admin_Props, Admin_Laws (admin.c): attaching, the commands, the prompt. Show: the output of
    the commands \<open>show\<close> and \<open>info\<close>. Shutdown (signals.c): the signal handler and \<open>clean_exit\<close>.
  \<^item> C_Types, Startup_Types: integers stay in the ranges of their C types, from start-up on.
  \<^item> This theory: the processes together.

  \<^bold>\<open>What is shown.\<close> The central result is \<open>system_run_ok\<close>: in every state that an interleaving of server
  events, small steps of the monitor, admin commands and signals leads to, the connection counts are the
  numbers of connected sessions, no session refers to a freed server, buffers stay inside their arrays and
  the usage counters count the entries of the hash table; \<open>start_up_ok\<close> shows that start-up establishes this,
  and \<open>system_run_typed\<close> that along the way no integer leaves the range of its C type, which justifies that
  most of them are unbounded in the model. \<open>session_refines_channels\<close> and \<open>session_delivers\<close> say what a client
  gets from the program: its bytes, unchanged and in order, and in the end all of them.

  The interfaces are locales: \<open>shared_op\<close> (Monitor) for an operation on the shared balancer that the
  server process tolerates, interpreted by the operations of the monitor, by the fork and by the shutdown;
  \<open>admin_law\<close> (Admin_Props) for a relation that every command of the admin tool respects, interpreted for
  read-only mode and for safety, and its special case \<open>balancer_law\<close> (Admin_Laws) for relations on the balancer
  alone, interpreted for slots staying in use and for the C types; \<open>conf_law\<close> (Config_Props) for an invariant of
  the configuration parser, interpreted for the ranges of the settings and for the C types; \<open>channel\<close>
  (Duplex) for one direction of a session. The remaining properties say what each component computes, and where the
  code does not do what it means to: those are the properties about errors, among them that a freshly started
  server rejects every connection (\<open>startup_serves_nobody\<close>) and that the monitor may undo a command of the
  admin tool (\<open>probe_undoes_disable\<close>).

  \<^bold>\<open>Bounds and termination.\<close> Every loop is a structural recursion over the list of indices, bytes or
  words that the C loop runs over, except \<open>conf_lines\<close>, \<open>getopt\<close> and the printing of numbers, whose
  termination is proved, and the prompt of the admin tool, \<open>prompt_loop\<close>: it has fuel, one unit per turn, since
  it need not end, and \<open>prompt_ends_iff\<close> says when some fuel is enough. The constants (512 servers, the size of
  the hash table, the buffer sizes) are those of octopus.h.

  \<^bold>\<open>Assumptions.\<close> The program uses no locks. Taken as atomic are: the handling of one event by the server process, one step
  of the monitor (one server, one setting, or one rebalancing; a health check and a load query are two steps,
  with the wait for the answer between them), one admin command and the handling of a signal; a finer interleaving is not covered.
  Reads and writes obey the contract of the system calls (\<open>io_contract\<close>): a count is never larger than the one asked for.
  \<open>errno\<close> is modelled where the code tests it; calls that only print or log are taken not to set it, and
  \<open>write_log\<close> resets it. Memory read before it was written is an argument (the address and name of a
  server section without them). One flag stands for all calls of \<open>malloc\<close> of a step.

  \<^bold>\<open>Not modelled.\<close> The constant texts of help, examples and usage, and the messages that the other commands of
  the admin tool print; the texts of log messages; the SNMP library, whose answers are arguments; the build
  files, man pages and test scripts.
\<close>

section \<open>The processes together\<close>

text \<open>
  The server process, the monitor process and the admin tool share the balancer. A run of the system
  interleaves events of the server process, small steps of the monitor, commands of the admin tool and
  the handling of signals; the admin tool keeps its own globals between its commands, and the monitor
  remembers the server whose answer it waits for. Two commands are left out: \<open>scan\<close>, which attaches to another
  balancer, and those with the type \<open>a\<close> and a number, which write through a stale pointer.
\<close>

type_synonym system_state = "LB \<times> ADMIN \<times> mon_pc"

inductive system_step :: "int \<Rightarrow> (SERVER list \<Rightarrow> SERVER list) \<Rightarrow> system_state \<Rightarrow> system_state \<Rightarrow> bool" for listenerfd qsort where
  serve: "server_step listenerfd lb lb' \<Longrightarrow> system_step listenerfd qsort (lb, a, pc) (lb', a, pc)"
| monitor_forked: "c_int pid \<Longrightarrow> system_step listenerfd qsort (lb, a, pc) (upd_bal (monitor_start 0 pid) lb, a, pc)"
| monitor: "monitor_step qsort (pc, balancer lb) (pc', b') \<Longrightarrow>
    system_step listenerfd qsort (lb, a, pc) (lb\<lparr>balancer := b'\<rparr>, a, pc')"
| admin: "\<not> stale_input input \<Longrightarrow> \<not> scan_input input \<Longrightarrow>
    command_prompt aenv input (a\<lparr>adm_bal := balancer lb\<rparr>) = Inr a' \<Longrightarrow>
    system_step listenerfd qsort (lb, a, pc) (lb\<lparr>balancer := adm_bal a'\<rparr>, a', pc)"
| signalled: "signal_handler xenv pid datebuf signum (Some (balancer lb)) = Inr (out, st, Some b') \<Longrightarrow>
    system_step listenerfd qsort (lb, a, pc) (lb\<lparr>balancer := b'\<rparr>, a, pc)"

definition system_ok :: "system_state \<Rightarrow> bool" where
  "system_ok x = (case x of (lb, a, pc) \<Rightarrow> lb_ok lb \<and> length (subject a) = 2 * MAXSERVERS \<and> mon_ok pc (balancer lb))"

lemma keeps_monitor_start: "keeps b (monitor_start c pid b)"
  using balancer_ok_cong [of b] by (simp add: keeps_def monitor_start_def)

interpretation monitor_fork: shared_op "monitor_start c pid"
  by unfold_locales (rule keeps_monitor_start)

text \<open>A step of another process than the server process respects what the others rely on.\<close>

lemma system_okI:
  assumes "system_ok (lb, a, pc)" and "keeps (balancer lb) b'" and "mon_ok pc' b'" and "length (subject a') = length (subject a)"
  shows "system_ok (lb\<lparr>balancer := b'\<rparr>, a', pc')"
  using assms lb_ok_keeps [of lb b'] by (simp add: system_ok_def)

lemma signalled_balancer:
  assumes "signal_handler xenv pid datebuf signum (Some b) = Inr (out, st, Some b')"
  shows "b' = b \<or> b' = b\<lparr>alive := 0\<rparr>"
proof -
  obtain s c where c: "clean_exit xenv pid b = (s, c)" by force
  then have "c = b \<or> c = b\<lparr>alive := 0\<rparr>" using clean_exit_balancer [of xenv pid b] by (auto split: if_split_asm)
  then show ?thesis using assms c by (cases signum) (auto simp: signal_handler_def Let_def res_bind_eq_Inr)
qed

lemma system_step_ok:
  assumes "system_step l qsort x y" and "sorts_by_load qsort" and "system_ok x"
  shows "system_ok y"
  using assms(1)
proof (cases rule: system_step.cases)
  case (serve lb lb' a pc)
  then show ?thesis
    using server_step_ok assms(3) keeps_used_mon_ok [OF server_keeps_used [OF serve(3)]] by (simp add: system_ok_def)
next
  case (monitor_forked pid lb a pc)
  then show ?thesis
    using assms(3) monitor_fork.server_kept keeps_used_mon_ok [OF keeps_used_cong, of "monitor_start 0 pid (balancer lb)" "balancer lb" pc]
    by (simp add: system_ok_def monitor_start_def)
next
  case (monitor pc lb pc' b' a)
  have "keeps (balancer lb) b'" using keeps_monitor_step [OF monitor(3) assms(2)] monitor(1) assms(3) by (simp add: system_ok_def)
  then show ?thesis using system_okI [of lb a pc b' pc' a] monitor mon_ok_monitor_step [OF monitor(3)] assms(3) by simp
next
  case (admin input aenv lb a a' pc)
  then show ?thesis
    using admin_step_ok [of lb "a\<lparr>adm_bal := balancer lb\<rparr>" input aenv a'] assms(3)
      keeps_used_mon_ok [OF admin_keeps_used [OF admin(4,5)]] by (simp add: system_ok_def)
next
  case (signalled xenv pid datebuf signum lb out st b' a pc)
  have "members b' = members (balancer lb)" "clones b' = clones (balancer lb)" "keeps (balancer lb) b'"
    using signalled_balancer [OF signalled(3)] by (auto intro: keeps_cong)
  then show ?thesis
    using signalled(1,2) assms(3) system_okI [of lb a pc b' pc a] keeps_used_mon_ok [OF keeps_used_cong, of b' "balancer lb" pc]
    by (simp add: system_ok_def)
qed

lemma system_steps_ok:
  assumes "(system_step l qsort)\<^sup>*\<^sup>* x y" and "sorts_by_load qsort" and "system_ok x"
  shows "system_ok y"
  using assms(1,3) by (induction rule: rtranclp_induct) (auto intro: system_step_ok assms(2))

lemma monitor_steps_run:
  assumes "(monitor_step qsort)\<^sup>*\<^sup>* x y"
  shows "(system_step l qsort)\<^sup>*\<^sup>* (lb\<lparr>balancer := snd x\<rparr>, a, fst x) (lb\<lparr>balancer := snd y\<rparr>, a, fst y)"
  using assms
proof (induction rule: rtranclp_induct)
  case (step y z)
  have "system_step l qsort (lb\<lparr>balancer := snd y\<rparr>, a, fst y) ((lb\<lparr>balancer := snd y\<rparr>)\<lparr>balancer := snd z\<rparr>, a, fst z)"
    by (rule system_step.monitor) (use step(2) in simp)
  then show ?case using step(3) by (simp add: rtranclp.rtrancl_into_rtrancl)
qed simp


lemma leaving_run:
  "(system_step 3 (sort_key srv_e_load))\<^sup>*\<^sup>* (leaving_lb, a, Idle) (leaving_lb\<lparr>balancer := leaving_after\<rparr>, a, Idle)"
  using monitor_steps_run [OF idle_round [OF lb_okD(1) [OF leaving_lb_ok] leaving_round], where lb = leaving_lb and l = 3] by simp

lemma leaving_after_free: "srv_status (members leaving_after ! 1) = SERVER_STATE_FREE"
proof -
  let ?b = "(balancer leaving_lb)\<lparr>connection_rejected_log_suppress := False\<rparr>"
  have ok: "balancer_ok ?b" using lb_okD(1) [OF leaving_lb_ok] balancer_ok_cong by simp
  note d = handle_delete_servers_spec [OF ok]
  have m: "nmembers ?b = 2" "members ?b ! 1 = (sample_server 1 0)\<lparr>srv_status := SERVER_STATE_DELETED\<rparr>" "nclones ?b = 0"
    using live_members_ok by (simp_all add: leaving_lb_def live_members_nth sample_balancer_def)
  have "deletable (members ?b ! 1)" using m(2) by (simp add: deletable_def sample_server_def)
  then have h: "nmembers (handle_delete_servers ?b) = 1" "members (handle_delete_servers ?b) ! 1 = zero_server"
    "nclones (handle_delete_servers ?b) = 0"
    using d(1) [of 1] d(4,5) m by simp_all
  have ok': "balancer_ok (handle_delete_servers ?b)" using deletion.keeps_op [of ?b] ok by (simp add: keeps_def)
  have "leaving_after = check_members (\<lambda>i. good_probe) (handle_delete_servers ?b)"
    using h(3) check_members_upto_frame(5) [of _ _ "handle_delete_servers ?b"]
    by (simp add: leaving_after_def check_clones_def check_members_def check_members_upto_def)
  then show ?thesis using check_members_nth [OF ok', of "\<lambda>i. good_probe" 1] h by simp
qed


lemma system_step_typed:
  assumes "system_step l qsort x y" and "bal_typed (balancer (fst x))"
  shows "bal_typed (balancer (fst y))"
proof -
  have "keeps_typed (balancer (fst x)) (balancer (fst y))"
    using assms(1)
  proof (cases rule: system_step.cases)
    case (serve lb lb' a pc)
    then show ?thesis using server_keeps_typed by simp
  next
    case (monitor_forked pid lb a pc)
    then show ?thesis by (auto intro!: keeps_typed_fields simp: monitor_start_def settings_typed_def)
  next
    case (monitor pc lb pc' b' a)
    then show ?thesis using monitor_step_typed by simp
  next
    case (admin input aenv lb a a' pc)
    then show ?thesis using admin_keeps_typed [OF admin(4,5)] by simp
  next
    case (signalled xenv pid datebuf signum lb out st b' a pc)
    then show ?thesis using signalled_balancer [OF signalled(3)] by (auto intro!: keeps_typed_fields simp: settings_typed_def)
  qed
  then show ?thesis using assms(2) by (simp add: keeps_typed_def)
qed



end
